theory Spec2Isabelle
  imports Main "HOL-Library.Sublist"
begin

section \<open>Errors and the constants of the api package\<close>

text \<open>
  Every Go error value the modelled functions can return is a value of one datatype.
  Errors built with \<^verbatim>\<open>fmt.Errorf\<close> carry the formatted arguments; errors coming back from
  a collaborator (the stack manager, the EKS API, the builder's helpers) are opaque and
  carry only a label, an AWS error (\<^verbatim>\<open>awserr.Error\<close>) its code.
\<close>

datatype error =
    External string
  | Wrapf string error
  | IPv6Unsupported
  | NodesLowerThanMin int int
  | NodesGreaterThanMax int int
  | MinGreaterThanMax int int
  | DuplicateTaintLabel string string string string
  | TooManyTags nat nat nat
  | UnexpectedCurrentFormat
  | UnexpectedNewFormat
  | FailedToDelete string
  | ClusterNotFound string
  | UndeletedStacks
  | AwsErr string
  | UnsupportedOIDCError
  | NilPointerDereference

text \<open>
  The constants \<^verbatim>\<open>api.ClusterNameTag\<close>, \<^verbatim>\<open>api.OldClusterNameTag\<close> and
  \<^verbatim>\<open>api.DefaultNodeCount\<close> are declared in the api package, outside the sources at hand;
  they are parameters of the functions that read them.
\<close>

record api =
  ClusterNameTag :: string
  OldClusterNameTag :: string
  DefaultNodeCount :: int

section \<open>Go's strings package\<close>

definition HasPrefix :: "string \<Rightarrow> string \<Rightarrow> bool" where
  "HasPrefix s p = prefix p s"

definition HasSuffix :: "string \<Rightarrow> string \<Rightarrow> bool" where
  "HasSuffix s p = suffix p s"

definition TrimPrefix :: "string \<Rightarrow> string \<Rightarrow> string" where
  "TrimPrefix s p = (if HasPrefix s p then drop (length p) s else s)"

definition TrimSuffix :: "string \<Rightarrow> string \<Rightarrow> string" where
  "TrimSuffix s p = (if HasSuffix s p then take (length s - length p) s else s)"

section \<open>Cluster stacks (pkg/cfn/manager/cluster.go)\<close>

record Tag =
  TagKey :: string
  TagValue :: string

record Stack =
  StackName :: string
  StackStatus :: string
  Tags :: "Tag list"

definition StackStatusDeleteComplete :: string where
  "StackStatusDeleteComplete = ''DELETE_COMPLETE''"

definition StackStatusDeleteInProgress :: string where
  "StackStatusDeleteInProgress = ''DELETE_IN_PROGRESS''"

text \<open>\<^verbatim>\<open>getClusterNameTag\<close>: the value of the first tag whose key is one of the two
  cluster-name tags, the empty string when there is none.\<close>

fun getClusterNameTag_loop :: "api \<Rightarrow> Tag list \<Rightarrow> string" where
  "getClusterNameTag_loop a [] = ''''"
| "getClusterNameTag_loop a (t # ts) =
     (if TagKey t = ClusterNameTag a \<or> TagKey t = OldClusterNameTag a then TagValue t
      else getClusterNameTag_loop a ts)"

definition getClusterNameTag :: "api \<Rightarrow> Stack \<Rightarrow> string" where
  "getClusterNameTag a s = getClusterNameTag_loop a (Tags s)"

text \<open>\<^verbatim>\<open>getClusterName\<close>. The legacy branch calls
  \<^verbatim>\<open>strings.TrimPrefix("EKS-", strings.TrimSuffix(*s.StackName, "-ControlPlane"))\<close>:
  the string being trimmed is the literal \<^verbatim>\<open>"EKS-"\<close> and the prefix to cut is the stack
  name without its suffix. The model keeps the argument order of the source.\<close>

definition getClusterName :: "api \<Rightarrow> Stack \<Rightarrow> string" where
  "getClusterName a s =
     (let v = (if HasSuffix (StackName s) ''-cluster'' then getClusterNameTag a s else '''')
      in if v \<noteq> '''' then v
         else if HasPrefix (StackName s) ''EKS-'' \<and> HasSuffix (StackName s) ''-ControlPlane''
           then TrimPrefix ''EKS-'' (TrimSuffix (StackName s) ''-ControlPlane'')
           else '''')"

text \<open>\<^verbatim>\<open>DescribeClusterStack\<close>: the first stack that is not in state DELETE_COMPLETE and
  for which \<^verbatim>\<open>getClusterName\<close> is not empty. The result of \<^verbatim>\<open>DescribeStacks\<close> is the
  argument.\<close>

fun DescribeClusterStack_loop :: "api \<Rightarrow> Stack list \<Rightarrow> Stack option" where
  "DescribeClusterStack_loop a [] = None"
| "DescribeClusterStack_loop a (s # ss) =
     (if StackStatus s = StackStatusDeleteComplete then DescribeClusterStack_loop a ss
      else if getClusterName a s \<noteq> '''' then Some s
      else DescribeClusterStack_loop a ss)"

definition DescribeClusterStack :: "api \<Rightarrow> error + Stack list \<Rightarrow> error + Stack option" where
  "DescribeClusterStack a describeStacks =
     (case describeStacks of
        Inl err \<Rightarrow> Inl err
      | Inr stacks \<Rightarrow> Inr (DescribeClusterStack_loop a stacks))"

section \<open>Node group resources (pkg/cfn/builder/nodegroup.go)\<close>

text \<open>
  The fields of \<^verbatim>\<open>api.NodeGroup\<close> and \<^verbatim>\<open>api.ClusterMeta\<close> that the modelled functions read.
  A Go \<^verbatim>\<open>*int\<close> or \<^verbatim>\<open>*bool\<close> is an option; Go's \<^verbatim>\<open>int\<close> values are only compared here,
  never added, so they are unbounded integers. \<^verbatim>\<open>Labels\<close> is a Go map: the list gives its
  entries in the order the \<^verbatim>\<open>range\<close> loop visits them.
\<close>

record NodeGroupTaint =
  TaintKey :: string
  TaintValue :: string
  TaintEffect :: string

record NodeGroup =
  Name :: string
  InstancePrefix :: string
  InstanceName :: string
  MinSize :: "int option"
  MaxSize :: "int option"
  DesiredCapacity :: "int option"
  SpecTags :: "string \<rightharpoonup> string"
  Labels :: "(string \<times> string) list"
  Taints :: "NodeGroupTaint list"
  PropagateASGTags :: "bool option"
  AutoScaler :: "bool option"

record ClusterMeta =
  ClusterName :: string
  MetaTags :: "string \<rightharpoonup> string"

text \<open>One entry of the \<^verbatim>\<open>Tags\<close> property of the autoscaling group.\<close>

record ASGTag =
  Key :: string
  Value :: string
  PropagateAtLaunch :: string

text \<open>The properties of the \<^verbatim>\<open>AWS::AutoScaling::AutoScalingGroup\<close> resource that depend on
  capacity and tags (\<^verbatim>\<open>nodeGroupResource\<close> renders the three sizes with \<^verbatim>\<open>%d\<close>).\<close>

record ASG =
  asgTags :: "ASGTag list"
  asgDesiredCapacity :: "int option"
  asgMinSize :: "int option"
  asgMaxSize :: "int option"

text \<open>What the collaborators of the builder answer: \<^verbatim>\<open>clusterSpec.IPv6Enabled()\<close>,
  \<^verbatim>\<open>addResourcesForIAM\<close>, \<^verbatim>\<open>newLaunchTemplateData\<close> (user data and network interfaces)
  and \<^verbatim>\<open>AssignSubnets\<close>.\<close>

record builder_env =
  IPv6Enabled :: bool
  addResourcesForIAM :: "error option"
  newLaunchTemplateData :: "error option"
  AssignSubnets :: "error option"

definition MaximumTagNumber :: nat where
  "MaximumTagNumber = 50"

text \<open>Modelled from the spec: \<^verbatim>\<open>api.IsEnabled\<close>, declared in the api package outside the
  sources at hand: a flag is enabled when its pointer is set and points to true.\<close>

definition IsEnabled :: "bool option \<Rightarrow> bool" where
  "IsEnabled v = (v = Some True)"

definition mkTag :: "string \<Rightarrow> string \<Rightarrow> ASGTag" where
  "mkTag k v = \<lparr>Key = k, Value = v, PropagateAtLaunch = ''true''\<rparr>"

definition generateNodeName :: "NodeGroup \<Rightarrow> ClusterMeta \<Rightarrow> string" where
  "generateNodeName ng meta =
     (if InstancePrefix ng \<noteq> '''' then InstancePrefix ng @ ''-'' else '''') @
     (if InstanceName ng \<noteq> '''' then InstanceName ng
      else ClusterName meta @ ''-'' @ Name ng @ ''-Node'')"

text \<open>\<^verbatim>\<open>generateClusterAutoscalerTags\<close>: the first loop records every label in
  \<^verbatim>\<open>duplicates\<close> and appends its tag; the second stops at the first taint whose key is
  already recorded.\<close>

fun labels_loop ::
  "(string \<rightharpoonup> string) \<times> ASGTag list \<Rightarrow> (string \<times> string) list \<Rightarrow>
   (string \<rightharpoonup> string) \<times> ASGTag list" where
  "labels_loop (duplicates, result) [] = (duplicates, result)"
| "labels_loop (duplicates, result) ((k, v) # ls) =
     labels_loop (duplicates(k \<mapsto> v),
       result @ [mkTag (''k8s.io/cluster-autoscaler/node-template/label/'' @ k) v]) ls"

fun taints_loop ::
  "(string \<rightharpoonup> string) \<times> ASGTag list \<Rightarrow> NodeGroupTaint list \<Rightarrow> error + ASGTag list" where
  "taints_loop (duplicates, result) [] = Inr result"
| "taints_loop (duplicates, result) (taint # ts) =
     (case duplicates (TaintKey taint) of
        Some labelValue \<Rightarrow>
          Inl (DuplicateTaintLabel (TaintKey taint) (TaintValue taint) (TaintKey taint) labelValue)
      | None \<Rightarrow>
          taints_loop (duplicates(TaintKey taint \<mapsto> TaintValue taint),
            result @ [mkTag (''k8s.io/cluster-autoscaler/node-template/taints/'' @ TaintKey taint)
                        (TaintValue taint)]) ts)"

definition generateClusterAutoscalerTags :: "NodeGroup \<Rightarrow> error + ASGTag list" where
  "generateClusterAutoscalerTags spec =
     taints_loop (labels_loop (Map.empty, []) (Labels spec)) (Taints spec)"

definition nodeGroupResource :: "ASGTag list \<Rightarrow> NodeGroup \<Rightarrow> ASG" where
  "nodeGroupResource tags ng =
     \<lparr>asgTags = tags, asgDesiredCapacity = DesiredCapacity ng,
      asgMinSize = MinSize ng, asgMaxSize = MaxSize ng\<rparr>"

text \<open>The tags \<^verbatim>\<open>addResourcesForNodeGroup\<close> starts from: the two fixed ones, and two more
  when the autoscaler addon policy is enabled.\<close>

definition baseTags :: "ClusterMeta \<Rightarrow> NodeGroup \<Rightarrow> ASGTag list" where
  "baseTags meta spec =
     [mkTag ''Name'' (generateNodeName spec meta),
      mkTag (''kubernetes.io/cluster/'' @ ClusterName meta) ''owned''] @
     (if IsEnabled (AutoScaler spec)
      then [mkTag ''k8s.io/cluster-autoscaler/enabled'' ''true'',
            mkTag (''k8s.io/cluster-autoscaler/'' @ ClusterName meta) ''owned'']
      else [])"

definition addResourcesForNodeGroup :: "builder_env \<Rightarrow> ClusterMeta \<Rightarrow> NodeGroup \<Rightarrow> error + ASG" where
  "addResourcesForNodeGroup env meta spec =
     (case newLaunchTemplateData env of
        Some err \<Rightarrow> Inl (Wrapf ''could not add resources for nodegroup'' err)
      | None \<Rightarrow>
     (case AssignSubnets env of
        Some err \<Rightarrow> Inl err
      | None \<Rightarrow>
          if IsEnabled (PropagateASGTags spec) then
            (case generateClusterAutoscalerTags spec of
               Inl err \<Rightarrow> Inl err
             | Inr clusterTags \<Rightarrow>
                 let tags = baseTags meta spec @ clusterTags
                 in if length tags > MaximumTagNumber
                    then Inl (TooManyTags MaximumTagNumber (length tags) (length clusterTags))
                    else Inr (nodeGroupResource tags spec))
          else Inr (nodeGroupResource (baseTags meta spec) spec)))"

text \<open>The two capacity blocks of \<^verbatim>\<open>AddAllResources\<close>. Each returns the node group as the
  block leaves it and the error it returns, if any. The second block reads
  \<^verbatim>\<open>*n.spec.MinSize\<close>, which the first block has set.\<close>

definition ensureMinSize :: "api \<Rightarrow> NodeGroup \<Rightarrow> NodeGroup \<times> error option" where
  "ensureMinSize a spec =
     (case MinSize spec of
        None \<Rightarrow>
          (case DesiredCapacity spec of
             None \<Rightarrow> (spec\<lparr>MinSize := Some (DefaultNodeCount a)\<rparr>, None)
           | Some d \<Rightarrow> (spec\<lparr>MinSize := Some d\<rparr>, None))
      | Some m \<Rightarrow>
          (case DesiredCapacity spec of
             None \<Rightarrow> (spec, None)
           | Some d \<Rightarrow> if d < m then (spec, Some (NodesLowerThanMin d m)) else (spec, None)))"

definition ensureMaxSize :: "NodeGroup \<Rightarrow> NodeGroup \<times> error option" where
  "ensureMaxSize spec =
     (case MaxSize spec of
        None \<Rightarrow>
          (case DesiredCapacity spec of
             None \<Rightarrow> (spec\<lparr>MaxSize := MinSize spec\<rparr>, None)
           | Some d \<Rightarrow> (spec\<lparr>MaxSize := Some d\<rparr>, None))
      | Some mx \<Rightarrow>
          (case DesiredCapacity spec of
             Some d \<Rightarrow>
               if d > mx then (spec, Some (NodesGreaterThanMax d mx))
               else (case MinSize spec of
                       None \<Rightarrow> (spec, Some NilPointerDereference)
                     | Some m \<Rightarrow>
                         if mx < m then (spec, Some (MinGreaterThanMax m mx)) else (spec, None))
           | None \<Rightarrow>
               (case MinSize spec of
                  None \<Rightarrow> (spec, Some NilPointerDereference)
                | Some m \<Rightarrow>
                    if mx < m then (spec, Some (MinGreaterThanMax m mx)) else (spec, None))))"

text \<open>\<^verbatim>\<open>AddAllResources\<close>: the IPv6 guard, the cluster tags copied into the node group's
  tags where the key is not set, the two capacity blocks, the IAM resources, the node group
  resource. The template description, outputs and security groups do not fail and touch
  neither capacity nor the tags of the autoscaling group; they are left out. The result is
  the node group as the call leaves it and the error or the autoscaling group.\<close>

definition AddAllResources ::
  "builder_env \<Rightarrow> api \<Rightarrow> ClusterMeta \<Rightarrow> NodeGroup \<Rightarrow> NodeGroup \<times> (error + ASG)" where
  "AddAllResources env a meta spec0 =
     (if IPv6Enabled env then (spec0, Inl IPv6Unsupported)
      else
        let spec1 = spec0\<lparr>SpecTags := MetaTags meta ++ SpecTags spec0\<rparr> in
        (case ensureMinSize a spec1 of
           (spec2, Some err) \<Rightarrow> (spec2, Inl err)
         | (spec2, None) \<Rightarrow>
        (case ensureMaxSize spec2 of
           (spec3, Some err) \<Rightarrow> (spec3, Inl err)
         | (spec3, None) \<Rightarrow>
        (case addResourcesForIAM env of
           Some err \<Rightarrow> (spec3, Inl err)
         | None \<Rightarrow> (spec3, addResourcesForNodeGroup env meta spec3)))))"

section \<open>Templates and the additive merge (pkg/cfn/manager/cluster.go)\<close>

text \<open>
  A template is a JSON document. The source keeps it as text and reads and writes it with
  the gjson and sjson libraries; the model keeps the parsed value, an object being the list
  of its members in document order (a document may repeat a member name). A number is the
  text of its literal, so that equal values are equal documents.
\<close>

datatype json =
    JNull
  | JBool bool
  | JNumber string
  | JString string
  | JArray "json list"
  | JObject "(string \<times> json) list"

text \<open>
  A path component that is all digits is a number to both libraries: they read it digit by
  digit into a 64-bit integer (gjson into a \<^verbatim>\<open>uint64\<close> that it converts to \<^verbatim>\<open>int\<close>, sjson
  into an \<^verbatim>\<open>int\<close>), which wraps around. gjson's \<^verbatim>\<open>parseUint\<close> refuses the empty string,
  sjson's \<^verbatim>\<open>atoui\<close> reads it as 0.
\<close>

definition isDigit :: "char \<Rightarrow> bool" where
  "isDigit c = (c \<in> set ''0123456789'')"

definition wrap64 :: "int \<Rightarrow> int" where
  "wrap64 x = (x + 2 ^ 63) mod 2 ^ 64 - 2 ^ 63"

definition digitsValue :: "string \<Rightarrow> int" where
  "digitsValue p = foldl (\<lambda>n c. wrap64 (n * 10 + (of_char c - 48))) 0 p"

definition parseUint :: "string \<Rightarrow> int option" where
  "parseUint p = (if p \<noteq> [] \<and> list_all isDigit p then Some (digitsValue p) else None)"

definition atoui :: "string \<Rightarrow> int option" where
  "atoui p = (if list_all isDigit p then Some (digitsValue p) else None)"

text \<open>
  \<^verbatim>\<open>gjson.Get(json, path)\<close> for a path of one component: in an object the first member of
  that name, in an array the element at that index when the component is a number, nothing
  otherwise. \<^verbatim>\<open>None\<close> is the result for which \<^verbatim>\<open>Exists()\<close> is false. The paths of the
  source are the three section names and the logical names of template entries;
  CloudFormation's logical names are alphanumeric, so none of them holds a character that
  gjson reads as path syntax (a dot, a wildcard, a modifier), and such characters are not
  modelled.
\<close>

definition gjson_Get :: "json \<Rightarrow> string \<Rightarrow> json option" where
  "gjson_Get j path =
     (case j of
        JObject members \<Rightarrow> map_of members path
      | JArray elems \<Rightarrow>
          (case parseUint path of
             Some n \<Rightarrow> if 0 \<le> n \<and> n < int (length elems) then Some (elems ! nat n) else None
           | None \<Rightarrow> None)
      | _ \<Rightarrow> None)"

text \<open>\<^verbatim>\<open>Result.Get\<close>, \<^verbatim>\<open>Result.Exists\<close>, \<^verbatim>\<open>Result.IsObject\<close> and the members that
  \<^verbatim>\<open>Result.ForEach\<close> visits in an object.\<close>

definition result_Get :: "json option \<Rightarrow> string \<Rightarrow> json option" where
  "result_Get r path = (case r of None \<Rightarrow> None | Some j \<Rightarrow> gjson_Get j path)"

definition Exists :: "json option \<Rightarrow> bool" where
  "Exists r = (r \<noteq> None)"

definition IsObject :: "json option \<Rightarrow> bool" where
  "IsObject r = (case r of Some (JObject members) \<Rightarrow> True | _ \<Rightarrow> False)"

definition membersOf :: "json option \<Rightarrow> (string \<times> json) list" where
  "membersOf r = (case r of Some (JObject members) \<Rightarrow> members | _ \<Rightarrow> [])"

text \<open>Writing member \<^verbatim>\<open>k\<close> of an object: sjson replaces the value of the first member of
  that name and appends a new member at the end when there is none.\<close>

fun setMember :: "(string \<times> json) list \<Rightarrow> string \<Rightarrow> json \<Rightarrow> (string \<times> json) list" where
  "setMember [] k v = [(k, v)]"
| "setMember ((k', v') # members) k v =
     (if k' = k then (k, v) # members else (k', v') # setMember members k v)"

text \<open>
  sjson's \<^verbatim>\<open>appendBuild\<close>, for the components that remain under a container that does not
  exist yet: a component that is a number (or \<^verbatim>\<open>-1\<close>) makes the new container an array,
  filled with \<^verbatim>\<open>null\<close> up to that index; any other component makes it an object.
\<close>

fun appendBuild :: "string list \<Rightarrow> json \<Rightarrow> json" where
  "appendBuild [] raw = raw"
| "appendBuild (p # ps) raw =
     (case atoui p of
        Some n \<Rightarrow> JArray (replicate (nat n) JNull @ [appendBuild ps raw])
      | None \<Rightarrow>
          if p = ''-1'' then JArray [appendBuild ps raw]
          else JObject [(p, appendBuild ps raw)])"

text \<open>
  sjson's \<^verbatim>\<open>appendRawPaths\<close>. Where \<^verbatim>\<open>gjson.Get\<close> finds the first component (only an
  object or an array has a value to find), the value found is rewritten with the rest of the
  path, in place. Where it finds nothing, a value
  that is neither an object nor an array is first replaced by an empty array (for a
  component that is a number) or an empty object; an object then gets a new last member; an
  array gets a new last element, after as many \<^verbatim>\<open>null\<close> as it takes to reach the index,
  and refuses a component that is neither a number nor \<^verbatim>\<open>-1\<close>.
\<close>

fun appendRawPaths :: "json \<Rightarrow> string list \<Rightarrow> json \<Rightarrow> error + json" where
  "appendRawPaths j [] raw = Inr raw"
| "appendRawPaths j (p # ps) raw =
     (case gjson_Get j p of
        Some res \<Rightarrow>
          (case appendRawPaths res ps raw of
             Inl e \<Rightarrow> Inl e
           | Inr res' \<Rightarrow>
               (case j of
                  JObject members \<Rightarrow> Inr (JObject (setMember members p res'))
                | JArray elems \<Rightarrow> Inr (JArray (elems[nat (digitsValue p) := res']))
                | _ \<Rightarrow> Inr j))
      | None \<Rightarrow>
          (case (case j of
                   JObject members \<Rightarrow> j
                 | JArray elems \<Rightarrow> j
                 | _ \<Rightarrow> if atoui p \<noteq> None then JArray [] else JObject []) of
             JObject members \<Rightarrow> Inr (JObject (members @ [(p, appendBuild ps raw)]))
           | JArray elems \<Rightarrow>
               (case atoui p of
                  Some n \<Rightarrow>
                    Inr (JArray (elems @ replicate (nat (n - int (length elems))) JNull @
                                 [appendBuild ps raw]))
                | None \<Rightarrow>
                    if p = ''-1'' then Inr (JArray (elems @ [appendBuild ps raw]))
                    else Inl (External ''cannot set array element for non-numeric key''))
           | _ \<Rightarrow> Inl (External ''json must be an object or array'')))"

text \<open>\<^verbatim>\<open>sjson.Set(json, path, value)\<close>, the path given by its components (the source's path
  is \<^verbatim>\<open>root + "." + k\<close>) and the value already encoded.\<close>

definition sjson_Set :: "json \<Rightarrow> string list \<Rightarrow> json \<Rightarrow> error + json" where
  "sjson_Set j path raw =
     (if path = [] then Inl (External ''path cannot be empty'') else appendRawPaths j path raw)"

text \<open>Modelled from the spec: \<^verbatim>\<open>resourcesRootPath\<close>, the path of the resources section of a
  template, a constant declared in the manager package outside the sources at hand; it is
  the section name of a CloudFormation template.\<close>

definition resourcesRootPath :: string where
  "resourcesRootPath = ''Resources''"

text \<open>Modelled from the spec: \<^verbatim>\<open>outputsRootPath\<close>, the path of the outputs section, declared
  beside \<^verbatim>\<open>resourcesRootPath\<close>.\<close>

definition outputsRootPath :: string where
  "outputsRootPath = ''Outputs''"

text \<open>Modelled from the spec: \<^verbatim>\<open>mappingsRootPath\<close>, the path of the mappings section, declared
  beside \<^verbatim>\<open>resourcesRootPath\<close>.\<close>

definition mappingsRootPath :: string where
  "mappingsRootPath = ''Mappings''"

text \<open>
  \<^verbatim>\<open>iterFunc\<close>, the closure that \<^verbatim>\<open>AppendNewClusterStackResource\<close> runs on every entry of
  a section of the new template. Its state is the list of added names and
  \<^verbatim>\<open>currentTemplate\<close>; \<^verbatim>\<open>currentSet\<close> is the section as it was read from the deployed
  template before the merge. The value written is \<^verbatim>\<open>value.Value()\<close>, which sjson encodes
  again: the members of an object come out sorted by name, a number passes through
  \<^verbatim>\<open>float64\<close>, and the encoder can refuse a value. Floating point is not modelled: what
  the decoding and encoding make of a value is the parameter \<^verbatim>\<open>encode\<close>. An error of the
  encoder or of \<^verbatim>\<open>sjson.Set\<close> stops the iteration (\<^verbatim>\<open>iterErr\<close>).
\<close>

fun iterFunc ::
  "(json \<Rightarrow> error + json) \<Rightarrow> string \<Rightarrow> json option \<Rightarrow> string \<times> json \<Rightarrow> string list \<times> json \<Rightarrow>
   error + string list \<times> json" where
  "iterFunc encode root currentSet (k, v) (list, currentTemplate) =
     (if Exists (result_Get currentSet k) then Inr (list, currentTemplate)
      else (case encode v of
              Inl iterErr \<Rightarrow> Inl iterErr
            | Inr raw \<Rightarrow>
                (case sjson_Set currentTemplate [root, k] raw of
                   Inl iterErr \<Rightarrow> Inl iterErr
                 | Inr t \<Rightarrow> Inr (list @ [k], t))))"

fun ForEach ::
  "(string \<times> json) list \<Rightarrow> (string \<times> json \<Rightarrow> 's \<Rightarrow> error + 's) \<Rightarrow> 's \<Rightarrow> error + 's" where
  "ForEach [] f st = Inr st"
| "ForEach (kv # kvs) f st =
     (case f kv st of Inl e \<Rightarrow> Inl e | Inr st' \<Rightarrow> ForEach kvs f st')"

text \<open>The three iterations of the source, in their order: resources, outputs, mappings.
  The result is the merged template and the three lists of added names.\<close>

definition mergeTemplates ::
  "(json \<Rightarrow> error + json) \<Rightarrow> json \<Rightarrow> json \<Rightarrow>
   error + json \<times> string list \<times> string list \<times> string list" where
  "mergeTemplates encode currentTemplate newTemplate =
     (let currentResources = gjson_Get currentTemplate resourcesRootPath;
          currentOutputs = gjson_Get currentTemplate outputsRootPath;
          currentMappings = gjson_Get currentTemplate mappingsRootPath;
          newResources = gjson_Get newTemplate resourcesRootPath;
          newOutputs = gjson_Get newTemplate outputsRootPath;
          newMappings = gjson_Get newTemplate mappingsRootPath
      in
      case ForEach (membersOf newResources) (iterFunc encode resourcesRootPath currentResources)
             ([], currentTemplate) of
        Inl iterErr \<Rightarrow> Inl (Wrapf ''adding resources to current stack template'' iterErr)
      | Inr (addResources, t1) \<Rightarrow>
      (case ForEach (membersOf newOutputs) (iterFunc encode outputsRootPath currentOutputs)
              ([], t1) of
        Inl iterErr \<Rightarrow> Inl (Wrapf ''adding outputs to current stack template'' iterErr)
      | Inr (addOutputs, t2) \<Rightarrow>
      (case ForEach (membersOf newMappings) (iterFunc encode mappingsRootPath currentMappings)
              ([], t2) of
        Inl iterErr \<Rightarrow> Inl (Wrapf ''adding mappings to current stack template'' iterErr)
      | Inr (addMappings, t3) \<Rightarrow> Inr (t3, addResources, addOutputs, addMappings))))"

text \<open>
  What the collaborators of \<^verbatim>\<open>AppendNewClusterStackResource\<close> answer in one call:
  \<^verbatim>\<open>GetStackTemplate\<close>, \<^verbatim>\<open>importServiceRoleARN\<close> (its effect is on the cluster
  configuration, which only the builder reads), the builder's \<^verbatim>\<open>AddAllResources\<close> and
  \<^verbatim>\<open>RenderJSON\<close> for the new cluster stack, and \<^verbatim>\<open>UpdateStack\<close>; and
  \<^verbatim>\<open>encodeValue\<close>, what \<^verbatim>\<open>value.Value()\<close> and the encoder of sjson make of a value.
\<close>

record append_env =
  GetStackTemplate :: "error + json"
  importServiceRoleARN :: "error option"
  newStackAddAllResources :: "error option"
  RenderJSON :: "error + json"
  UpdateStack :: "error option"
  encodeValue :: "json \<Rightarrow> error + json"

text \<open>The outcome of a call: the two results and the template of every \<^verbatim>\<open>UpdateStack\<close>
  call that was issued.\<close>

record append_result =
  changed :: bool
  returnedError :: "error option"
  updateStackCalls :: "json list"

definition AppendNewClusterStackResource :: "append_env \<Rightarrow> bool \<Rightarrow> append_result" where
  "AppendNewClusterStackResource env plan =
     (case GetStackTemplate env of
        Inl e \<Rightarrow>
          \<lparr>changed = False, returnedError = Some (Wrapf ''error getting stack template'' e),
           updateStackCalls = []\<rparr>
      | Inr currentTemplate \<Rightarrow>
          if \<not> IsObject (gjson_Get currentTemplate resourcesRootPath) \<or>
             \<not> IsObject (gjson_Get currentTemplate outputsRootPath)
          then \<lparr>changed = False, returnedError = Some UnexpectedCurrentFormat, updateStackCalls = []\<rparr>
          else
     (case importServiceRoleARN env of
        Some e \<Rightarrow> \<lparr>changed = False, returnedError = Some e, updateStackCalls = []\<rparr>
      | None \<Rightarrow>
     (case newStackAddAllResources env of
        Some e \<Rightarrow> \<lparr>changed = False, returnedError = Some e, updateStackCalls = []\<rparr>
      | None \<Rightarrow>
     (case RenderJSON env of
        Inl e \<Rightarrow>
          \<lparr>changed = False, returnedError = Some (Wrapf ''rendering template'' e), updateStackCalls = []\<rparr>
      | Inr newTemplate \<Rightarrow>
          if \<not> IsObject (gjson_Get newTemplate resourcesRootPath) \<or>
             \<not> IsObject (gjson_Get newTemplate outputsRootPath) \<or>
             \<not> IsObject (gjson_Get newTemplate mappingsRootPath)
          then \<lparr>changed = False, returnedError = Some UnexpectedNewFormat, updateStackCalls = []\<rparr>
          else
     (case mergeTemplates (encodeValue env) currentTemplate newTemplate of
        Inl e \<Rightarrow> \<lparr>changed = False, returnedError = Some e, updateStackCalls = []\<rparr>
      | Inr (merged, addResources, addOutputs, addMappings) \<Rightarrow>
          if addResources = [] \<and> addOutputs = [] \<and> addMappings = []
          then \<lparr>changed = False, returnedError = None, updateStackCalls = []\<rparr>
          else if plan then \<lparr>changed = True, returnedError = None, updateStackCalls = []\<rparr>
          else \<lparr>changed = True, returnedError = UpdateStack env, updateStackCalls = [merged]\<rparr>)))))"

section \<open>Task trees (pkg/utils/tasks) and the deletion tasks of the stack manager\<close>

text \<open>
  The node group stacks that \<^verbatim>\<open>ListNodeGroupStacks\<close> returns.
\<close>

datatype NodeGroupType = NodeGroupTypeManaged | NodeGroupTypeUnmanaged | NodeGroupTypeUnowned

record NodeGroupStack =
  NodeGroupName :: string
  Type :: NodeGroupType

text \<open>
  A task is what it does when it runs: the deletion of the stack of a node group (with the
  \<^verbatim>\<open>wait\<close> flag it was built with; a task built with \<^verbatim>\<open>wait = true\<close> returns no error
  only once the stack has reached DELETE_COMPLETE), the deletion of an unowned node group
  through the EKS API (followed by its wait condition), or another task of the stack
  manager, known by its description.
\<close>

datatype task =
    DeleteNodeGroupStackTask string bool
  | DeleteUnownedNodeGroupTask string
  | StackManagerTask string

record TaskTree =
  Tasks :: "task list"
  Parallel :: bool
  PlanMode :: bool
  IsSubTask :: bool

text \<open>Modelled from the spec: \<^verbatim>\<open>TaskTree.Append\<close> of the tasks package, which is outside
  the sources at hand: it adds a child to the tree (a sub-tree is held here by its tasks).\<close>

definition Append :: "TaskTree \<Rightarrow> task list \<Rightarrow> TaskTree" where
  "Append tree ts = tree\<lparr>Tasks := Tasks tree @ ts\<rparr>"

text \<open>Modelled from the spec: \<^verbatim>\<open>TaskTree.Len\<close> of the tasks package, which is outside the
  sources at hand: the number of tasks, an empty sub-tree counting for nothing.\<close>

definition Len :: "TaskTree \<Rightarrow> nat" where
  "Len tree = length (Tasks tree)"

text \<open>Modelled from the spec: \<^verbatim>\<open>NewTasksToDeleteNodeGroups\<close> of the stack manager, which is
  outside the sources at hand: one deletion task for each node group stack that the filter
  accepts, built with the given \<^verbatim>\<open>wait\<close> flag, in a parallel tree.\<close>

definition NewTasksToDeleteNodeGroups ::
  "NodeGroupStack list \<Rightarrow> (string \<Rightarrow> bool) \<Rightarrow> bool \<Rightarrow> TaskTree" where
  "NewTasksToDeleteNodeGroups stacks shouldDelete wait =
     \<lparr>Tasks = map (\<lambda>s. DeleteNodeGroupStackTask (NodeGroupName s) wait)
                (filter (\<lambda>s. shouldDelete (NodeGroupName s)) stacks),
      Parallel = True, PlanMode = False, IsSubTask = False\<rparr>"

text \<open>Modelled from the spec: \<^verbatim>\<open>NewTaskToDeleteUnownedNodeGroup\<close> of the stack manager,
  which is outside the sources at hand: the task that deletes one node group through the
  API and waits on the polling condition.\<close>

definition NewTaskToDeleteUnownedNodeGroup :: "string \<Rightarrow> task" where
  "NewTaskToDeleteUnownedNodeGroup nodegroup = DeleteUnownedNodeGroupTask nodegroup"

text \<open>Modelled from the spec: the other task builders of the stack manager
  (\<^verbatim>\<open>DeleteTasksForDeprecatedStacks\<close>, \<^verbatim>\<open>NewTasksToDeleteOIDCProviderWithIAMServiceAccounts\<close>,
  \<^verbatim>\<open>NewTaskToDeleteAddonIAM\<close>), which are outside the sources at hand: each returns a tree
  of tasks, known here by their descriptions.\<close>

definition stackManagerTasks :: "string list \<Rightarrow> TaskTree" where
  "stackManagerTasks descriptions =
     \<lparr>Tasks = map StackManagerTask descriptions,
      Parallel = True, PlanMode = False, IsSubTask = False\<rparr>"

section \<open>Cluster deletion (pkg/actions/cluster/delete.go and unowned.go)\<close>

text \<open>
  The calls that the deletion makes to its collaborators. A run is modelled by the list of
  these calls in the order they are made, each with the error it returned, and by the error
  the function returns. \<^verbatim>\<open>LogWarning\<close> is the warning logged when \<^verbatim>\<open>force\<close> lets the
  sequence go on after an error.
\<close>

datatype action =
    CallDescribeCluster
  | CallCanOperate
  | CallListNodeGroupStacks
  | CallNewClientSet
  | CallDrain "string list"
  | CallDeleteAddon string
  | CallDeleteDaemonSet string string
  | CallListProfiles
  | CallDeleteProfile string bool
  | CallGetFargateStack
  | CallDeleteStackBySpec
  | CallDeleteTasksForDeprecatedStacks
  | RunTask task
  | CallDeleteKeys
  | CallMaybeDeleteConfig
  | CallElbCleanup
  | CallListNodegroups
  | CallNewTasksToDeleteNodeGroups
  | CallNewOpenIDConnectManager
  | CallNewTasksToDeleteOIDCProviderWithIAMServiceAccounts
  | CallNewTaskToDeleteAddonIAM bool
  | CallDeleteCluster
  | CallWaitClusterDeleted
  | CallDescribeStacks
  | LogWarning

type_synonym event = "action \<times> error option"

type_synonym outcome = "event list \<times> error option"

text \<open>What the collaborators answer during one run of \<^verbatim>\<open>Delete\<close>. The two calls of
  \<^verbatim>\<open>GetFargateStack\<close> and of \<^verbatim>\<open>DeleteStackBySpec\<close> (in \<^verbatim>\<open>deleteFargateProfiles\<close> and in
  \<^verbatim>\<open>deleteFargateRoleIfExists\<close>) have an answer each.\<close>

record delete_env =
  describeClusterResult :: "error option"
  canOperateResult :: "bool \<times> error option"
  listNodeGroupStacksResult :: "error + NodeGroupStack list"
  newClientSetResult :: "error option"
  drainResult :: "error option"
  deleteAddonResult :: "error option"
  deleteDaemonSetResult :: "error option"
  listProfilesResult :: "error + string list"
  isUnauthorizedError :: "error \<Rightarrow> bool"
  deleteProfileResult :: "string \<Rightarrow> error option"
  profilesFargateStackResult :: "error + Stack option"
  profilesDeleteStackResult :: "error option"
  deprecatedStacksResult :: "error + string list"
  elbCleanupResult :: "error option"
  roleFargateStackResult :: "error + Stack option"
  roleDeleteStackResult :: "error option"
  listNodegroupsResult :: "error + string list"
  newTasksToDeleteNodeGroupsResult :: "error option"
  runTaskResult :: "task \<Rightarrow> error option"
  newOpenIDConnectManagerResult :: "error option"
  oidcTasksResult :: "error + string list"
  addonIAMTasksResult :: "error + string list"
  deleteClusterResult :: "error option"
  waitClusterDeletedResult :: "error option"
  describeStacksResult :: "error + Stack list"

text \<open>One call, and the sequencing of Go's \<^verbatim>\<open>if err := f(); err != nil { return err }\<close>:
  the second part runs only when the first returned no error.\<close>

definition call :: "action \<Rightarrow> error option \<Rightarrow> outcome" where
  "call a r = ([(a, r)], r)"

definition andThen :: "outcome \<Rightarrow> outcome \<Rightarrow> outcome" where
  "andThen first rest =
     (case first of
        (tr, Some e) \<Rightarrow> (tr, Some e)
      | (tr, None) \<Rightarrow> (tr @ fst rest, snd rest))"

text \<open>The block of \<^verbatim>\<open>Delete\<close> around a step whose error \<^verbatim>\<open>force\<close> downgrades:
  \<^verbatim>\<open>if err != nil { if force { logger.Warning(...) } else { return err } }\<close>.\<close>

definition unlessForce :: "bool \<Rightarrow> outcome \<Rightarrow> outcome" where
  "unlessForce force step =
     (case step of
        (tr, Some e) \<Rightarrow> if force then (tr @ [(LogWarning, Some e)], None) else (tr, Some e)
      | (tr, None) \<Rightarrow> (tr, None))"

text \<open>Modelled from the spec: \<^verbatim>\<open>TaskTree.DoAllSync\<close> of the tasks package, which is outside
  the sources at hand: it runs the tree to completion, going on past a failing task, and
  returns the list of failures; in plan mode it runs nothing.\<close>

definition DoAllSync :: "delete_env \<Rightarrow> TaskTree \<Rightarrow> event list \<times> error list" where
  "DoAllSync env tree =
     (if PlanMode tree then ([], [])
      else (map (\<lambda>t. (RunTask t, runTaskResult env t)) (Tasks tree),
            List.map_filter (runTaskResult env) (Tasks tree)))"

definition handleErrors :: "error list \<Rightarrow> string \<Rightarrow> error" where
  "handleErrors errs subject = FailedToDelete subject"

definition ErrCodeResourceNotFoundException :: string where
  "ErrCodeResourceNotFoundException = ''ResourceNotFoundException''"

definition isNotFound :: "error \<Rightarrow> bool" where
  "isNotFound e = (case e of AwsErr code \<Rightarrow> code = ErrCodeResourceNotFoundException | _ \<Rightarrow> False)"

definition checkClusterExists :: "delete_env \<Rightarrow> string \<Rightarrow> outcome" where
  "checkClusterExists env clusterName =
     (case describeClusterResult env of
        None \<Rightarrow> ([(CallDescribeCluster, None)], None)
      | Some e \<Rightarrow>
          ([(CallDescribeCluster, Some e)],
           Some (if isNotFound e then ClusterNotFound clusterName
                 else Wrapf ''error describing cluster'' e)))"

text \<open>\<^verbatim>\<open>attemptVpcCniDeletion\<close> only logs the errors of its two calls.\<close>

definition attemptVpcCniDeletion :: "delete_env \<Rightarrow> event list" where
  "attemptVpcCniDeletion env =
     [(CallDeleteAddon ''vpc-cni'', deleteAddonResult env),
      (CallDeleteDaemonSet ''kube-system'' ''aws-node'', deleteDaemonSetResult env)]"

definition drainAllNodeGroups :: "delete_env \<Rightarrow> NodeGroupStack list \<Rightarrow> outcome" where
  "drainAllNodeGroups env allStacks =
     (if allStacks = [] then ([], None)
      else
        let nodeGroups = map NodeGroupName (filter (\<lambda>s. Type s = NodeGroupTypeUnmanaged) allStacks)
        in (case drainResult env of
              Some e \<Rightarrow> ([(CallDrain nodeGroups, Some e)], Some e)
            | None \<Rightarrow> ((CallDrain nodeGroups, None) # attemptVpcCniDeletion env, None)))"

fun deleteProfiles :: "delete_env \<Rightarrow> string list \<Rightarrow> outcome" where
  "deleteProfiles env [] = ([], None)"
| "deleteProfiles env (profileName # profileNames) =
     andThen (call (CallDeleteProfile profileName True) (deleteProfileResult env profileName))
       (deleteProfiles env profileNames)"

definition deleteFargateProfiles :: "delete_env \<Rightarrow> outcome" where
  "deleteFargateProfiles env =
     (case listProfilesResult env of
        Inl e \<Rightarrow>
          if isUnauthorizedError env e then ([(CallListProfiles, Some e)], None)
          else ([(CallListProfiles, Some e)], Some e)
      | Inr profileNames \<Rightarrow>
          andThen (call CallListProfiles None)
         (andThen (deleteProfiles env profileNames)
            (case profilesFargateStackResult env of
               Inl e \<Rightarrow> call CallGetFargateStack (Some e)
             | Inr None \<Rightarrow> call CallGetFargateStack None
             | Inr (Some stack) \<Rightarrow>
                 andThen (call CallGetFargateStack None)
                   (call CallDeleteStackBySpec (profilesDeleteStackResult env)))))"

text \<open>\<^verbatim>\<open>deleteDeprecatedStacks\<close> returns the flag \<^verbatim>\<open>hasDeprecatedStacks\<close> with its error.\<close>

definition deleteDeprecatedStacks :: "delete_env \<Rightarrow> event list \<times> bool \<times> error option" where
  "deleteDeprecatedStacks env =
     (case deprecatedStacksResult env of
        Inl e \<Rightarrow> ([(CallDeleteTasksForDeprecatedStacks, Some e)], True, Some e)
      | Inr descriptions \<Rightarrow>
          let tasks = stackManagerTasks descriptions in
          if Len tasks > 0 then
            (case DoAllSync env tasks of (tr, errs) \<Rightarrow>
               if length errs > 0
               then ((CallDeleteTasksForDeprecatedStacks, None) # tr, True,
                     Some (handleErrors errs ''deprecated stacks''))
               else ((CallDeleteTasksForDeprecatedStacks, None) # tr, True, None))
          else ([(CallDeleteTasksForDeprecatedStacks, None)], False, None))"

definition deleteSharedResources :: "delete_env \<Rightarrow> bool \<Rightarrow> outcome" where
  "deleteSharedResources env clusterOperable =
     andThen (if clusterOperable then deleteFargateProfiles env else ([], None))
       (case deleteDeprecatedStacks env of (tr, hasDeprecatedStacks, err) \<Rightarrow>
          if hasDeprecatedStacks then (tr, err)
          else
            andThen (tr, None)
           (andThen (call CallDeleteKeys None)
           (andThen (call CallMaybeDeleteConfig None)
              (if clusterOperable then call CallElbCleanup (elbCleanupResult env)
               else ([], None)))))"

definition deleteFargateRoleIfExists :: "delete_env \<Rightarrow> outcome" where
  "deleteFargateRoleIfExists env =
     (case roleFargateStackResult env of
        Inl e \<Rightarrow> call CallGetFargateStack (Some e)
      | Inr None \<Rightarrow> call CallGetFargateStack None
      | Inr (Some stack) \<Rightarrow>
          andThen (call CallGetFargateStack None)
            (call CallDeleteStackBySpec (roleDeleteStackResult env)))"

text \<open>The closure \<^verbatim>\<open>isUnowned\<close> and the loop over the remote node groups in
  \<^verbatim>\<open>deleteAndWaitForNodegroupsDeletion\<close>.\<close>

fun isUnowned :: "NodeGroupStack list \<Rightarrow> string \<Rightarrow> bool" where
  "isUnowned [] n = True"
| "isUnowned (stack # stacks) n =
     (if NodeGroupName stack = n then False else isUnowned stacks n)"

fun appendUnowned :: "NodeGroupStack list \<Rightarrow> string list \<Rightarrow> TaskTree \<Rightarrow> TaskTree" where
  "appendUnowned allStacks [] tasks = tasks"
| "appendUnowned allStacks (n # ns) tasks =
     appendUnowned allStacks ns
       (if isUnowned allStacks n then Append tasks [NewTaskToDeleteUnownedNodeGroup n]
        else tasks)"

text \<open>The deletion plan of \<^verbatim>\<open>deleteAndWaitForNodegroupsDeletion\<close>: the tasks for the
  stacks, built with \<^verbatim>\<open>wait = true\<close> whatever the caller's flag, then one task for every
  unowned node group, and plan mode switched off.\<close>

definition nodegroupDeletionTasks :: "NodeGroupStack list \<Rightarrow> string list \<Rightarrow> TaskTree" where
  "nodegroupDeletionTasks allStacks nodeGroups =
     (appendUnowned allStacks nodeGroups
        (NewTasksToDeleteNodeGroups allStacks (\<lambda>_. True) True))\<lparr>PlanMode := False\<rparr>"

definition deleteAndWaitForNodegroupsDeletion :: "delete_env \<Rightarrow> NodeGroupStack list \<Rightarrow> outcome" where
  "deleteAndWaitForNodegroupsDeletion env allStacks =
     (case listNodegroupsResult env of
        Inl e \<Rightarrow> call CallListNodegroups (Some e)
      | Inr nodeGroups \<Rightarrow>
          andThen (call CallListNodegroups None)
            (if length allStacks = 0 \<and> length nodeGroups = 0 then ([], None)
             else
               andThen (call CallNewTasksToDeleteNodeGroups (newTasksToDeleteNodeGroupsResult env))
                 (case DoAllSync env (nodegroupDeletionTasks allStacks nodeGroups) of
                    (tr, errs) \<Rightarrow>
                      if length errs > 0 then (tr, Some (handleErrors errs ''nodegroup(s)''))
                      else (tr, None))))"

text \<open>\<^verbatim>\<open>deleteIAMAndOIDC\<close>. An \<^verbatim>\<open>UnsupportedOIDCError\<close> of \<^verbatim>\<open>NewOpenIDConnectManager\<close> is
  not returned; it switches the service account and OIDC tasks off.\<close>

definition deleteIAMAndOIDC :: "delete_env \<Rightarrow> bool \<Rightarrow> bool \<Rightarrow> outcome" where
  "deleteIAMAndOIDC env wait clusterOperable =
     (let oidc =
        (if clusterOperable then
           (case newOpenIDConnectManagerResult env of
              None \<Rightarrow> ([(CallNewOpenIDConnectManager, None)], None, True)
            | Some e \<Rightarrow>
                if e = UnsupportedOIDCError
                then ([(CallNewOpenIDConnectManager, Some e)], None, False)
                else ([(CallNewOpenIDConnectManager, Some e)], Some e, True))
         else ([], None, True))
      in case oidc of (tr0, err0, oidcSupported) \<Rightarrow>
        andThen (tr0, err0)
          (let tasksTree = \<lparr>Tasks = [], Parallel = False, PlanMode = False, IsSubTask = False\<rparr>;
               sa =
                 (if clusterOperable \<and> oidcSupported then
                    (case oidcTasksResult env of
                       Inl e \<Rightarrow>
                         ([(CallNewTasksToDeleteOIDCProviderWithIAMServiceAccounts, Some e)],
                          Some e, tasksTree)
                     | Inr descriptions \<Rightarrow>
                         ([(CallNewTasksToDeleteOIDCProviderWithIAMServiceAccounts, None)], None,
                          if Len (stackManagerTasks descriptions) > 0
                          then Append tasksTree (Tasks (stackManagerTasks descriptions))
                          else tasksTree))
                  else ([], None, tasksTree))
           in case sa of (tr1, err1, tasksTree1) \<Rightarrow>
             andThen (tr1, err1)
               (case addonIAMTasksResult env of
                  Inl e \<Rightarrow> call (CallNewTaskToDeleteAddonIAM wait) (Some e)
                | Inr descriptions \<Rightarrow>
                    andThen (call (CallNewTaskToDeleteAddonIAM wait) None)
                      (let tasksTree2 =
                         (if Len (stackManagerTasks descriptions) > 0
                          then Append tasksTree1 (Tasks (stackManagerTasks descriptions))
                          else tasksTree1)
                       in if Len tasksTree2 = 0 then ([], None)
                          else (case DoAllSync env tasksTree2 of (tr, errs) \<Rightarrow>
                                  if length errs > 0
                                  then (tr, Some (handleErrors errs ''cluster IAM and OIDC''))
                                  else (tr, None))))))"

definition deleteCluster :: "delete_env \<Rightarrow> bool \<Rightarrow> outcome" where
  "deleteCluster env wait =
     andThen (call CallDeleteCluster (deleteClusterResult env))
       (if \<not> wait then ([], None)
        else call CallWaitClusterDeleted (waitClusterDeletedResult env))"

definition checkForUndeletedStacks :: "delete_env \<Rightarrow> outcome" where
  "checkForUndeletedStacks env =
     (case describeStacksResult env of
        Inl e \<Rightarrow> call CallDescribeStacks (Some e)
      | Inr stacks \<Rightarrow>
          let undeletedStacks =
            map StackName (filter (\<lambda>s. StackStatus s \<noteq> StackStatusDeleteInProgress) stacks)
          in if length undeletedStacks > 0 then ([(CallDescribeStacks, None)], Some UndeletedStacks)
             else ([(CallDescribeStacks, None)], None))"

text \<open>\<^verbatim>\<open>UnownedCluster.Delete\<close>. The error of \<^verbatim>\<open>CanOperate\<close> is only logged. The node group
  step gets neither \<^verbatim>\<open>wait\<close> nor \<^verbatim>\<open>force\<close>.\<close>

definition Delete :: "delete_env \<Rightarrow> string \<Rightarrow> bool \<Rightarrow> bool \<Rightarrow> outcome" where
  "Delete env clusterName wait force =
     andThen (checkClusterExists env clusterName)
       (let clusterOperable = fst (canOperateResult env) in
        andThen ([(CallCanOperate, snd (canOperateResult env))], None)
          (case listNodeGroupStacksResult env of
             Inl e \<Rightarrow> call CallListNodeGroupStacks (Some e)
           | Inr allStacks \<Rightarrow>
               andThen (call CallListNodeGroupStacks None)
              (andThen
                 (if clusterOperable then
                    andThen (call CallNewClientSet (newClientSetResult env))
                      (unlessForce force (drainAllNodeGroups env allStacks))
                  else ([], None))
              (andThen (unlessForce force (deleteSharedResources env clusterOperable))
              (andThen (deleteFargateRoleIfExists env)
              (andThen (deleteAndWaitForNodegroupsDeletion env allStacks)
              (andThen (unlessForce force (deleteIAMAndOIDC env wait clusterOperable))
              (andThen (deleteCluster env wait)
                 (checkForUndeletedStacks env)))))))))"

text \<open>
  The deletion sequence as a list of steps, the way the specification words it (its section
  4.4), each step with what becomes of its failure. The steps run in order. The failure of
  a fatal step aborts the sequence. The failure of a downgradable step aborts it too,
  except that \<^verbatim>\<open>force\<close> turns it into a logged warning, after which the sequence goes on.
  The failure of a step that is only logged never aborts the sequence, whatever \<^verbatim>\<open>force\<close>
  is. This definition follows the specification; it is compared with \<^verbatim>\<open>Delete\<close>, which
  follows the source.
\<close>

datatype step_kind = Fatal | Downgradable | LoggedOnly

fun runSteps :: "bool \<Rightarrow> (step_kind \<times> outcome) list \<Rightarrow> outcome" where
  "runSteps force [] = ([], None)"
| "runSteps force ((kind, (tr, None)) # steps) =
     (tr @ fst (runSteps force steps), snd (runSteps force steps))"
| "runSteps force ((kind, (tr, Some e)) # steps) =
     (if kind = LoggedOnly
      then (tr @ fst (runSteps force steps), snd (runSteps force steps))
      else if kind = Downgradable \<and> force
      then (tr @ (LogWarning, Some e) # fst (runSteps force steps), snd (runSteps force steps))
      else (tr, Some e))"

section \<open>Legacy cluster-stack detection\<close>

lemma TrimSuffix_append: "TrimSuffix (s @ p) p = s"
  by (simp add: TrimSuffix_def HasSuffix_def suffix_def)

lemma legacy_name_not_cluster:
  "\<not> HasSuffix (''EKS-'' @ n @ ''-ControlPlane'') ''-cluster''"
proof
  assume "HasSuffix (''EKS-'' @ n @ ''-ControlPlane'') ''-cluster''"
  then obtain zs where "''EKS-'' @ n @ ''-ControlPlane'' = zs @ ''-cluster''"
    by (auto simp: HasSuffix_def suffix_def)
  then have "last ((''EKS-'' @ n) @ ''-ControlPlane'') = last (zs @ ''-cluster'')"
    by simp
  moreover have "last ((''EKS-'' @ n) @ ''-ControlPlane'') = CHR ''e''"
    by (subst last_appendR) simp_all
  moreover have "last (zs @ ''-cluster'') = CHR ''r''"
    by (subst last_appendR) simp_all
  ultimately show False by simp
qed

lemma getClusterName_legacy:
  "getClusterName a \<lparr>StackName = ''EKS-'' @ n @ ''-ControlPlane'', StackStatus = st, Tags = ts\<rparr>
     = (if n = [] then [] else ''EKS-'')"
proof -
  let ?s = "''EKS-'' @ n @ ''-ControlPlane''"
  have 1: "\<not> HasSuffix ?s ''-cluster''" by (rule legacy_name_not_cluster)
  have 2: "HasPrefix ?s ''EKS-''" by (simp add: HasPrefix_def)
  have 3: "HasSuffix ?s ''-ControlPlane''" by (simp add: HasSuffix_def suffix_def)
  have 4: "TrimSuffix ?s ''-ControlPlane'' = ''EKS-'' @ n"
    using TrimSuffix_append [of "''EKS-'' @ n" "''-ControlPlane''"] by simp
  have 5: "TrimPrefix ''EKS-'' (''EKS-'' @ n) = (if n = [] then [] else ''EKS-'')"
    by (auto simp: TrimPrefix_def HasPrefix_def prefix_def)
  show ?thesis
    unfolding getClusterName_def using 1 2 3 4 5 by (simp add: Let_def)
qed

text \<open>\<^verbatim>\<open>DescribeClusterStack\<close> still picks a legacy stack with a non-empty cluster name, since
  the name \<^verbatim>\<open>getClusterName\<close> derives, though wrong, is not empty.\<close>

lemma DescribeClusterStack_legacy:
  assumes "n \<noteq> []" and "st \<noteq> StackStatusDeleteComplete"
  shows "DescribeClusterStack a
      (Inr [\<lparr>StackName = ''EKS-'' @ n @ ''-ControlPlane'', StackStatus = st, Tags = ts\<rparr>])
    = Inr (Some \<lparr>StackName = ''EKS-'' @ n @ ''-ControlPlane'', StackStatus = st, Tags = ts\<rparr>)"
  using assms getClusterName_legacy [of a n st ts]
  by (simp add: DescribeClusterStack_def)

text \<open>
  Claim C8. A stack without ownership tags whose name follows the legacy convention
  \<^verbatim>\<open>EKS-<name>-ControlPlane\<close> should yield the embedded cluster name. At the stack name
  \<^verbatim>\<open>EKS-foo-ControlPlane\<close> the source returns \<^verbatim>\<open>EKS-\<close>, not \<^verbatim>\<open>foo\<close>: the two arguments of
  \<^verbatim>\<open>strings.TrimPrefix\<close> are swapped.
\<close>

theorem getClusterName_legacy_foo:
  "getClusterName a \<lparr>StackName = ''EKS-foo-ControlPlane'', StackStatus = ''CREATE_COMPLETE'',
      Tags = []\<rparr> = ''EKS-''"
  using getClusterName_legacy [of a "''foo''" "''CREATE_COMPLETE''" "[]"] by simp

section \<open>Capacity bounds of a node group\<close>

lemma ensureMinSize_cases:
  "ensureMinSize a spec = (spec', r) \<Longrightarrow>
     MaxSize spec' = MaxSize spec \<and> DesiredCapacity spec' = DesiredCapacity spec \<and>
     MinSize spec' =
       (case MinSize spec of
          None \<Rightarrow> (case DesiredCapacity spec of
                     None \<Rightarrow> Some (DefaultNodeCount a) | Some d \<Rightarrow> Some d)
        | Some m \<Rightarrow> Some m) \<and>
     r = (case (MinSize spec, DesiredCapacity spec) of
            (Some m, Some d) \<Rightarrow> if d < m then Some (NodesLowerThanMin d m) else None
          | _ \<Rightarrow> None)"
  by (auto simp: ensureMinSize_def split: option.splits if_splits)

lemma ensureMaxSize_cases:
  "ensureMaxSize spec = (spec', r) \<Longrightarrow> MinSize spec = Some m \<Longrightarrow>
     MinSize spec' = MinSize spec \<and> DesiredCapacity spec' = DesiredCapacity spec \<and>
     MaxSize spec' =
       (case MaxSize spec of
          None \<Rightarrow> (case DesiredCapacity spec of None \<Rightarrow> MinSize spec | Some d \<Rightarrow> Some d)
        | Some mx \<Rightarrow> Some mx) \<and>
     r = (case MaxSize spec of
            None \<Rightarrow> None
          | Some mx \<Rightarrow>
              (case DesiredCapacity spec of
                 Some d \<Rightarrow>
                   if mx < d then Some (NodesGreaterThanMax d mx)
                   else if mx < m then Some (MinGreaterThanMax m mx) else None
               | None \<Rightarrow> if mx < m then Some (MinGreaterThanMax m mx) else None))"
  by (auto simp: ensureMaxSize_def split: option.splits if_splits)

lemma ensureMinSize_sets: "ensureMinSize a spec = (spec', r) \<Longrightarrow> \<exists>m. MinSize spec' = Some m"
  by (auto simp: ensureMinSize_def split: option.splits if_splits)

lemma AddAllResources_sizes:
  assumes "\<not> IPv6Enabled env" and "AddAllResources env a meta spec = (spec', res)"
  shows "DesiredCapacity spec' = DesiredCapacity spec"
    and "MinSize spec' =
           (case MinSize spec of
              None \<Rightarrow> (case DesiredCapacity spec of
                         None \<Rightarrow> Some (DefaultNodeCount a) | Some d \<Rightarrow> Some d)
            | Some m \<Rightarrow> Some m)"
    and "\<And>d m. DesiredCapacity spec = Some d \<Longrightarrow> MinSize spec = Some m \<Longrightarrow> d < m \<Longrightarrow>
           res = Inl (NodesLowerThanMin d m) \<and> MaxSize spec' = MaxSize spec"
    and "\<not> (\<exists>d m. DesiredCapacity spec = Some d \<and> MinSize spec = Some m \<and> d < m) \<Longrightarrow>
           MaxSize spec' =
             (case MaxSize spec of
                None \<Rightarrow> (case DesiredCapacity spec of None \<Rightarrow> MinSize spec' | Some d \<Rightarrow> Some d)
              | Some mx \<Rightarrow> Some mx)"
    and "\<And>d mx. DesiredCapacity spec = Some d \<Longrightarrow> MaxSize spec = Some mx \<Longrightarrow> mx < d \<Longrightarrow>
           \<not> (\<exists>m. MinSize spec = Some m \<and> d < m) \<Longrightarrow> res = Inl (NodesGreaterThanMax d mx)"
    and "\<And>m mx. MinSize spec = Some m \<Longrightarrow> MaxSize spec = Some mx \<Longrightarrow> mx < m \<Longrightarrow>
           DesiredCapacity spec = None \<Longrightarrow> res = Inl (MinGreaterThanMax m mx)"
proof -
  define spec1 where "spec1 = spec\<lparr>SpecTags := MetaTags meta ++ SpecTags spec\<rparr>"
  obtain spec2 r2 where m: "ensureMinSize a spec1 = (spec2, r2)"
    by (cases "ensureMinSize a spec1")
  obtain spec3 r3 where x: "ensureMaxSize spec2 = (spec3, r3)"
    by (cases "ensureMaxSize spec2")
  from ensureMinSize_sets [OF m] obtain m2 where m2: "MinSize spec2 = Some m2"
    by blast
  note M = ensureMinSize_cases [OF m] and X = ensureMaxSize_cases [OF x m2]
  have s1: "MinSize spec1 = MinSize spec" "MaxSize spec1 = MaxSize spec"
    "DesiredCapacity spec1 = DesiredCapacity spec"
    by (simp_all add: spec1_def)
  have r: "(spec', res) =
      (case r2 of
         Some e \<Rightarrow> (spec2, Inl e)
       | None \<Rightarrow>
           (case r3 of
              Some e \<Rightarrow> (spec3, Inl e)
            | None \<Rightarrow>
                (case addResourcesForIAM env of
                   Some e \<Rightarrow> (spec3, Inl e)
                 | None \<Rightarrow> (spec3, addResourcesForNodeGroup env meta spec3))))"
    using assms m x by (simp add: AddAllResources_def Let_def spec1_def [symmetric])
  show "DesiredCapacity spec' = DesiredCapacity spec"
    using r M X s1 by (auto split: option.splits)
  show "MinSize spec' =
           (case MinSize spec of
              None \<Rightarrow> (case DesiredCapacity spec of
                         None \<Rightarrow> Some (DefaultNodeCount a) | Some d \<Rightarrow> Some d)
            | Some m \<Rightarrow> Some m)"
    using r M X s1 by (auto split: option.splits)
  show "\<And>d m. DesiredCapacity spec = Some d \<Longrightarrow> MinSize spec = Some m \<Longrightarrow> d < m \<Longrightarrow>
           res = Inl (NodesLowerThanMin d m) \<and> MaxSize spec' = MaxSize spec"
    using r M s1 by (auto split: option.splits)
  show "\<not> (\<exists>d m. DesiredCapacity spec = Some d \<and> MinSize spec = Some m \<and> d < m) \<Longrightarrow>
           MaxSize spec' =
             (case MaxSize spec of
                None \<Rightarrow> (case DesiredCapacity spec of None \<Rightarrow> MinSize spec' | Some d \<Rightarrow> Some d)
              | Some mx \<Rightarrow> Some mx)"
    using r M X s1 m2 by (auto split: option.splits if_splits)
  show "\<And>d mx. DesiredCapacity spec = Some d \<Longrightarrow> MaxSize spec = Some mx \<Longrightarrow> mx < d \<Longrightarrow>
           \<not> (\<exists>m. MinSize spec = Some m \<and> d < m) \<Longrightarrow> res = Inl (NodesGreaterThanMax d mx)"
    using r M X s1 m2 by (auto split: option.splits if_splits)
  show "\<And>m mx. MinSize spec = Some m \<Longrightarrow> MaxSize spec = Some mx \<Longrightarrow> mx < m \<Longrightarrow>
           DesiredCapacity spec = None \<Longrightarrow> res = Inl (MinGreaterThanMax m mx)"
    using r M X s1 m2 by (auto split: option.splits if_splits)
qed

text \<open>
  Claim C3. On a cluster without IPv6, \<^verbatim>\<open>AddAllResources\<close> defaults and validates the
  capacity bounds in this order. An unset minimum becomes the desired capacity, or the
  default node count when that is unset too. Unless the minimum check has already failed,
  an unset maximum becomes the desired capacity, or the minimum when the desired capacity is
  unset. A desired capacity below an explicit minimum, a desired capacity above an explicit
  maximum and an explicit maximum below an explicit minimum each make the call fail, with an
  error that carries the two conflicting values. Values that were set explicitly are never
  changed (nothing is clamped).
\<close>

theorem AddAllResources_capacity:
  assumes "\<not> IPv6Enabled env" and "AddAllResources env a meta spec = (spec', res)"
  shows
    "(MinSize spec = None \<longrightarrow>
        MinSize spec' =
          Some (case DesiredCapacity spec of None \<Rightarrow> DefaultNodeCount a | Some d \<Rightarrow> d)) \<and>
     (MaxSize spec = None \<and>
        \<not> (\<exists>d m. DesiredCapacity spec = Some d \<and> MinSize spec = Some m \<and> d < m) \<longrightarrow>
        MaxSize spec' = (case DesiredCapacity spec of None \<Rightarrow> MinSize spec' | Some d \<Rightarrow> Some d)) \<and>
     (\<forall>d m. DesiredCapacity spec = Some d \<and> MinSize spec = Some m \<and> d < m \<longrightarrow>
        res = Inl (NodesLowerThanMin d m)) \<and>
     (\<forall>d mx. DesiredCapacity spec = Some d \<and> MaxSize spec = Some mx \<and> mx < d \<longrightarrow>
        res = Inl (NodesGreaterThanMax d mx) \<or>
        (\<exists>m. MinSize spec = Some m \<and> d < m \<and> res = Inl (NodesLowerThanMin d m))) \<and>
     (\<forall>m mx. MinSize spec = Some m \<and> MaxSize spec = Some mx \<and> mx < m \<longrightarrow>
        (DesiredCapacity spec = None \<and> res = Inl (MinGreaterThanMax m mx)) \<or>
        (\<exists>d. DesiredCapacity spec = Some d \<and>
           (if d < m then res = Inl (NodesLowerThanMin d m)
            else res = Inl (NodesGreaterThanMax d mx)))) \<and>
     (MinSize spec \<noteq> None \<longrightarrow> MinSize spec' = MinSize spec) \<and>
     (MaxSize spec \<noteq> None \<longrightarrow> MaxSize spec' = MaxSize spec) \<and>
     DesiredCapacity spec' = DesiredCapacity spec"
proof -
  note S = AddAllResources_sizes [OF assms]
  have c1: "MinSize spec = None \<longrightarrow>
        MinSize spec' =
          Some (case DesiredCapacity spec of None \<Rightarrow> DefaultNodeCount a | Some d \<Rightarrow> d)"
    using S(2) by (simp split: option.splits)
  have c2: "MaxSize spec = None \<and>
        \<not> (\<exists>d m. DesiredCapacity spec = Some d \<and> MinSize spec = Some m \<and> d < m) \<longrightarrow>
        MaxSize spec' = (case DesiredCapacity spec of None \<Rightarrow> MinSize spec' | Some d \<Rightarrow> Some d)"
    using S(4) by (simp split: option.splits)
  have c3: "\<forall>d m. DesiredCapacity spec = Some d \<and> MinSize spec = Some m \<and> d < m \<longrightarrow>
        res = Inl (NodesLowerThanMin d m)"
    using S(3) by blast
  have c4: "\<forall>d mx. DesiredCapacity spec = Some d \<and> MaxSize spec = Some mx \<and> mx < d \<longrightarrow>
        res = Inl (NodesGreaterThanMax d mx) \<or>
        (\<exists>m. MinSize spec = Some m \<and> d < m \<and> res = Inl (NodesLowerThanMin d m))"
    using S(3) S(5) by blast
  have c5: "\<forall>m mx. MinSize spec = Some m \<and> MaxSize spec = Some mx \<and> mx < m \<longrightarrow>
        (DesiredCapacity spec = None \<and> res = Inl (MinGreaterThanMax m mx)) \<or>
        (\<exists>d. DesiredCapacity spec = Some d \<and>
           (if d < m then res = Inl (NodesLowerThanMin d m)
            else res = Inl (NodesGreaterThanMax d mx)))"
  proof (intro allI impI)
    fix m mx
    assume h: "MinSize spec = Some m \<and> MaxSize spec = Some mx \<and> mx < m"
    show "(DesiredCapacity spec = None \<and> res = Inl (MinGreaterThanMax m mx)) \<or>
        (\<exists>d. DesiredCapacity spec = Some d \<and>
           (if d < m then res = Inl (NodesLowerThanMin d m)
            else res = Inl (NodesGreaterThanMax d mx)))"
    proof (cases "DesiredCapacity spec")
      case None
      with h S(6) show ?thesis by simp
    next
      case (Some d)
      show ?thesis
      proof (cases "d < m")
        case True
        with h Some S(3) show ?thesis by simp
      next
        case False
        with h have "mx < d" by simp
        moreover from False h have "\<not> (\<exists>m'. MinSize spec = Some m' \<and> d < m')" by simp
        ultimately have "res = Inl (NodesGreaterThanMax d mx)"
          using S(5) [of d mx] Some h by simp
        with Some False show ?thesis by simp
      qed
    qed
  qed
  have c6: "MinSize spec \<noteq> None \<longrightarrow> MinSize spec' = MinSize spec"
    using S(2) by (auto split: option.splits)
  have c7: "MaxSize spec \<noteq> None \<longrightarrow> MaxSize spec' = MaxSize spec"
  proof (cases "\<exists>d m. DesiredCapacity spec = Some d \<and> MinSize spec = Some m \<and> d < m")
    case True
    then show ?thesis using S(3) by blast
  next
    case False
    then show ?thesis using S(4) by (auto split: option.splits)
  qed
  from c1 c2 c3 c4 c5 c6 c7 S(1) show ?thesis by blast
qed

text \<open>The two examples of the specification: a desired capacity of 5 alone gives a minimum
  and a maximum of 5; a desired capacity of 5 with a minimum of 10 fails, and the error
  names 5 and 10.\<close>

theorem AddAllResources_capacity_witness:
  "MinSize (fst (AddAllResources
      \<lparr>IPv6Enabled = False, addResourcesForIAM = None, newLaunchTemplateData = None,
       AssignSubnets = None\<rparr>
      \<lparr>ClusterNameTag = ''alpha.eksctl.io/cluster-name'',
       OldClusterNameTag = ''eksctl.cluster.k8s.io/v1alpha1/cluster-name'', DefaultNodeCount = 2\<rparr>
      \<lparr>ClusterName = ''c'', MetaTags = Map.empty\<rparr>
      \<lparr>Name = ''ng'', InstancePrefix = '''', InstanceName = '''', MinSize = None, MaxSize = None,
       DesiredCapacity = Some 5, SpecTags = Map.empty, Labels = [], Taints = [],
       PropagateASGTags = None, AutoScaler = None\<rparr>)) = Some 5 \<and>
   MaxSize (fst (AddAllResources
      \<lparr>IPv6Enabled = False, addResourcesForIAM = None, newLaunchTemplateData = None,
       AssignSubnets = None\<rparr>
      \<lparr>ClusterNameTag = ''alpha.eksctl.io/cluster-name'',
       OldClusterNameTag = ''eksctl.cluster.k8s.io/v1alpha1/cluster-name'', DefaultNodeCount = 2\<rparr>
      \<lparr>ClusterName = ''c'', MetaTags = Map.empty\<rparr>
      \<lparr>Name = ''ng'', InstancePrefix = '''', InstanceName = '''', MinSize = None, MaxSize = None,
       DesiredCapacity = Some 5, SpecTags = Map.empty, Labels = [], Taints = [],
       PropagateASGTags = None, AutoScaler = None\<rparr>)) = Some 5 \<and>
   snd (AddAllResources
      \<lparr>IPv6Enabled = False, addResourcesForIAM = None, newLaunchTemplateData = None,
       AssignSubnets = None\<rparr>
      \<lparr>ClusterNameTag = ''alpha.eksctl.io/cluster-name'',
       OldClusterNameTag = ''eksctl.cluster.k8s.io/v1alpha1/cluster-name'', DefaultNodeCount = 2\<rparr>
      \<lparr>ClusterName = ''c'', MetaTags = Map.empty\<rparr>
      \<lparr>Name = ''ng'', InstancePrefix = '''', InstanceName = '''', MinSize = Some 10,
       MaxSize = None, DesiredCapacity = Some 5, SpecTags = Map.empty, Labels = [], Taints = [],
       PropagateASGTags = None, AutoScaler = None\<rparr>) = Inl (NodesLowerThanMin 5 10)"
proof -
  let ?env = "\<lparr>IPv6Enabled = False, addResourcesForIAM = None, newLaunchTemplateData = None,
       AssignSubnets = None\<rparr>"
  let ?a = "\<lparr>ClusterNameTag = ''alpha.eksctl.io/cluster-name'',
       OldClusterNameTag = ''eksctl.cluster.k8s.io/v1alpha1/cluster-name'', DefaultNodeCount = 2\<rparr>"
  let ?meta = "\<lparr>ClusterName = ''c'', MetaTags = Map.empty\<rparr>"
  let ?s5 = "\<lparr>Name = ''ng'', InstancePrefix = '''', InstanceName = '''', MinSize = None,
       MaxSize = None, DesiredCapacity = Some 5, SpecTags = Map.empty, Labels = [], Taints = [],
       PropagateASGTags = None, AutoScaler = None\<rparr>"
  let ?s510 = "\<lparr>Name = ''ng'', InstancePrefix = '''', InstanceName = '''', MinSize = Some 10,
       MaxSize = None, DesiredCapacity = Some 5, SpecTags = Map.empty, Labels = [], Taints = [],
       PropagateASGTags = None, AutoScaler = None\<rparr>"
  have e: "\<not> IPv6Enabled ?env" by simp
  have p5: "AddAllResources ?env ?a ?meta ?s5 =
      (fst (AddAllResources ?env ?a ?meta ?s5), snd (AddAllResources ?env ?a ?meta ?s5))"
    by simp
  have p510: "AddAllResources ?env ?a ?meta ?s510 =
      (fst (AddAllResources ?env ?a ?meta ?s510), snd (AddAllResources ?env ?a ?meta ?s510))"
    by simp
  from AddAllResources_capacity [OF e p5]
  have "MinSize (fst (AddAllResources ?env ?a ?meta ?s5)) = Some 5"
    and "MaxSize (fst (AddAllResources ?env ?a ?meta ?s5)) = Some 5"
    by simp_all
  moreover from AddAllResources_capacity [OF e p510]
  have "snd (AddAllResources ?env ?a ?meta ?s510) = Inl (NodesLowerThanMin 5 10)"
    by simp
  ultimately show ?thesis by simp
qed

section \<open>The cap on the tags of an autoscaling group\<close>

lemma labels_loop_result:
  "labels_loop (d, r) ls =
     (fold (\<lambda>(k, v) m. m(k \<mapsto> v)) ls d,
      r @ map (\<lambda>(k, v). mkTag (''k8s.io/cluster-autoscaler/node-template/label/'' @ k) v) ls)"
  by (induction ls arbitrary: d r) auto

lemma taints_loop_length:
  "taints_loop (d, r) ts = Inr r' \<Longrightarrow> length r' = length r + length ts"
  by (induction ts arbitrary: d r) (auto split: option.splits)

lemma generateClusterAutoscalerTags_length:
  "generateClusterAutoscalerTags spec = Inr clusterTags \<Longrightarrow>
   length clusterTags = length (Labels spec) + length (Taints spec)"
  unfolding generateClusterAutoscalerTags_def labels_loop_result
  by (auto dest!: taints_loop_length)

lemma length_baseTags:
  "length (baseTags meta spec) = (if IsEnabled (AutoScaler spec) then 4 else 2)"
  by (simp add: baseTags_def)

text \<open>
  Claim C7. With \<^verbatim>\<open>PropagateASGTags\<close> enabled, and the launch template, the subnets and
  the generation of the propagation tags (one per label and one per taint) succeeding:
  when the fixed tags and the propagation tags together are more than 50,
  \<^verbatim>\<open>addResourcesForNodeGroup\<close> fails with an error that carries the cap 50, the number of
  tags counted and the number of propagation tags; otherwise the autoscaling group gets
  every one of these tags, the list is not cut.
\<close>

theorem tag_cap_enforced:
  assumes "newLaunchTemplateData env = None" and "AssignSubnets env = None"
    and "IsEnabled (PropagateASGTags spec)"
    and "generateClusterAutoscalerTags spec = Inr clusterTags"
  shows "length clusterTags = length (Labels spec) + length (Taints spec) \<and>
    (if 50 < length (baseTags meta spec) + length clusterTags
     then addResourcesForNodeGroup env meta spec =
            Inl (TooManyTags 50 (length (baseTags meta spec) + length clusterTags)
                   (length clusterTags))
     else addResourcesForNodeGroup env meta spec =
            Inr (nodeGroupResource (baseTags meta spec @ clusterTags) spec))"
  using assms generateClusterAutoscalerTags_length [OF assms(4)]
  by (simp add: addResourcesForNodeGroup_def MaximumTagNumber_def)

text \<open>A node group with 49 labels and no taint: 2 fixed tags and 49 propagation tags.\<close>

theorem tag_cap_enforced_witness:
  "addResourcesForNodeGroup
      \<lparr>IPv6Enabled = False, addResourcesForIAM = None, newLaunchTemplateData = None,
       AssignSubnets = None\<rparr>
      \<lparr>ClusterName = ''c'', MetaTags = Map.empty\<rparr>
      \<lparr>Name = ''ng'', InstancePrefix = '''', InstanceName = '''', MinSize = Some 1,
       MaxSize = Some 1, DesiredCapacity = Some 1, SpecTags = Map.empty,
       Labels = map (\<lambda>n. (replicate n (CHR ''l''), ''v'')) [0..<49], Taints = [],
       PropagateASGTags = Some True, AutoScaler = None\<rparr>
    = Inl (TooManyTags 50 51 49)"
proof -
  let ?env = "\<lparr>IPv6Enabled = False, addResourcesForIAM = None, newLaunchTemplateData = None,
       AssignSubnets = None\<rparr>"
  let ?meta = "\<lparr>ClusterName = ''c'', MetaTags = Map.empty\<rparr>"
  let ?ls = "map (\<lambda>n. (replicate n (CHR ''l''), ''v'')) [0..<49]"
  let ?spec = "\<lparr>Name = ''ng'', InstancePrefix = '''', InstanceName = '''', MinSize = Some 1,
       MaxSize = Some 1, DesiredCapacity = Some 1, SpecTags = Map.empty,
       Labels = ?ls, Taints = [], PropagateASGTags = Some True, AutoScaler = None\<rparr>"
  let ?ct = "map (\<lambda>(k, v). mkTag (''k8s.io/cluster-autoscaler/node-template/label/'' @ k) v) ?ls"
  have h1: "newLaunchTemplateData ?env = None" and h2: "AssignSubnets ?env = None"
    by simp_all
  have h3: "IsEnabled (PropagateASGTags ?spec)"
    by (simp add: IsEnabled_def)
  have h4: "generateClusterAutoscalerTags ?spec = Inr ?ct"
    by (simp add: generateClusterAutoscalerTags_def labels_loop_result)
  have l: "length ?ct = 49" by simp
  have b: "length (baseTags ?meta ?spec) = 2"
    by (simp add: length_baseTags IsEnabled_def)
  from tag_cap_enforced [OF h1 h2 h3 h4, of ?meta] show ?thesis
    unfolding l b by simp
qed


section \<open>The additive merge of templates\<close>

lemma map_of_setMember:
  "map_of (setMember members k v) k' = (if k' = k then Some v else map_of members k')"
  by (induction members k v rule: setMember.induct) auto

lemma setMember_absent:
  "map_of members k = None \<Longrightarrow> setMember (members @ rest) k v = members @ setMember rest k v"
  by (induction members) (auto split: if_splits)

lemma setMember_new: "map_of members k = None \<Longrightarrow> setMember members k v = members @ [(k, v)]"
  using setMember_absent [of members k "[]" v] by simp

lemma keys_setMember: "fst ` set (setMember members k v) = insert k (fst ` set members)"
  by (induction members k v rule: setMember.induct) auto

lemma IsObject_iff: "IsObject r \<longleftrightarrow> (\<exists>members. r = Some (JObject members))"
  by (auto simp: IsObject_def split: option.splits json.splits)

lemma membersOf_Exists: "k \<in> fst ` set (membersOf r) \<Longrightarrow> Exists (result_Get r k)"
  by (cases r; cases "the r")
     (auto simp: Exists_def result_Get_def gjson_Get_def membersOf_def map_of_eq_None_iff)

lemma Exists_object:
  "Exists (result_Get (Some (JObject members)) k) \<longleftrightarrow> k \<in> fst ` set members"
  by (simp add: Exists_def result_Get_def gjson_Get_def map_of_eq_None_iff)

lemma result_Get_object: "result_Get (Some (JObject members)) k = map_of members k"
  by (simp add: result_Get_def gjson_Get_def)

lemma result_Get_array:
  "result_Get (Some (JArray elems)) k = Some v \<longleftrightarrow>
   (\<exists>n. parseUint k = Some n \<and> 0 \<le> n \<and> n < int (length elems) \<and> elems ! nat n = v)"
  by (auto simp: result_Get_def gjson_Get_def split: option.splits)

lemma parseUint_atoui: "parseUint k = Some n \<Longrightarrow> atoui k = Some n \<and> n = digitsValue k"
  by (auto simp: parseUint_def atoui_def split: if_splits)

text \<open>One write in a section that is an object, and in one that is an array.\<close>

lemma appendRawPaths_object:
  "appendRawPaths (JObject members) [k] raw = Inr (JObject (setMember members k raw))"
proof (cases "map_of members k")
  case None
  then show ?thesis by (simp add: gjson_Get_def setMember_new)
next
  case (Some v)
  then show ?thesis by (simp add: gjson_Get_def)
qed

lemma appendRawPaths_array:
  assumes "appendRawPaths (JArray (base @ added)) [k] raw = Inr s"
    and "\<not> Exists (result_Get (Some (JArray base)) k)"
  shows "\<exists>added'. s = JArray (base @ added')"
proof (cases "gjson_Get (JArray (base @ added)) k")
  case (Some res)
  then obtain n where n: "parseUint k = Some n" "0 \<le> n" "n < int (length (base @ added))"
    by (auto simp: gjson_Get_def split: option.splits if_splits)
  from parseUint_atoui [OF n(1)] have d: "digitsValue k = n" by simp
  from assms(2) n have "\<not> n < int (length base)"
    by (auto simp: Exists_def result_Get_def gjson_Get_def)
  with n(2) have "\<not> nat n < length base" by linarith
  then have "(base @ added)[nat n := raw] = base @ added[nat n - length base := raw]"
    by (simp add: list_update_append)
  with assms(1) Some d show ?thesis by auto
next
  case None
  with assms(1) show ?thesis
    by (auto split: option.splits if_splits)
qed

lemma appendRawPaths_plain:
  assumes "atoui k = None" and "\<forall>elems. sec \<noteq> JArray elems"
  shows "\<exists>members. appendRawPaths sec [k] raw = Inr (JObject members)"
proof (cases "\<exists>members. sec = JObject members")
  case True
  then obtain members where "sec = JObject members" by blast
  then show ?thesis using appendRawPaths_object [of members k raw] by blast
next
  case False
  with assms have "appendRawPaths sec [k] raw = Inr (JObject [(k, raw)])"
    by (cases sec) (simp_all add: gjson_Get_def)
  then show ?thesis by simp
qed

text \<open>One write in a template that is an object: the template stays an object, the other
  sections are as before, and the section written is built anew when the template did not
  have it and rewritten by \<^verbatim>\<open>appendRawPaths\<close> when it had.\<close>

lemma sjson_Set_top:
  "sjson_Set (JObject ms0) [root, k] raw =
     (case map_of ms0 root of
        None \<Rightarrow> Inr (JObject (ms0 @ [(root, appendBuild [k] raw)]))
      | Some sec \<Rightarrow>
          (case appendRawPaths sec [k] raw of
             Inl e \<Rightarrow> Inl e
           | Inr sec' \<Rightarrow> Inr (JObject (setMember ms0 root sec'))))"
proof -
  have "appendRawPaths (JObject ms0) (root # [k]) raw =
     (case map_of ms0 root of
        None \<Rightarrow> Inr (JObject (ms0 @ [(root, appendBuild [k] raw)]))
      | Some sec \<Rightarrow>
          (case appendRawPaths sec [k] raw of
             Inl e \<Rightarrow> Inl e
           | Inr sec' \<Rightarrow> Inr (JObject (setMember ms0 root sec'))))"
    by (subst appendRawPaths.simps(2)) (simp add: gjson_Get_def split: option.splits sum.splits)
  then show ?thesis by (simp add: sjson_Set_def)
qed

lemma appendBuild_plain:
  "atoui k = None \<Longrightarrow> k \<noteq> ''-1'' \<Longrightarrow> appendBuild [k] raw = JObject [(k, raw)]"
  by simp

declare appendRawPaths.simps [simp del] appendBuild.simps [simp del]

lemma sjson_Set_other:
  assumes "sjson_Set t [root, k] raw = Inr t'" and "IsObject (Some t)"
  shows "IsObject (Some t') \<and> (root' \<noteq> root \<longrightarrow> gjson_Get t' root' = gjson_Get t root')"
proof -
  from assms(2) obtain ms0 where t: "t = JObject ms0" by (auto simp: IsObject_iff)
  from assms(1) show ?thesis
    unfolding t sjson_Set_top
    by (auto simp: IsObject_iff gjson_Get_def map_of_setMember map_add_def
        split: option.splits sum.splits)
qed

lemma sjson_Set_same:
  assumes "sjson_Set t [root, k] raw = Inr t'" and "IsObject (Some t)"
  shows "(gjson_Get t root = None \<and> gjson_Get t' root = Some (appendBuild [k] raw)) \<or>
     (\<exists>sec sec'. gjson_Get t root = Some sec \<and> appendRawPaths sec [k] raw = Inr sec' \<and>
        gjson_Get t' root = Some sec')"
proof -
  from assms(2) obtain ms0 where t: "t = JObject ms0" by (auto simp: IsObject_iff)
  from assms(1) show ?thesis
    unfolding t sjson_Set_top
    by (auto simp: gjson_Get_def map_of_setMember map_add_def split: option.splits sum.splits)
qed

text \<open>One iteration over a section of the new template.\<close>

lemma iterFunc_write:
  assumes "\<not> Exists (result_Get cs k)" and "iterFunc enc root cs (k, v) (l, t) = Inr st"
  obtains raw t1 where "enc v = Inr raw" and "sjson_Set t [root, k] raw = Inr t1"
    and "st = (l @ [k], t1)"
  using assms by (auto split: sum.splits)

lemma ForEach_Cons:
  assumes "ForEach (kv # kvs) f st = Inr st'"
  obtains st1 where "f kv st = Inr st1" and "ForEach kvs f st1 = Inr st'"
  using assms by (auto split: sum.splits)

lemma ForEach_iterFunc_other:
  assumes "ForEach kvs (iterFunc enc root cs) (l, t) = Inr (l', t')" and "IsObject (Some t)"
  shows "IsObject (Some t') \<and> (root' \<noteq> root \<longrightarrow> gjson_Get t' root' = gjson_Get t root')"
  using assms
proof (induction kvs arbitrary: l t)
  case Nil
  then show ?case by simp
next
  case (Cons kv kvs)
  obtain k v where kv: "kv = (k, v)" by (cases kv)
  from Cons.prems(1) obtain st1 where
    s: "iterFunc enc root cs (k, v) (l, t) = Inr st1" and
    r: "ForEach kvs (iterFunc enc root cs) st1 = Inr (l', t')"
    unfolding kv by (rule ForEach_Cons)
  show ?case
  proof (cases "Exists (result_Get cs k)")
    case True
    with s have "st1 = (l, t)" by simp
    with r Cons.IH Cons.prems(2) show ?thesis by blast
  next
    case False
    from False s obtain raw t1 where
      w: "sjson_Set t [root, k] raw = Inr t1" and st1: "st1 = (l @ [k], t1)"
      by (rule iterFunc_write)
    from sjson_Set_other [OF w Cons.prems(2), of root'] Cons.IH [OF r [unfolded st1]]
    show ?thesis by auto
  qed
qed

lemma ForEach_iterFunc_added:
  "ForEach kvs (iterFunc enc root cs) (l, t) = Inr (l', t') \<Longrightarrow>
   l' = l @ filter (\<lambda>k. \<not> Exists (result_Get cs k)) (map fst kvs)"
proof (induction kvs arbitrary: l t)
  case Nil
  then show ?case by simp
next
  case (Cons kv kvs)
  obtain k v where kv: "kv = (k, v)" by (cases kv)
  from Cons.prems(1) obtain st1 where
    s: "iterFunc enc root cs (k, v) (l, t) = Inr st1" and
    r: "ForEach kvs (iterFunc enc root cs) st1 = Inr (l', t')"
    unfolding kv by (rule ForEach_Cons)
  show ?case
  proof (cases "Exists (result_Get cs k)")
    case True
    with s have "st1 = (l, t)" by simp
    with r Cons.IH True kv show ?thesis by simp
  next
    case False
    from False s obtain raw t1 where st1: "st1 = (l @ [k], t1)"
      by (rule iterFunc_write)
    from Cons.IH [OF r [unfolded st1]] False kv show ?thesis by simp
  qed
qed

text \<open>A section that the deployed template has as an object: its members stay in place,
  before the members added, whose names are the names of the new section that the deployed
  section does not have.\<close>

lemma ForEach_iterFunc_object:
  assumes "ForEach kvs (iterFunc enc root (Some (JObject ms))) (l, t) = Inr (l', t')"
    and "IsObject (Some t)"
    and "gjson_Get t root = Some (JObject (ms @ added))"
  shows "\<exists>added'. gjson_Get t' root = Some (JObject (ms @ added')) \<and>
           fst ` set added' = fst ` set added \<union> {k \<in> fst ` set kvs. k \<notin> fst ` set ms}"
  using assms
proof (induction kvs arbitrary: l t added)
  case Nil
  then show ?case by simp
next
  case (Cons kv kvs)
  let ?cs = "Some (JObject ms)"
  obtain k v where kv: "kv = (k, v)" by (cases kv)
  from Cons.prems(1) obtain st1 where
    s: "iterFunc enc root ?cs (k, v) (l, t) = Inr st1" and
    r: "ForEach kvs (iterFunc enc root ?cs) st1 = Inr (l', t')"
    unfolding kv by (rule ForEach_Cons)
  show ?case
  proof (cases "Exists (result_Get ?cs k)")
    case True
    with s have st1: "st1 = (l, t)" by simp
    from True have "k \<in> fst ` set ms" by (simp add: Exists_object)
    with kv have "{k \<in> fst ` set (kv # kvs). k \<notin> fst ` set ms} =
        {k \<in> fst ` set kvs. k \<notin> fst ` set ms}" by auto
    with Cons.IH [OF r [unfolded st1] Cons.prems(2,3)] show ?thesis by simp
  next
    case False
    then have nk: "k \<notin> fst ` set ms" by (simp add: Exists_object)
    then have mk: "map_of ms k = None" by (simp add: map_of_eq_None_iff)
    from False s obtain raw t1 where
      w: "sjson_Set t [root, k] raw = Inr t1" and st1: "st1 = (l @ [k], t1)"
      by (rule iterFunc_write)
    from sjson_Set_same [OF w Cons.prems(2)] Cons.prems(3)
    have "gjson_Get t1 root = Some (JObject (setMember (ms @ added) k raw))"
      by (auto simp: appendRawPaths_object simp del: appendRawPaths.simps)
    then have g: "gjson_Get t1 root = Some (JObject (ms @ setMember added k raw))"
      by (simp add: setMember_absent [OF mk])
    from sjson_Set_other [OF w Cons.prems(2)] have o: "IsObject (Some t1)" by simp
    from nk kv have "fst ` set (setMember added k raw) \<union> {k \<in> fst ` set kvs. k \<notin> fst ` set ms} =
        fst ` set added \<union> {k \<in> fst ` set (kv # kvs). k \<notin> fst ` set ms}"
      by (auto simp: keys_setMember)
    with Cons.IH [OF r [unfolded st1] o g] show ?thesis by simp
  qed
qed

text \<open>A section that the deployed template has as an array: its elements stay in place,
  before the elements added.\<close>

lemma ForEach_iterFunc_array:
  assumes "ForEach kvs (iterFunc enc root (Some (JArray es))) (l, t) = Inr (l', t')"
    and "IsObject (Some t)"
    and "gjson_Get t root = Some (JArray (es @ added))"
  shows "\<exists>added'. gjson_Get t' root = Some (JArray (es @ added'))"
  using assms
proof (induction kvs arbitrary: l t added)
  case Nil
  then show ?case by simp
next
  case (Cons kv kvs)
  let ?cs = "Some (JArray es)"
  obtain k v where kv: "kv = (k, v)" by (cases kv)
  from Cons.prems(1) obtain st1 where
    s: "iterFunc enc root ?cs (k, v) (l, t) = Inr st1" and
    r: "ForEach kvs (iterFunc enc root ?cs) st1 = Inr (l', t')"
    unfolding kv by (rule ForEach_Cons)
  show ?case
  proof (cases "Exists (result_Get ?cs k)")
    case True
    with s have st1: "st1 = (l, t)" by simp
    from Cons.IH [OF r [unfolded st1] Cons.prems(2,3)] show ?thesis .
  next
    case False
    from False s obtain raw t1 where
      w: "sjson_Set t [root, k] raw = Inr t1" and st1: "st1 = (l @ [k], t1)"
      by (rule iterFunc_write)
    from sjson_Set_same [OF w Cons.prems(2)] Cons.prems(3)
    obtain sec' where a: "appendRawPaths (JArray (es @ added)) [k] raw = Inr sec'"
      and g: "gjson_Get t1 root = Some sec'" by auto
    from appendRawPaths_array [OF a False] obtain added1 where "sec' = JArray (es @ added1)"
      by blast
    with g have g1: "gjson_Get t1 root = Some (JArray (es @ added1))" by simp
    from sjson_Set_other [OF w Cons.prems(2)] have o: "IsObject (Some t1)" by simp
    from Cons.IH [OF r [unfolded st1] o g1] show ?thesis .
  qed
qed

text \<open>An iteration in which every name is one that the deployed section has writes
  nothing.\<close>

lemma ForEach_iterFunc_all_present:
  "\<forall>k. k \<in> fst ` set kvs \<longrightarrow> Exists (result_Get cs k) \<Longrightarrow>
   ForEach kvs (iterFunc enc root cs) (l, t) = Inr (l, t)"
  by (induction kvs) auto

text \<open>An iteration succeeds when the encoder accepts every value and the section is an
  object, or is no array and no name of the new section is a number or \<^verbatim>\<open>-1\<close>.\<close>

lemma ForEach_iterFunc_ok:
  assumes "IsObject (Some t)"
    and "\<forall>v. \<exists>raw. enc v = Inr raw"
    and "IsObject (gjson_Get t root) \<or>
         (\<forall>elems. gjson_Get t root \<noteq> Some (JArray elems)) \<and>
         (\<forall>k. k \<in> fst ` set kvs \<longrightarrow> atoui k = None \<and> k \<noteq> ''-1'')"
  shows "\<exists>l' t'. ForEach kvs (iterFunc enc root cs) (l, t) = Inr (l', t')"
  using assms
proof (induction kvs arbitrary: l t)
  case Nil
  then show ?case by simp
next
  case (Cons kv kvs)
  obtain k v where kv: "kv = (k, v)" by (cases kv)
  show ?case
  proof (cases "Exists (result_Get cs k)")
    case True
    from Cons.prems(3) have "IsObject (gjson_Get t root) \<or>
         (\<forall>elems. gjson_Get t root \<noteq> Some (JArray elems)) \<and>
         (\<forall>k. k \<in> fst ` set kvs \<longrightarrow> atoui k = None \<and> k \<noteq> ''-1'')"
      by auto
    from Cons.IH [OF Cons.prems(1,2) this, of l] True kv show ?thesis by simp
  next
    case False
    from Cons.prems(2) obtain raw where e: "enc v = Inr raw" by blast
    from Cons.prems(1) obtain ms0 where t: "t = JObject ms0" by (auto simp: IsObject_iff)
    have "\<exists>t1. sjson_Set t [root, k] raw = Inr t1 \<and> IsObject (Some t1) \<and>
            IsObject (gjson_Get t1 root)"
    proof (cases "map_of ms0 root")
      case None
      with Cons.prems(3) t kv have p: "atoui k = None" "k \<noteq> ''-1''"
        by (auto simp: IsObject_iff gjson_Get_def)
      from None have "sjson_Set t [root, k] raw =
          Inr (JObject (ms0 @ [(root, JObject [(k, raw)])]))"
        unfolding t sjson_Set_top by (simp add: appendBuild_plain [OF p])
      moreover from None have
        "gjson_Get (JObject (ms0 @ [(root, JObject [(k, raw)])])) root = Some (JObject [(k, raw)])"
        by (simp add: gjson_Get_def map_add_def)
      ultimately show ?thesis by (simp add: IsObject_iff)
    next
      case (Some sec)
      have "\<exists>members. appendRawPaths sec [k] raw = Inr (JObject members)"
      proof (cases "\<exists>members. sec = JObject members")
        case True
        then obtain members where "sec = JObject members" by blast
        then show ?thesis using appendRawPaths_object [of members k raw] by blast
      next
        case False
        with Cons.prems(3) Some t kv have "atoui k = None" and "\<forall>elems. sec \<noteq> JArray elems"
          by (auto simp: IsObject_iff gjson_Get_def)
        then show ?thesis by (rule appendRawPaths_plain)
      qed
      then obtain members where "appendRawPaths sec [k] raw = Inr (JObject members)" by blast
      with Some have "sjson_Set t [root, k] raw = Inr (JObject (setMember ms0 root (JObject members)))"
        unfolding t sjson_Set_top by simp
      moreover have "gjson_Get (JObject (setMember ms0 root (JObject members))) root =
          Some (JObject members)"
        by (simp add: gjson_Get_def map_of_setMember)
      ultimately show ?thesis by (simp add: IsObject_iff)
    qed
    then obtain t1 where w: "sjson_Set t [root, k] raw = Inr t1" and o: "IsObject (Some t1)"
      and g: "IsObject (gjson_Get t1 root)" by blast
    from g have "IsObject (gjson_Get t1 root) \<or>
         (\<forall>elems. gjson_Get t1 root \<noteq> Some (JArray elems)) \<and>
         (\<forall>k. k \<in> fst ` set kvs \<longrightarrow> atoui k = None \<and> k \<noteq> ''-1'')"
      by simp
    from Cons.IH [OF o Cons.prems(2) this, of "l @ [k]"] False kv e w show ?thesis
      by simp
  qed
qed

lemma roots_distinct:
  "resourcesRootPath \<noteq> outputsRootPath" "resourcesRootPath \<noteq> mappingsRootPath"
  "outputsRootPath \<noteq> mappingsRootPath"
  by (simp_all add: resourcesRootPath_def outputsRootPath_def mappingsRootPath_def)

text \<open>The whole merge, section by section.\<close>

lemma mergeTemplates_Inr:
  assumes "mergeTemplates enc cur new = Inr (merged, addR, addO, addM)"
  obtains t1 t2 where
    "ForEach (membersOf (gjson_Get new resourcesRootPath))
       (iterFunc enc resourcesRootPath (gjson_Get cur resourcesRootPath)) ([], cur) = Inr (addR, t1)"
    and "ForEach (membersOf (gjson_Get new outputsRootPath))
       (iterFunc enc outputsRootPath (gjson_Get cur outputsRootPath)) ([], t1) = Inr (addO, t2)"
    and "ForEach (membersOf (gjson_Get new mappingsRootPath))
       (iterFunc enc mappingsRootPath (gjson_Get cur mappingsRootPath)) ([], t2) = Inr (addM, merged)"
  using assms by (auto simp: mergeTemplates_def Let_def split: sum.splits prod.splits)

lemma mergeTemplates_run:
  assumes m: "mergeTemplates enc cur new = Inr (merged, addR, addO, addM)"
    and c: "IsObject (Some cur)"
    and root: "root = resourcesRootPath \<or> root = outputsRootPath \<or> root = mappingsRootPath"
  obtains t l' t' where "IsObject (Some t)" and "gjson_Get t root = gjson_Get cur root"
    and "ForEach (membersOf (gjson_Get new root)) (iterFunc enc root (gjson_Get cur root)) ([], t)
           = Inr (l', t')"
    and "gjson_Get merged root = gjson_Get t' root"
proof -
  from m obtain t1 t2 where
    r: "ForEach (membersOf (gjson_Get new resourcesRootPath))
       (iterFunc enc resourcesRootPath (gjson_Get cur resourcesRootPath)) ([], cur) = Inr (addR, t1)"
    and o: "ForEach (membersOf (gjson_Get new outputsRootPath))
       (iterFunc enc outputsRootPath (gjson_Get cur outputsRootPath)) ([], t1) = Inr (addO, t2)"
    and p: "ForEach (membersOf (gjson_Get new mappingsRootPath))
       (iterFunc enc mappingsRootPath (gjson_Get cur mappingsRootPath)) ([], t2) = Inr (addM, merged)"
    by (rule mergeTemplates_Inr)
  note d = roots_distinct
  note R = ForEach_iterFunc_other [OF r c]
  then have c1: "IsObject (Some t1)" by simp
  note O = ForEach_iterFunc_other [OF o c1]
  then have c2: "IsObject (Some t2)" by simp
  note P = ForEach_iterFunc_other [OF p c2]
  from root show ?thesis
  proof (elim disjE)
    assume e: "root = resourcesRootPath"
    have "gjson_Get merged root = gjson_Get t1 root"
      using P [of root] O [of root] d e by simp
    with that [of cur addR t1] c r e show ?thesis by simp
  next
    assume e: "root = outputsRootPath"
    have "gjson_Get merged root = gjson_Get t2 root" and "gjson_Get t1 root = gjson_Get cur root"
      using P [of root] R [of root] d e by simp_all
    with that [of t1 addO t2] c1 o e show ?thesis by simp
  next
    assume e: "root = mappingsRootPath"
    have "gjson_Get t2 root = gjson_Get cur root"
      using O [of root] R [of root] d e by simp
    with that [of t2 addM merged] c2 p e show ?thesis by simp
  qed
qed

lemma mergeTemplates_object:
  assumes m: "mergeTemplates enc cur new = Inr (merged, addR, addO, addM)"
    and c: "IsObject (Some cur)"
    and root: "root = resourcesRootPath \<or> root = outputsRootPath \<or> root = mappingsRootPath"
    and s: "gjson_Get cur root = Some (JObject ms)"
  shows "\<exists>added. gjson_Get merged root = Some (JObject (ms @ added)) \<and>
           fst ` set added = {k \<in> fst ` set (membersOf (gjson_Get new root)). k \<notin> fst ` set ms}"
proof -
  from m c root obtain t l' t' where t: "IsObject (Some t)"
    and g: "gjson_Get t root = gjson_Get cur root"
    and f: "ForEach (membersOf (gjson_Get new root)) (iterFunc enc root (gjson_Get cur root)) ([], t)
           = Inr (l', t')"
    and r: "gjson_Get merged root = gjson_Get t' root"
    by (rule mergeTemplates_run)
  from g s have "gjson_Get t root = Some (JObject (ms @ []))" by simp
  from ForEach_iterFunc_object [OF f [unfolded s] t this] r show ?thesis by simp
qed

lemma mergeTemplates_array:
  assumes m: "mergeTemplates enc cur new = Inr (merged, addR, addO, addM)"
    and c: "IsObject (Some cur)"
    and root: "root = resourcesRootPath \<or> root = outputsRootPath \<or> root = mappingsRootPath"
    and s: "gjson_Get cur root = Some (JArray es)"
  shows "\<exists>added. gjson_Get merged root = Some (JArray (es @ added))"
proof -
  from m c root obtain t l' t' where t: "IsObject (Some t)"
    and g: "gjson_Get t root = gjson_Get cur root"
    and f: "ForEach (membersOf (gjson_Get new root)) (iterFunc enc root (gjson_Get cur root)) ([], t)
           = Inr (l', t')"
    and r: "gjson_Get merged root = gjson_Get t' root"
    by (rule mergeTemplates_run)
  from g s have "gjson_Get t root = Some (JArray (es @ []))" by simp
  from ForEach_iterFunc_array [OF f [unfolded s] t this] r show ?thesis by simp
qed

text \<open>The lists of added names are the names of the new sections that the deployed sections
  do not have, in the order of the new template.\<close>

lemma mergeTemplates_added:
  assumes "mergeTemplates enc cur new = Inr (merged, addR, addO, addM)"
  shows "addR = filter (\<lambda>k. \<not> Exists (result_Get (gjson_Get cur resourcesRootPath) k))
                  (map fst (membersOf (gjson_Get new resourcesRootPath)))"
    and "addO = filter (\<lambda>k. \<not> Exists (result_Get (gjson_Get cur outputsRootPath) k))
                  (map fst (membersOf (gjson_Get new outputsRootPath)))"
    and "addM = filter (\<lambda>k. \<not> Exists (result_Get (gjson_Get cur mappingsRootPath) k))
                  (map fst (membersOf (gjson_Get new mappingsRootPath)))"
proof -
  from assms obtain t1 t2 where
    r: "ForEach (membersOf (gjson_Get new resourcesRootPath))
       (iterFunc enc resourcesRootPath (gjson_Get cur resourcesRootPath)) ([], cur) = Inr (addR, t1)"
    and o: "ForEach (membersOf (gjson_Get new outputsRootPath))
       (iterFunc enc outputsRootPath (gjson_Get cur outputsRootPath)) ([], t1) = Inr (addO, t2)"
    and p: "ForEach (membersOf (gjson_Get new mappingsRootPath))
       (iterFunc enc mappingsRootPath (gjson_Get cur mappingsRootPath)) ([], t2) = Inr (addM, merged)"
    by (rule mergeTemplates_Inr)
  from ForEach_iterFunc_added [OF r] ForEach_iterFunc_added [OF o] ForEach_iterFunc_added [OF p]
  show "addR = filter (\<lambda>k. \<not> Exists (result_Get (gjson_Get cur resourcesRootPath) k))
                  (map fst (membersOf (gjson_Get new resourcesRootPath)))"
    and "addO = filter (\<lambda>k. \<not> Exists (result_Get (gjson_Get cur outputsRootPath) k))
                  (map fst (membersOf (gjson_Get new outputsRootPath)))"
    and "addM = filter (\<lambda>k. \<not> Exists (result_Get (gjson_Get cur mappingsRootPath) k))
                  (map fst (membersOf (gjson_Get new mappingsRootPath)))"
    by simp_all
qed

lemma mergeTemplates_all_present:
  assumes "\<forall>root k. (root = resourcesRootPath \<or> root = outputsRootPath \<or> root = mappingsRootPath) \<and>
             Exists (result_Get (gjson_Get new root) k) \<longrightarrow>
             Exists (result_Get (gjson_Get cur root) k)"
  shows "mergeTemplates enc cur new = Inr (cur, [], [], [])"
proof -
  have "\<And>root. root = resourcesRootPath \<or> root = outputsRootPath \<or> root = mappingsRootPath \<Longrightarrow>
      ForEach (membersOf (gjson_Get new root)) (iterFunc enc root (gjson_Get cur root)) ([], cur)
        = Inr ([], cur)"
    using assms by (intro ForEach_iterFunc_all_present) (blast intro: membersOf_Exists)
  then show ?thesis
    by (simp add: mergeTemplates_def)
qed

lemma IsObject_top:
  "IsObject (gjson_Get t resourcesRootPath) \<Longrightarrow> IsObject (Some t)"
  by (cases t)
     (simp_all add: gjson_Get_def IsObject_def parseUint_def isDigit_def resourcesRootPath_def)

text \<open>The merge succeeds when the encoder accepts every value and the deployed Mappings
  section is an object, or is no array and no name of the new Mappings section is a number
  or \<^verbatim>\<open>-1\<close>.\<close>

lemma mergeTemplates_ok:
  assumes r: "IsObject (gjson_Get cur resourcesRootPath)"
    and o: "IsObject (gjson_Get cur outputsRootPath)"
    and e: "\<forall>v. \<exists>raw. enc v = Inr raw"
    and p: "IsObject (gjson_Get cur mappingsRootPath) \<or>
         (\<forall>elems. gjson_Get cur mappingsRootPath \<noteq> Some (JArray elems)) \<and>
         (\<forall>k. Exists (result_Get (gjson_Get new mappingsRootPath) k) \<longrightarrow>
              atoui k = None \<and> k \<noteq> ''-1'')"
  shows "\<exists>merged addR addO addM. mergeTemplates enc cur new = Inr (merged, addR, addO, addM)"
proof -
  from r have c: "IsObject (Some cur)" by (rule IsObject_top)
  from r have "IsObject (gjson_Get cur resourcesRootPath) \<or>
         (\<forall>elems. gjson_Get cur resourcesRootPath \<noteq> Some (JArray elems)) \<and>
         (\<forall>k. k \<in> fst ` set (membersOf (gjson_Get new resourcesRootPath)) \<longrightarrow>
            atoui k = None \<and> k \<noteq> ''-1'')"
    by simp
  from ForEach_iterFunc_ok [OF c e this] obtain addR t1 where
    1: "ForEach (membersOf (gjson_Get new resourcesRootPath))
          (iterFunc enc resourcesRootPath (gjson_Get cur resourcesRootPath)) ([], cur) = Inr (addR, t1)"
    by blast
  note R = ForEach_iterFunc_other [OF 1 c]
  then have c1: "IsObject (Some t1)" by simp
  from R [of outputsRootPath] o roots_distinct
  have "IsObject (gjson_Get t1 outputsRootPath) \<or>
         (\<forall>elems. gjson_Get t1 outputsRootPath \<noteq> Some (JArray elems)) \<and>
         (\<forall>k. k \<in> fst ` set (membersOf (gjson_Get new outputsRootPath)) \<longrightarrow>
            atoui k = None \<and> k \<noteq> ''-1'')"
    by simp
  from ForEach_iterFunc_ok [OF c1 e this] obtain addO t2 where
    2: "ForEach (membersOf (gjson_Get new outputsRootPath))
          (iterFunc enc outputsRootPath (gjson_Get cur outputsRootPath)) ([], t1) = Inr (addO, t2)"
    by blast
  note O = ForEach_iterFunc_other [OF 2 c1]
  then have c2: "IsObject (Some t2)" by simp
  have g: "gjson_Get t2 mappingsRootPath = gjson_Get cur mappingsRootPath"
    using O [of mappingsRootPath] R [of mappingsRootPath] roots_distinct by simp
  have "IsObject (gjson_Get t2 mappingsRootPath) \<or>
         (\<forall>elems. gjson_Get t2 mappingsRootPath \<noteq> Some (JArray elems)) \<and>
         (\<forall>k. k \<in> fst ` set (membersOf (gjson_Get new mappingsRootPath)) \<longrightarrow>
            atoui k = None \<and> k \<noteq> ''-1'')"
  proof (cases "IsObject (gjson_Get cur mappingsRootPath)")
    case True
    then show ?thesis unfolding g by simp
  next
    case False
    with p have a: "\<forall>elems. gjson_Get cur mappingsRootPath \<noteq> Some (JArray elems)"
      and b: "\<And>k. Exists (result_Get (gjson_Get new mappingsRootPath) k) \<Longrightarrow>
              atoui k = None \<and> k \<noteq> ''-1''"
      by simp_all
    have "atoui k = None \<and> k \<noteq> ''-1''"
      if "k \<in> fst ` set (membersOf (gjson_Get new mappingsRootPath))" for k
      using that by (intro b membersOf_Exists)
    with a show ?thesis unfolding g by simp
  qed
  from ForEach_iterFunc_ok [OF c2 e this] obtain addM t3 where
    3: "ForEach (membersOf (gjson_Get new mappingsRootPath))
          (iterFunc enc mappingsRootPath (gjson_Get cur mappingsRootPath)) ([], t2) = Inr (addM, t3)"
    by blast
  from 1 2 3 show ?thesis
    by (simp add: mergeTemplates_def)
qed

lemma filter_absent_nonempty:
  assumes "IsObject r"
  shows "filter (\<lambda>k. \<not> Exists (result_Get cs k)) (map fst (membersOf r)) \<noteq> [] \<longleftrightarrow>
   (\<exists>k. Exists (result_Get r k) \<and> \<not> Exists (result_Get cs k))"
proof -
  from assms obtain ms where r: "r = Some (JObject ms)" by (auto simp: IsObject_iff)
  have "(filter (\<lambda>k. \<not> Exists (result_Get cs k)) (map fst ms) \<noteq> []) =
      (\<exists>k. k \<in> fst ` set ms \<and> \<not> Exists (result_Get cs k))"
    by (auto simp: filter_empty_conv)
  then show ?thesis by (simp add: r membersOf_def Exists_object)
qed

lemma sent_template:
  assumes "GetStackTemplate env = Inr currentTemplate" and "RenderJSON env = Inr newTemplate"
    and "merged \<in> set (updateStackCalls (AppendNewClusterStackResource env plan))"
  obtains addR addO addM where
    "mergeTemplates (encodeValue env) currentTemplate newTemplate = Inr (merged, addR, addO, addM)"
    and "IsObject (gjson_Get currentTemplate resourcesRootPath)"
    and "IsObject (gjson_Get currentTemplate outputsRootPath)"
    and "IsObject (gjson_Get newTemplate resourcesRootPath)"
    and "IsObject (gjson_Get newTemplate outputsRootPath)"
    and "IsObject (gjson_Get newTemplate mappingsRootPath)"
  using assms
  by (auto simp: AppendNewClusterStackResource_def split: option.splits sum.splits if_splits)

text \<open>
  Claim C1. The merge of \<^verbatim>\<open>AppendNewClusterStackResource\<close> is not destructive. Whatever the
  deployed template and the newly built template are, in the template of an
  \<^verbatim>\<open>UpdateStack\<close> call, and in each of the sections Resources, Outputs and Mappings: every
  logical name of the deployed section has the value it has in the deployed template, also
  when the new template gives that name another value; a deployed section that is an object
  is sent with its members unchanged and in their order, followed by the members added,
  whose names are exactly the names of the new section that the deployed section does not
  have; and a deployed section that is an array is sent with its elements unchanged and in
  their order, followed by the elements added. (Resources and Outputs are objects whenever a
  template is sent; the deployed Mappings section is not checked by the source.)
\<close>

theorem additive_merge_non_destructive:
  assumes "GetStackTemplate env = Inr currentTemplate" and "RenderJSON env = Inr newTemplate"
    and "merged \<in> set (updateStackCalls (AppendNewClusterStackResource env plan))"
    and "root = resourcesRootPath \<or> root = outputsRootPath \<or> root = mappingsRootPath"
  shows
    "(\<forall>k v. result_Get (gjson_Get currentTemplate root) k = Some v \<longrightarrow>
        result_Get (gjson_Get merged root) k = Some v) \<and>
     (\<forall>members. gjson_Get currentTemplate root = Some (JObject members) \<longrightarrow>
        (\<exists>added. gjson_Get merged root = Some (JObject (members @ added)) \<and>
           fst ` set added =
             {k. Exists (result_Get (gjson_Get newTemplate root) k) \<and>
                 result_Get (gjson_Get currentTemplate root) k = None})) \<and>
     (\<forall>elems. gjson_Get currentTemplate root = Some (JArray elems) \<longrightarrow>
        (\<exists>added. gjson_Get merged root = Some (JArray (elems @ added))))"
proof -
  from assms(1-3) obtain addR addO addM where
    m: "mergeTemplates (encodeValue env) currentTemplate newTemplate = Inr (merged, addR, addO, addM)"
    and r: "IsObject (gjson_Get currentTemplate resourcesRootPath)"
    and n: "IsObject (gjson_Get newTemplate resourcesRootPath)"
      "IsObject (gjson_Get newTemplate outputsRootPath)"
      "IsObject (gjson_Get newTemplate mappingsRootPath)"
    by (rule sent_template)
  from r have c: "IsObject (Some currentTemplate)" by (rule IsObject_top)
  from n assms(4) have nr: "IsObject (gjson_Get newTemplate root)" by blast
  have 2: "\<exists>added. gjson_Get merged root = Some (JObject (members @ added)) \<and>
           fst ` set added =
             {k. Exists (result_Get (gjson_Get newTemplate root) k) \<and>
                 result_Get (gjson_Get currentTemplate root) k = None}"
    if s: "gjson_Get currentTemplate root = Some (JObject members)" for members
  proof -
    from nr obtain ns where ns: "gjson_Get newTemplate root = Some (JObject ns)"
      by (auto simp: IsObject_iff)
    have "{k \<in> fst ` set (membersOf (gjson_Get newTemplate root)). k \<notin> fst ` set members} =
        {k. Exists (result_Get (gjson_Get newTemplate root) k) \<and>
            result_Get (gjson_Get currentTemplate root) k = None}"
      unfolding s ns by (auto simp: Exists_def result_Get_object membersOf_def map_of_eq_None_iff)
    with mergeTemplates_object [OF m c assms(4) s] show ?thesis by simp
  qed
  have 3: "\<exists>added. gjson_Get merged root = Some (JArray (elems @ added))"
    if s: "gjson_Get currentTemplate root = Some (JArray elems)" for elems
    using mergeTemplates_array [OF m c assms(4) s] .
  have 1: "result_Get (gjson_Get merged root) k = Some v"
    if h: "result_Get (gjson_Get currentTemplate root) k = Some v" for k v
  proof (cases "gjson_Get currentTemplate root")
    case None
    with h show ?thesis by (simp add: result_Get_def)
  next
    case (Some sec)
    show ?thesis
    proof (cases sec)
      case (JObject members)
      with Some 2 obtain added where "gjson_Get merged root = Some (JObject (members @ added))"
        by blast
      with h Some JObject show ?thesis
        by (simp add: result_Get_object map_add_def)
    next
      case (JArray elems)
      with Some 3 obtain added where g: "gjson_Get merged root = Some (JArray (elems @ added))"
        by blast
      from h Some JArray obtain n where "parseUint k = Some n" "0 \<le> n" "n < int (length elems)"
        "elems ! nat n = v"
        by (auto simp: result_Get_array)
      then show ?thesis unfolding g result_Get_array
        by (auto simp: nth_append)
    qed (use h Some in \<open>simp_all add: result_Get_def gjson_Get_def\<close>)
  qed
  show ?thesis
    by (intro conjI allI impI) (erule 1, erule 2, erule 3)
qed

text \<open>The deployed template has a resource VPC and no Mappings section; the new template
  gives VPC another value and has a resource Role and a mapping Partition. The template sent
  to \<^verbatim>\<open>UpdateStack\<close> keeps the deployed VPC, gains Role and gains a Mappings section.\<close>

theorem additive_merge_non_destructive_witness:
  "updateStackCalls (AppendNewClusterStackResource
      \<lparr>GetStackTemplate = Inr (JObject
         [(''Resources'', JObject [(''VPC'', JString ''deployed'')]),
          (''Outputs'', JObject [])]),
       importServiceRoleARN = None, newStackAddAllResources = None,
       RenderJSON = Inr (JObject
         [(''Resources'', JObject [(''VPC'', JString ''rebuilt''), (''Role'', JString ''r'')]),
          (''Outputs'', JObject []),
          (''Mappings'', JObject [(''Partition'', JString ''aws'')])]),
       UpdateStack = None, encodeValue = Inr\<rparr> False)
     = [JObject [(''Resources'', JObject [(''VPC'', JString ''deployed''), (''Role'', JString ''r'')]),
          (''Outputs'', JObject []),
          (''Mappings'', JObject [(''Partition'', JString ''aws'')])]] \<and>
   result_Get (gjson_Get
       (JObject [(''Resources'', JObject [(''VPC'', JString ''deployed''), (''Role'', JString ''r'')]),
          (''Outputs'', JObject []),
          (''Mappings'', JObject [(''Partition'', JString ''aws'')])]) resourcesRootPath) ''VPC''
     = Some (JString ''deployed'')"
proof -
  let ?cur = "JObject [(''Resources'', JObject [(''VPC'', JString ''deployed'')]),
          (''Outputs'', JObject [])]"
  let ?new = "JObject
         [(''Resources'', JObject [(''VPC'', JString ''rebuilt''), (''Role'', JString ''r'')]),
          (''Outputs'', JObject []),
          (''Mappings'', JObject [(''Partition'', JString ''aws'')])]"
  let ?env = "\<lparr>GetStackTemplate = Inr ?cur, importServiceRoleARN = None,
       newStackAddAllResources = None, RenderJSON = Inr ?new, UpdateStack = None,
       encodeValue = Inr\<rparr>"
  let ?merged = "JObject [(''Resources'', JObject [(''VPC'', JString ''deployed''), (''Role'', JString ''r'')]),
          (''Outputs'', JObject []),
          (''Mappings'', JObject [(''Partition'', JString ''aws'')])]"
  have calls: "updateStackCalls (AppendNewClusterStackResource ?env False) = [?merged]"
    by (simp add: AppendNewClusterStackResource_def mergeTemplates_def gjson_Get_def
        result_Get_def Exists_def IsObject_def membersOf_def sjson_Set_def
        appendRawPaths.simps appendBuild.simps atoui_def isDigit_def
        resourcesRootPath_def outputsRootPath_def mappingsRootPath_def)
  have h1: "GetStackTemplate ?env = Inr ?cur" and h2: "RenderJSON ?env = Inr ?new"
    by simp_all
  have h3: "?merged \<in> set (updateStackCalls (AppendNewClusterStackResource ?env False))"
    unfolding calls by simp
  have h4: "resourcesRootPath = resourcesRootPath \<or> resourcesRootPath = outputsRootPath \<or>
      resourcesRootPath = mappingsRootPath" by simp
  have c: "result_Get (gjson_Get ?cur resourcesRootPath) ''VPC'' = Some (JString ''deployed'')"
    by (simp add: gjson_Get_def result_Get_def resourcesRootPath_def)
  from additive_merge_non_destructive [OF h1 h2 h3 h4, THEN conjunct1] c
  have "result_Get (gjson_Get ?merged resourcesRootPath) ''VPC'' = Some (JString ''deployed'')"
    by blast
  with calls show ?thesis by simp
qed

text \<open>
  Claim C2. The merge is idempotent. When, in each of the three sections, the deployed
  template has every logical name of the new template, \<^verbatim>\<open>AppendNewClusterStackResource\<close>
  reports \<^verbatim>\<open>changed = false\<close> and issues no \<^verbatim>\<open>UpdateStack\<close> call; and when the steps
  before the merge succeed, it returns no error either.
\<close>

theorem additive_merge_idempotent:
  assumes "GetStackTemplate env = Inr currentTemplate" and "RenderJSON env = Inr newTemplate"
    and "\<forall>root k. (root = resourcesRootPath \<or> root = outputsRootPath \<or> root = mappingsRootPath) \<and>
           Exists (result_Get (gjson_Get newTemplate root) k) \<longrightarrow>
           Exists (result_Get (gjson_Get currentTemplate root) k)"
  shows
    "changed (AppendNewClusterStackResource env plan) = False \<and>
     updateStackCalls (AppendNewClusterStackResource env plan) = [] \<and>
     (IsObject (gjson_Get currentTemplate resourcesRootPath) \<and>
      IsObject (gjson_Get currentTemplate outputsRootPath) \<and>
      importServiceRoleARN env = None \<and> newStackAddAllResources env = None \<and>
      IsObject (gjson_Get newTemplate resourcesRootPath) \<and>
      IsObject (gjson_Get newTemplate outputsRootPath) \<and>
      IsObject (gjson_Get newTemplate mappingsRootPath) \<longrightarrow>
      AppendNewClusterStackResource env plan =
        \<lparr>changed = False, returnedError = None, updateStackCalls = []\<rparr>)"
  using assms(1,2) mergeTemplates_all_present [OF assms(3)]
  by (simp add: AppendNewClusterStackResource_def split: option.splits)

text \<open>The second run of the example above: the deployed template is the one the first run
  sent, the new template is the same.\<close>

theorem additive_merge_idempotent_witness:
  "AppendNewClusterStackResource
      \<lparr>GetStackTemplate = Inr (JObject
         [(''Resources'', JObject [(''VPC'', JString ''deployed''), (''Role'', JString ''r'')]),
          (''Outputs'', JObject []),
          (''Mappings'', JObject [(''Partition'', JString ''aws'')])]),
       importServiceRoleARN = None, newStackAddAllResources = None,
       RenderJSON = Inr (JObject
         [(''Resources'', JObject [(''VPC'', JString ''rebuilt''), (''Role'', JString ''r'')]),
          (''Outputs'', JObject []),
          (''Mappings'', JObject [(''Partition'', JString ''aws'')])]),
       UpdateStack = None, encodeValue = Inr\<rparr> False
     = \<lparr>changed = False, returnedError = None, updateStackCalls = []\<rparr>"
proof -
  let ?cur = "JObject [(''Resources'', JObject [(''VPC'', JString ''deployed''), (''Role'', JString ''r'')]),
          (''Outputs'', JObject []),
          (''Mappings'', JObject [(''Partition'', JString ''aws'')])]"
  let ?new = "JObject
         [(''Resources'', JObject [(''VPC'', JString ''rebuilt''), (''Role'', JString ''r'')]),
          (''Outputs'', JObject []),
          (''Mappings'', JObject [(''Partition'', JString ''aws'')])]"
  let ?env = "\<lparr>GetStackTemplate = Inr ?cur, importServiceRoleARN = None,
       newStackAddAllResources = None, RenderJSON = Inr ?new, UpdateStack = None,
       encodeValue = Inr\<rparr>"
  have h1: "GetStackTemplate ?env = Inr ?cur" and h2: "RenderJSON ?env = Inr ?new"
    by simp_all
  have h3: "\<forall>root k. (root = resourcesRootPath \<or> root = outputsRootPath \<or> root = mappingsRootPath) \<and>
           Exists (result_Get (gjson_Get ?new root) k) \<longrightarrow>
           Exists (result_Get (gjson_Get ?cur root) k)"
    by (auto simp: gjson_Get_def result_Get_def Exists_def
        resourcesRootPath_def outputsRootPath_def mappingsRootPath_def split: if_splits)
  have f: "IsObject (gjson_Get ?cur resourcesRootPath) \<and>
      IsObject (gjson_Get ?cur outputsRootPath) \<and>
      importServiceRoleARN ?env = None \<and> newStackAddAllResources ?env = None \<and>
      IsObject (gjson_Get ?new resourcesRootPath) \<and>
      IsObject (gjson_Get ?new outputsRootPath) \<and>
      IsObject (gjson_Get ?new mappingsRootPath)"
    by (simp add: gjson_Get_def IsObject_def
        resourcesRootPath_def outputsRootPath_def mappingsRootPath_def)
  from additive_merge_idempotent [OF h1 h2 h3, of False] f show ?thesis
    by blast
qed

text \<open>The same for any first run on a deployed template whose Mappings section is an object:
  the template that the run sends to \<^verbatim>\<open>UpdateStack\<close> has every name of the new template,
  so a second run on it with the same new template changes nothing. (A Mappings section
  that the first run had to create, or found as an array, need not have the name under
  which an element was written: an array has no element named \<^verbatim>\<open>-1\<close>.)\<close>

corollary second_run_no_update:
  assumes "GetStackTemplate env = Inr currentTemplate" and "RenderJSON env = Inr newTemplate"
    and "merged \<in> set (updateStackCalls (AppendNewClusterStackResource env False))"
    and "IsObject (gjson_Get currentTemplate mappingsRootPath)"
  shows "changed (AppendNewClusterStackResource (env\<lparr>GetStackTemplate := Inr merged\<rparr>) plan) = False \<and>
     updateStackCalls (AppendNewClusterStackResource (env\<lparr>GetStackTemplate := Inr merged\<rparr>) plan) = []"
proof -
  from assms(1-3) obtain addR addO addM where
    m: "mergeTemplates (encodeValue env) currentTemplate newTemplate = Inr (merged, addR, addO, addM)"
    and r: "IsObject (gjson_Get currentTemplate resourcesRootPath)"
    and o: "IsObject (gjson_Get currentTemplate outputsRootPath)"
    and n: "IsObject (gjson_Get newTemplate resourcesRootPath)"
      "IsObject (gjson_Get newTemplate outputsRootPath)"
      "IsObject (gjson_Get newTemplate mappingsRootPath)"
    by (rule sent_template)
  from r have c: "IsObject (Some currentTemplate)" by (rule IsObject_top)
  have "\<forall>root k. (root = resourcesRootPath \<or> root = outputsRootPath \<or> root = mappingsRootPath) \<and>
           Exists (result_Get (gjson_Get newTemplate root) k) \<longrightarrow>
           Exists (result_Get (gjson_Get merged root) k)"
  proof (intro allI impI)
    fix root k
    assume h: "(root = resourcesRootPath \<or> root = outputsRootPath \<or> root = mappingsRootPath) \<and>
           Exists (result_Get (gjson_Get newTemplate root) k)"
    then have rt: "root = resourcesRootPath \<or> root = outputsRootPath \<or> root = mappingsRootPath"
      and ex: "Exists (result_Get (gjson_Get newTemplate root) k)"
      by simp_all
    from rt r o assms(4) obtain ms where s: "gjson_Get currentTemplate root = Some (JObject ms)"
      by (auto simp: IsObject_iff)
    from rt n obtain ns where ns: "gjson_Get newTemplate root = Some (JObject ns)"
      by (auto simp: IsObject_iff)
    from mergeTemplates_object [OF m c rt s] obtain added where
      g: "gjson_Get merged root = Some (JObject (ms @ added))"
      and a: "fst ` set added =
          {k \<in> fst ` set (membersOf (gjson_Get newTemplate root)). k \<notin> fst ` set ms}"
      by blast
    from ex have "k \<in> fst ` set ns" unfolding ns by (simp add: Exists_object)
    with a have "k \<in> fst ` set ms \<or> k \<in> fst ` set added"
      unfolding ns by (simp add: membersOf_def)
    then show "Exists (result_Get (gjson_Get merged root) k)"
      unfolding g Exists_object by auto
  qed
  from mergeTemplates_all_present [OF this] assms(2) show ?thesis
    by (simp add: AppendNewClusterStackResource_def split: option.splits)
qed

text \<open>
  Claim C9. Plan mode does not mutate. A call with \<^verbatim>\<open>plan = true\<close> issues no
  \<^verbatim>\<open>UpdateStack\<close> call, whatever the collaborators answer. When the steps before the merge
  succeed: if some section of the new template has a name that the deployed section does
  not have, the encoder accepts every value, and the deployed Mappings section is an
  object (or is no array while no name of the new Mappings section is a number or
  \<^verbatim>\<open>-1\<close>), the call returns \<^verbatim>\<open>changed = true\<close> and no error; whenever the merge returns
  its lists of added names and one of them is not empty, the call returns
  \<^verbatim>\<open>changed = true\<close> and no error; and when the merge fails, the call returns
  \<^verbatim>\<open>changed = false\<close> and the error of the merge.
\<close>

theorem plan_mode_never_mutates:
  assumes "GetStackTemplate env = Inr currentTemplate"
    and "IsObject (gjson_Get currentTemplate resourcesRootPath)"
    and "IsObject (gjson_Get currentTemplate outputsRootPath)"
    and "importServiceRoleARN env = None" and "newStackAddAllResources env = None"
    and "RenderJSON env = Inr newTemplate"
    and "IsObject (gjson_Get newTemplate resourcesRootPath)"
    and "IsObject (gjson_Get newTemplate outputsRootPath)"
    and "IsObject (gjson_Get newTemplate mappingsRootPath)"
  shows
    "updateStackCalls (AppendNewClusterStackResource anyEnv True) = [] \<and>
     ((\<exists>root k. (root = resourcesRootPath \<or> root = outputsRootPath \<or> root = mappingsRootPath) \<and>
           Exists (result_Get (gjson_Get newTemplate root) k) \<and>
           \<not> Exists (result_Get (gjson_Get currentTemplate root) k)) \<and>
      (\<forall>v. \<exists>raw. encodeValue env v = Inr raw) \<and>
      (IsObject (gjson_Get currentTemplate mappingsRootPath) \<or>
       (\<forall>elems. gjson_Get currentTemplate mappingsRootPath \<noteq> Some (JArray elems)) \<and>
       (\<forall>k. Exists (result_Get (gjson_Get newTemplate mappingsRootPath) k) \<longrightarrow>
            atoui k = None \<and> k \<noteq> ''-1'')) \<longrightarrow>
      AppendNewClusterStackResource env True =
        \<lparr>changed = True, returnedError = None, updateStackCalls = []\<rparr>) \<and>
     (\<forall>merged addR addO addM.
        mergeTemplates (encodeValue env) currentTemplate newTemplate =
          Inr (merged, addR, addO, addM) \<and>
        (addR \<noteq> [] \<or> addO \<noteq> [] \<or> addM \<noteq> []) \<longrightarrow>
        AppendNewClusterStackResource env True =
          \<lparr>changed = True, returnedError = None, updateStackCalls = []\<rparr>) \<and>
     (\<forall>e. mergeTemplates (encodeValue env) currentTemplate newTemplate = Inl e \<longrightarrow>
        AppendNewClusterStackResource env True =
          \<lparr>changed = False, returnedError = Some e, updateStackCalls = []\<rparr>)"
proof -
  have 1: "updateStackCalls (AppendNewClusterStackResource anyEnv True) = []"
    by (simp add: AppendNewClusterStackResource_def split: option.splits sum.splits prod.splits)
  have 3: "AppendNewClusterStackResource env True =
          \<lparr>changed = True, returnedError = None, updateStackCalls = []\<rparr>"
    if "mergeTemplates (encodeValue env) currentTemplate newTemplate =
          Inr (merged, addR, addO, addM) \<and>
        (addR \<noteq> [] \<or> addO \<noteq> [] \<or> addM \<noteq> [])" for merged addR addO addM
    using that assms by (auto simp: AppendNewClusterStackResource_def)
  have 4: "AppendNewClusterStackResource env True =
          \<lparr>changed = False, returnedError = Some e, updateStackCalls = []\<rparr>"
    if "mergeTemplates (encodeValue env) currentTemplate newTemplate = Inl e" for e
    using that assms by (simp add: AppendNewClusterStackResource_def)
  have 2: "AppendNewClusterStackResource env True =
        \<lparr>changed = True, returnedError = None, updateStackCalls = []\<rparr>"
    if h: "(\<exists>root k. (root = resourcesRootPath \<or> root = outputsRootPath \<or> root = mappingsRootPath) \<and>
           Exists (result_Get (gjson_Get newTemplate root) k) \<and>
           \<not> Exists (result_Get (gjson_Get currentTemplate root) k)) \<and>
      (\<forall>v. \<exists>raw. encodeValue env v = Inr raw) \<and>
      (IsObject (gjson_Get currentTemplate mappingsRootPath) \<or>
       (\<forall>elems. gjson_Get currentTemplate mappingsRootPath \<noteq> Some (JArray elems)) \<and>
       (\<forall>k. Exists (result_Get (gjson_Get newTemplate mappingsRootPath) k) \<longrightarrow>
            atoui k = None \<and> k \<noteq> ''-1''))"
  proof -
    from h have e: "\<forall>v. \<exists>raw. encodeValue env v = Inr raw"
      and p: "IsObject (gjson_Get currentTemplate mappingsRootPath) \<or>
       (\<forall>elems. gjson_Get currentTemplate mappingsRootPath \<noteq> Some (JArray elems)) \<and>
       (\<forall>k. Exists (result_Get (gjson_Get newTemplate mappingsRootPath) k) \<longrightarrow>
            atoui k = None \<and> k \<noteq> ''-1'')"
      and x: "\<exists>root k. (root = resourcesRootPath \<or> root = outputsRootPath \<or> root = mappingsRootPath) \<and>
           Exists (result_Get (gjson_Get newTemplate root) k) \<and>
           \<not> Exists (result_Get (gjson_Get currentTemplate root) k)"
      by simp_all
    from mergeTemplates_ok [OF assms(2,3) e p] obtain merged addR addO addM where
      m: "mergeTemplates (encodeValue env) currentTemplate newTemplate =
            Inr (merged, addR, addO, addM)"
      by blast
    from x have "\<not> (addR = [] \<and> addO = [] \<and> addM = [])"
      unfolding mergeTemplates_added [OF m] de_Morgan_conj
        filter_absent_nonempty [OF assms(7)] filter_absent_nonempty [OF assms(8)]
        filter_absent_nonempty [OF assms(9)]
      by blast
    with m 3 show ?thesis by blast
  qed
  show ?thesis
    by (intro conjI allI impI) (rule 1, erule 2, erule 3, erule 4)
qed

text \<open>The first example again, in plan mode.\<close>

theorem plan_mode_never_mutates_witness:
  "AppendNewClusterStackResource
      \<lparr>GetStackTemplate = Inr (JObject
         [(''Resources'', JObject [(''VPC'', JString ''deployed'')]),
          (''Outputs'', JObject [])]),
       importServiceRoleARN = None, newStackAddAllResources = None,
       RenderJSON = Inr (JObject
         [(''Resources'', JObject [(''VPC'', JString ''rebuilt''), (''Role'', JString ''r'')]),
          (''Outputs'', JObject []),
          (''Mappings'', JObject [(''Partition'', JString ''aws'')])]),
       UpdateStack = Some (External ''must not be called''), encodeValue = Inr\<rparr> True
     = \<lparr>changed = True, returnedError = None, updateStackCalls = []\<rparr>"
proof -
  let ?cur = "JObject [(''Resources'', JObject [(''VPC'', JString ''deployed'')]),
          (''Outputs'', JObject [])]"
  let ?new = "JObject
         [(''Resources'', JObject [(''VPC'', JString ''rebuilt''), (''Role'', JString ''r'')]),
          (''Outputs'', JObject []),
          (''Mappings'', JObject [(''Partition'', JString ''aws'')])]"
  let ?env = "\<lparr>GetStackTemplate = Inr ?cur, importServiceRoleARN = None,
       newStackAddAllResources = None, RenderJSON = Inr ?new,
       UpdateStack = Some (External ''must not be called''), encodeValue = Inr\<rparr>"
  have h1: "GetStackTemplate ?env = Inr ?cur" by simp
  have h2: "IsObject (gjson_Get ?cur resourcesRootPath)"
    and h3: "IsObject (gjson_Get ?cur outputsRootPath)"
    by (simp_all add: gjson_Get_def IsObject_def
        resourcesRootPath_def outputsRootPath_def mappingsRootPath_def)
  have h5: "importServiceRoleARN ?env = None" and h6: "newStackAddAllResources ?env = None"
    and h7: "RenderJSON ?env = Inr ?new" by simp_all
  have h8: "IsObject (gjson_Get ?new resourcesRootPath)"
    and h9: "IsObject (gjson_Get ?new outputsRootPath)"
    and h10: "IsObject (gjson_Get ?new mappingsRootPath)"
    by (simp_all add: gjson_Get_def IsObject_def
        resourcesRootPath_def outputsRootPath_def mappingsRootPath_def)
  have "Exists (result_Get (gjson_Get ?new resourcesRootPath) ''Role'') \<and>
        \<not> Exists (result_Get (gjson_Get ?cur resourcesRootPath) ''Role'')"
    by (simp add: gjson_Get_def result_Get_def Exists_def resourcesRootPath_def)
  then have x: "\<exists>root k. (root = resourcesRootPath \<or> root = outputsRootPath \<or> root = mappingsRootPath) \<and>
           Exists (result_Get (gjson_Get ?new root) k) \<and>
           \<not> Exists (result_Get (gjson_Get ?cur root) k)"
    by blast
  have e: "\<forall>v. \<exists>raw. encodeValue ?env v = Inr raw" by simp
  have a: "\<forall>elems. gjson_Get ?cur mappingsRootPath \<noteq> Some (JArray elems)"
    by (simp add: gjson_Get_def mappingsRootPath_def)
  have "atoui ''Partition'' = None \<and> ''Partition'' \<noteq> ''-1''"
    by (simp add: atoui_def isDigit_def)
  then have b: "\<forall>k. Exists (result_Get (gjson_Get ?new mappingsRootPath) k) \<longrightarrow>
            atoui k = None \<and> k \<noteq> ''-1''"
    by (simp add: gjson_Get_def result_Get_def Exists_def mappingsRootPath_def)
  from x e a b have h: "(\<exists>root k. (root = resourcesRootPath \<or> root = outputsRootPath \<or> root = mappingsRootPath) \<and>
           Exists (result_Get (gjson_Get ?new root) k) \<and>
           \<not> Exists (result_Get (gjson_Get ?cur root) k)) \<and>
      (\<forall>v. \<exists>raw. encodeValue ?env v = Inr raw) \<and>
      (IsObject (gjson_Get ?cur mappingsRootPath) \<or>
       (\<forall>elems. gjson_Get ?cur mappingsRootPath \<noteq> Some (JArray elems)) \<and>
       (\<forall>k. Exists (result_Get (gjson_Get ?new mappingsRootPath) k) \<longrightarrow>
            atoui k = None \<and> k \<noteq> ''-1''))"
    by blast
  from plan_mode_never_mutates [OF h1 h2 h3 h5 h6 h7 h8 h9 h10,
      THEN conjunct2, THEN conjunct1, THEN mp, OF h]
  show ?thesis .
qed

text \<open>A deployed template without a Mappings section and a new template whose first mapping
  has a name made of digits: \<^verbatim>\<open>sjson.Set\<close> creates the section as an array.\<close>

lemma Mappings_created_as_array:
  "AppendNewClusterStackResource
      \<lparr>GetStackTemplate = Inr (JObject
         [(''Resources'', JObject []), (''Outputs'', JObject [])]),
       importServiceRoleARN = None, newStackAddAllResources = None,
       RenderJSON = Inr (JObject
         [(''Resources'', JObject []), (''Outputs'', JObject []),
          (''Mappings'', JObject [(''0'', JString ''zero'')])]),
       UpdateStack = None, encodeValue = Inr\<rparr> False
     = \<lparr>changed = True, returnedError = None,
        updateStackCalls = [JObject
         [(''Resources'', JObject []), (''Outputs'', JObject []),
          (''Mappings'', JArray [JString ''zero''])]]\<rparr>"
  by (simp add: AppendNewClusterStackResource_def mergeTemplates_def gjson_Get_def
      result_Get_def Exists_def IsObject_def membersOf_def sjson_Set_def
      appendRawPaths.simps appendBuild.simps atoui_def parseUint_def isDigit_def
      digitsValue_def wrap64_def
      resourcesRootPath_def outputsRootPath_def mappingsRootPath_def)

text \<open>The same with a second mapping whose name is not a number: \<^verbatim>\<open>sjson.Set\<close> refuses
  it, the merge fails, and the call returns \<^verbatim>\<open>changed = false\<close> and the error, in plan
  mode as well.\<close>

lemma merge_refuses_name_in_array:
  "AppendNewClusterStackResource
      \<lparr>GetStackTemplate = Inr (JObject
         [(''Resources'', JObject []), (''Outputs'', JObject [])]),
       importServiceRoleARN = None, newStackAddAllResources = None,
       RenderJSON = Inr (JObject
         [(''Resources'', JObject []), (''Outputs'', JObject []),
          (''Mappings'', JObject [(''0'', JString ''zero''), (''a'', JString ''x'')])]),
       UpdateStack = None, encodeValue = Inr\<rparr> True
     = \<lparr>changed = False,
        returnedError = Some (Wrapf ''adding mappings to current stack template''
          (External ''cannot set array element for non-numeric key'')),
        updateStackCalls = []\<rparr>"
  by (simp add: AppendNewClusterStackResource_def mergeTemplates_def gjson_Get_def
      result_Get_def Exists_def IsObject_def membersOf_def sjson_Set_def
      appendRawPaths.simps appendBuild.simps atoui_def parseUint_def isDigit_def
      digitsValue_def wrap64_def
      resourcesRootPath_def outputsRootPath_def mappingsRootPath_def)


section \<open>Sequencing of calls\<close>

lemma andThen_ok: "snd a = None \<Longrightarrow> andThen a b = (fst a @ fst b, snd b)"
  by (cases a) (simp add: andThen_def)

lemma fst_andThen: "fst (andThen a b) = fst a @ (if snd a = None then fst b else [])"
  by (cases a; cases "snd a") (simp_all add: andThen_def)

lemma snd_andThen: "snd (andThen a b) = (if snd a = None then snd b else snd a)"
  by (cases a; cases "snd a") (simp_all add: andThen_def)

lemma call_simps: "fst (call a r) = [(a, r)]" "snd (call a r) = r"
  by (simp_all add: call_def)

lemma map_filter_empty_iff: "List.map_filter f xs = [] \<longleftrightarrow> (\<forall>x \<in> set xs. f x = None)"
  by (induction xs) (auto simp: List.map_filter_simps split: option.splits)

lemma DoAllSync_run:
  "\<not> PlanMode tree \<Longrightarrow>
   fst (DoAllSync env tree) = map (\<lambda>t. (RunTask t, runTaskResult env t)) (Tasks tree) \<and>
   (snd (DoAllSync env tree) = [] \<longleftrightarrow> (\<forall>t \<in> set (Tasks tree). runTaskResult env t = None))"
  by (simp add: DoAllSync_def map_filter_empty_iff)

section \<open>Deprecated stacks in the deletion of shared resources\<close>

lemma deleteProfiles_actions:
  "(a, r) \<in> set (fst (deleteProfiles env ps)) \<Longrightarrow> \<exists>p. a = CallDeleteProfile p True"
  by (induction ps) (auto simp: fst_andThen call_simps split: if_splits)

lemma deleteFargateProfiles_actions:
  "(a, r) \<in> set (fst (deleteFargateProfiles env)) \<Longrightarrow>
   a = CallListProfiles \<or> a = CallGetFargateStack \<or> a = CallDeleteStackBySpec \<or>
   (\<exists>p. a = CallDeleteProfile p True)"
  by (auto simp: deleteFargateProfiles_def fst_andThen call_simps
      split: sum.splits option.splits if_splits dest: deleteProfiles_actions)

lemma deleteDeprecatedStacks_some:
  "deprecatedStacksResult env = Inr descriptions \<Longrightarrow> descriptions \<noteq> [] \<Longrightarrow>
   deleteDeprecatedStacks env =
     ((CallDeleteTasksForDeprecatedStacks, None) #
        map (\<lambda>d. (RunTask (StackManagerTask d), runTaskResult env (StackManagerTask d)))
          descriptions,
      True,
      if \<exists>d \<in> set descriptions. runTaskResult env (StackManagerTask d) \<noteq> None
      then Some (FailedToDelete ''deprecated stacks'') else None)"
proof -
  assume d: "deprecatedStacksResult env = Inr descriptions" and n: "descriptions \<noteq> []"
  let ?tree = "stackManagerTasks descriptions"
  have p: "\<not> PlanMode ?tree" and l: "Len ?tree > 0"
    using n by (simp_all add: stackManagerTasks_def Len_def)
  have t: "Tasks ?tree = map StackManagerTask descriptions"
    by (simp add: stackManagerTasks_def)
  note r = DoAllSync_run [OF p, of env]
  have e: "length (snd (DoAllSync env ?tree)) > 0 \<longleftrightarrow>
      (\<exists>d \<in> set descriptions. runTaskResult env (StackManagerTask d) \<noteq> None)"
    using r by (auto simp: t)
  have f: "fst (DoAllSync env ?tree) =
      map (\<lambda>d. (RunTask (StackManagerTask d), runTaskResult env (StackManagerTask d))) descriptions"
    using r by (simp add: t comp_def)
  show ?thesis
    using d l e f
    by (cases "DoAllSync env ?tree")
       (simp add: deleteDeprecatedStacks_def Let_def handleErrors_def)
qed

lemma deleteDeprecatedStacks_flag:
  "deleteDeprecatedStacks env = (tr, False, r) \<Longrightarrow> deprecatedStacksResult env = Inr []"
  by (auto simp: deleteDeprecatedStacks_def Let_def Len_def stackManagerTasks_def
      split: sum.splits prod.splits if_splits)

lemma deleteDeprecatedStacks_actions:
  "deleteDeprecatedStacks env = (tr, flag, r) \<Longrightarrow> (a, x) \<in> set tr \<Longrightarrow>
   a = CallDeleteTasksForDeprecatedStacks \<or> (\<exists>t. a = RunTask t)"
  by (auto simp: deleteDeprecatedStacks_def Let_def DoAllSync_def
      split: sum.splits prod.splits if_splits)

text \<open>
  Claim C10. When the stack manager reports deprecated stacks, \<^verbatim>\<open>deleteSharedResources\<close>
  (after the Fargate profiles, if the cluster is operable and their deletion succeeds) runs
  the deletion tasks of the deprecated stacks and returns at once: with the summary error
  when a task failed, with no error otherwise. The SSH keys, the kubeconfig and the load
  balancers are not touched in that call; a call that reaches one of these three cleanups
  found no deprecated stack.
\<close>

theorem deprecated_stacks_skip_cleanup:
  assumes "clusterOperable \<longrightarrow> snd (deleteFargateProfiles env) = None"
  shows
    "(deprecatedStacksResult env = Inr descriptions \<and> descriptions \<noteq> [] \<longrightarrow>
        deleteSharedResources env clusterOperable =
          ((if clusterOperable then fst (deleteFargateProfiles env) else []) @
           (CallDeleteTasksForDeprecatedStacks, None) #
             map (\<lambda>d. (RunTask (StackManagerTask d), runTaskResult env (StackManagerTask d)))
               descriptions,
           if \<exists>d \<in> set descriptions. runTaskResult env (StackManagerTask d) \<noteq> None
           then Some (FailedToDelete ''deprecated stacks'') else None)) \<and>
     (\<forall>a r. (a, r) \<in> set (fst (deleteSharedResources env clusterOperable)) \<and>
        (a = CallDeleteKeys \<or> a = CallMaybeDeleteConfig \<or> a = CallElbCleanup) \<longrightarrow>
        deprecatedStacksResult env = Inr [])"
proof (intro conjI impI allI)
  assume h: "deprecatedStacksResult env = Inr descriptions \<and> descriptions \<noteq> []"
  then have d: "deleteDeprecatedStacks env =
     ((CallDeleteTasksForDeprecatedStacks, None) #
        map (\<lambda>d. (RunTask (StackManagerTask d), runTaskResult env (StackManagerTask d)))
          descriptions,
      True,
      if \<exists>d \<in> set descriptions. runTaskResult env (StackManagerTask d) \<noteq> None
      then Some (FailedToDelete ''deprecated stacks'') else None)"
    using deleteDeprecatedStacks_some by blast
  have "snd (if clusterOperable then deleteFargateProfiles env else ([], None)) = None"
    using assms by simp
  from andThen_ok [OF this]
  show "deleteSharedResources env clusterOperable =
          ((if clusterOperable then fst (deleteFargateProfiles env) else []) @
           (CallDeleteTasksForDeprecatedStacks, None) #
             map (\<lambda>d. (RunTask (StackManagerTask d), runTaskResult env (StackManagerTask d)))
               descriptions,
           if \<exists>d \<in> set descriptions. runTaskResult env (StackManagerTask d) \<noteq> None
           then Some (FailedToDelete ''deprecated stacks'') else None)"
    unfolding deleteSharedResources_def d by simp
next
  fix a r
  assume h: "(a, r) \<in> set (fst (deleteSharedResources env clusterOperable)) \<and>
        (a = CallDeleteKeys \<or> a = CallMaybeDeleteConfig \<or> a = CallElbCleanup)"
  obtain tr flag x where d: "deleteDeprecatedStacks env = (tr, flag, x)"
    by (cases "deleteDeprecatedStacks env") auto
  have nf: "(a, r) \<notin> set (fst (deleteFargateProfiles env))"
    using h deleteFargateProfiles_actions [of a r env] by auto
  have nd: "(a, r) \<notin> set tr"
    using h deleteDeprecatedStacks_actions [OF d, of a r] by auto
  have "\<not> flag"
  proof
    assume "flag"
    with d have "set (fst (deleteSharedResources env clusterOperable)) \<subseteq>
        set (fst (deleteFargateProfiles env)) \<union> set tr"
      by (auto simp: deleteSharedResources_def fst_andThen split: if_splits)
    with h nf nd show False by blast
  qed
  with d have "deleteDeprecatedStacks env = (tr, False, x)" by simp
  then show "deprecatedStacksResult env = Inr []"
    by (rule deleteDeprecatedStacks_flag)
qed

text \<open>An operable cluster with no Fargate profile and one deprecated stack, whose deletion
  fails; the load balancer cleanup would fail too, and is not reached.\<close>

theorem deprecated_stacks_skip_cleanup_witness:
  "deleteSharedResources
     \<lparr>describeClusterResult = None, canOperateResult = (True, None),
      listNodeGroupStacksResult = Inr [], newClientSetResult = None, drainResult = None,
      deleteAddonResult = None, deleteDaemonSetResult = None, listProfilesResult = Inr [],
      isUnauthorizedError = (\<lambda>e. False), deleteProfileResult = (\<lambda>p. None),
      profilesFargateStackResult = Inr None, profilesDeleteStackResult = None,
      deprecatedStacksResult = Inr [''EKS-old-ControlPlane''],
      elbCleanupResult = Some (External ''elb''),
      roleFargateStackResult = Inr None, roleDeleteStackResult = None,
      listNodegroupsResult = Inr [], newTasksToDeleteNodeGroupsResult = None,
      runTaskResult = (\<lambda>t. Some (External ''delete failed'')),
      newOpenIDConnectManagerResult = None, oidcTasksResult = Inr [],
      addonIAMTasksResult = Inr [], deleteClusterResult = None,
      waitClusterDeletedResult = None, describeStacksResult = Inr []\<rparr> True
   = ([(CallListProfiles, None), (CallGetFargateStack, None),
       (CallDeleteTasksForDeprecatedStacks, None),
       (RunTask (StackManagerTask ''EKS-old-ControlPlane''), Some (External ''delete failed''))],
      Some (FailedToDelete ''deprecated stacks''))"
proof -
  let ?env = "\<lparr>describeClusterResult = None, canOperateResult = (True, None),
      listNodeGroupStacksResult = Inr [], newClientSetResult = None, drainResult = None,
      deleteAddonResult = None, deleteDaemonSetResult = None, listProfilesResult = Inr [],
      isUnauthorizedError = (\<lambda>e. False), deleteProfileResult = (\<lambda>p. None),
      profilesFargateStackResult = Inr None, profilesDeleteStackResult = None,
      deprecatedStacksResult = Inr [''EKS-old-ControlPlane''],
      elbCleanupResult = Some (External ''elb''),
      roleFargateStackResult = Inr None, roleDeleteStackResult = None,
      listNodegroupsResult = Inr [], newTasksToDeleteNodeGroupsResult = None,
      runTaskResult = (\<lambda>t. Some (External ''delete failed'')),
      newOpenIDConnectManagerResult = None, oidcTasksResult = Inr [],
      addonIAMTasksResult = Inr [], deleteClusterResult = None,
      waitClusterDeletedResult = None, describeStacksResult = Inr []\<rparr>"
  have f: "deleteFargateProfiles ?env = ([(CallListProfiles, None), (CallGetFargateStack, None)], None)"
    by (simp add: deleteFargateProfiles_def andThen_def call_def)
  then have h: "True \<longrightarrow> snd (deleteFargateProfiles ?env) = None"
    by simp
  have d: "deprecatedStacksResult ?env = Inr [''EKS-old-ControlPlane''] \<and>
      [''EKS-old-ControlPlane''] \<noteq> []"
    by simp
  from deprecated_stacks_skip_cleanup [OF h, of "[''EKS-old-ControlPlane'']"] d f
  show ?thesis by simp
qed

section \<open>Unowned node groups in the deletion plan\<close>

lemma isUnowned_iff: "isUnowned allStacks n \<longleftrightarrow> n \<notin> NodeGroupName ` set allStacks"
  by (induction allStacks) auto

lemma isUnowned_eq: "isUnowned allStacks = (\<lambda>n. n \<notin> NodeGroupName ` set allStacks)"
  by (rule ext) (rule isUnowned_iff)

lemma Tasks_appendUnowned:
  "Tasks (appendUnowned allStacks ns tree) =
     Tasks tree @ map DeleteUnownedNodeGroupTask (filter (isUnowned allStacks) ns)"
  by (induction ns arbitrary: tree)
     (simp_all add: Append_def NewTaskToDeleteUnownedNodeGroup_def)

lemma Tasks_nodegroupDeletionTasks:
  "Tasks (nodegroupDeletionTasks allStacks nodeGroups) =
     map (\<lambda>s. DeleteNodeGroupStackTask (NodeGroupName s) True) allStacks @
     map DeleteUnownedNodeGroupTask
       (filter (\<lambda>n. n \<notin> NodeGroupName ` set allStacks) nodeGroups)"
  by (simp add: nodegroupDeletionTasks_def Tasks_appendUnowned NewTasksToDeleteNodeGroups_def
      isUnowned_eq)

lemma PlanMode_nodegroupDeletionTasks:
  "\<not> PlanMode (nodegroupDeletionTasks allStacks nodeGroups)"
  by (simp add: nodegroupDeletionTasks_def)

text \<open>
  Claim C6. The detection of unowned node groups is a set difference. The deletion plan of
  \<^verbatim>\<open>deleteAndWaitForNodegroupsDeletion\<close> is one stack deletion task (built with
  \<^verbatim>\<open>wait = true\<close>) for each node group stack, followed by one unowned deletion task for
  each remote node group whose name is the \<^verbatim>\<open>NodeGroupName\<close> of no stack; so a remote node
  group gets an unowned task if and only if no stack has its name. For remote node groups A
  and B and one stack, for A, the plan has exactly one unowned task, for B.
\<close>

theorem unowned_nodegroups_set_difference:
  "Tasks (nodegroupDeletionTasks allStacks nodeGroups) =
     map (\<lambda>s. DeleteNodeGroupStackTask (NodeGroupName s) True) allStacks @
     map DeleteUnownedNodeGroupTask
       (filter (\<lambda>n. n \<notin> NodeGroupName ` set allStacks) nodeGroups) \<and>
   (DeleteUnownedNodeGroupTask n \<in> set (Tasks (nodegroupDeletionTasks allStacks nodeGroups)) \<longleftrightarrow>
      n \<in> set nodeGroups \<and> n \<notin> NodeGroupName ` set allStacks) \<and>
   (A \<noteq> B \<longrightarrow>
      Tasks (nodegroupDeletionTasks [\<lparr>NodeGroupName = A, Type = ty\<rparr>] [A, B]) =
        [DeleteNodeGroupStackTask A True, DeleteUnownedNodeGroupTask B])"
  by (auto simp: Tasks_nodegroupDeletionTasks)

theorem unowned_nodegroups_set_difference_witness:
  "Tasks (nodegroupDeletionTasks
      [\<lparr>NodeGroupName = ''A'', Type = NodeGroupTypeManaged\<rparr>] [''A'', ''B'']) =
     [DeleteNodeGroupStackTask ''A'' True, DeleteUnownedNodeGroupTask ''B'']"
  using unowned_nodegroups_set_difference
    [of "[\<lparr>NodeGroupName = ''A'', Type = NodeGroupTypeManaged\<rparr>]" "[''A'', ''B'']"
        "''B''" "''A''" "''B''" NodeGroupTypeManaged]
  by simp


section \<open>Node groups are deleted before the cluster\<close>

text \<open>The calls of each step of \<^verbatim>\<open>Delete\<close> other than the node group step and the cluster
  step: none is the deletion of the cluster, and the tasks they run are tasks of the stack
  manager, not node group deletions.\<close>

lemma unlessForce_actions:
  "(a, x) \<in> set (fst (unlessForce force step)) \<Longrightarrow> (a, x) \<in> set (fst step) \<or> a = LogWarning"
  by (cases step; cases "snd step") (auto simp: unlessForce_def split: if_splits)

lemma drainAllNodeGroups_actions:
  "(a, x) \<in> set (fst (drainAllNodeGroups env allStacks)) \<Longrightarrow>
   (\<exists>ns. a = CallDrain ns) \<or> (\<exists>n. a = CallDeleteAddon n) \<or> (\<exists>n m. a = CallDeleteDaemonSet n m)"
  by (auto simp: drainAllNodeGroups_def attemptVpcCniDeletion_def Let_def
      split: if_splits option.splits)

lemma deleteDeprecatedStacks_tasks:
  "deleteDeprecatedStacks env = (tr, flag, r) \<Longrightarrow> (RunTask t, x) \<in> set tr \<Longrightarrow>
   \<exists>d. t = StackManagerTask d"
  by (auto simp: deleteDeprecatedStacks_def Let_def DoAllSync_def stackManagerTasks_def
      split: sum.splits prod.splits if_splits)

lemma deleteSharedResources_actions:
  assumes "(a, x) \<in> set (fst (deleteSharedResources env clusterOperable))"
  shows "a \<noteq> CallDeleteCluster \<and> (\<forall>t. a = RunTask t \<longrightarrow> (\<exists>d. t = StackManagerTask d))"
proof -
  obtain tr flag r where d: "deleteDeprecatedStacks env = (tr, flag, r)"
    by (cases "deleteDeprecatedStacks env") auto
  from assms d have "(a, x) \<in> set (fst (deleteFargateProfiles env)) \<or> (a, x) \<in> set tr \<or>
      a = CallDeleteKeys \<or> a = CallMaybeDeleteConfig \<or> a = CallElbCleanup"
    by (auto simp: deleteSharedResources_def fst_andThen snd_andThen call_simps split: if_splits)
  then show ?thesis
    using deleteFargateProfiles_actions [of a x env] deleteDeprecatedStacks_actions [OF d, of a x]
      deleteDeprecatedStacks_tasks [OF d, of _ x]
    by auto
qed

lemma deleteFargateRoleIfExists_actions:
  "(a, x) \<in> set (fst (deleteFargateRoleIfExists env)) \<Longrightarrow>
   a = CallGetFargateStack \<or> a = CallDeleteStackBySpec"
  by (auto simp: deleteFargateRoleIfExists_def fst_andThen call_simps
      split: sum.splits option.splits if_splits)

lemma deleteIAMAndOIDC_actions:
  assumes "(a, x) \<in> set (fst (deleteIAMAndOIDC env wait clusterOperable))"
  shows "a \<noteq> CallDeleteCluster \<and> (\<forall>t. a = RunTask t \<longrightarrow> (\<exists>d. t = StackManagerTask d))"
  using assms
  by (auto simp: deleteIAMAndOIDC_def Let_def fst_andThen snd_andThen call_simps Len_def
      Append_def DoAllSync_def stackManagerTasks_def
      split: if_splits option.splits sum.splits)

lemma deleteAndWaitForNodegroupsDeletion_ok:
  assumes "snd (deleteAndWaitForNodegroupsDeletion env allStacks) = None"
  shows "\<exists>nodeGroups. listNodegroupsResult env = Inr nodeGroups \<and>
     (\<forall>t \<in> set (Tasks (nodegroupDeletionTasks allStacks nodeGroups)).
        (RunTask t, None) \<in> set (fst (deleteAndWaitForNodegroupsDeletion env allStacks))) \<and>
     (\<forall>t x. (RunTask t, x) \<in> set (fst (deleteAndWaitForNodegroupsDeletion env allStacks)) \<longrightarrow>
        x = None)"
proof (cases "listNodegroupsResult env")
  case (Inl e)
  with assms show ?thesis
    by (simp add: deleteAndWaitForNodegroupsDeletion_def call_simps)
next
  case (Inr nodeGroups)
  let ?plan = "nodegroupDeletionTasks allStacks nodeGroups"
  note run = DoAllSync_run [OF PlanMode_nodegroupDeletionTasks, of env allStacks nodeGroups]
  show ?thesis
  proof (cases "allStacks = [] \<and> nodeGroups = []")
    case True
    then have "Tasks ?plan = []"
      by (simp add: Tasks_nodegroupDeletionTasks)
    with True Inr show ?thesis
      by (simp add: deleteAndWaitForNodegroupsDeletion_def fst_andThen call_simps)
  next
    case False
    with assms Inr have n: "newTasksToDeleteNodeGroupsResult env = None"
      and e: "snd (DoAllSync env ?plan) = []"
      by (auto simp: deleteAndWaitForNodegroupsDeletion_def snd_andThen call_simps
          split: if_splits prod.splits)
    from e run have all: "\<forall>t \<in> set (Tasks ?plan). runTaskResult env t = None"
      by simp
    have tr: "fst (deleteAndWaitForNodegroupsDeletion env allStacks) =
        [(CallListNodegroups, None), (CallNewTasksToDeleteNodeGroups, None)] @
        map (\<lambda>t. (RunTask t, runTaskResult env t)) (Tasks ?plan)"
      using False Inr n e run
      by (cases "DoAllSync env ?plan")
         (auto simp: deleteAndWaitForNodegroupsDeletion_def fst_andThen snd_andThen call_simps)
    from all have "\<forall>t \<in> set (Tasks ?plan).
        (RunTask t, None) \<in> set (fst (deleteAndWaitForNodegroupsDeletion env allStacks))"
      unfolding tr by (auto simp: image_iff)
    moreover from all have "\<forall>t x.
        (RunTask t, x) \<in> set (fst (deleteAndWaitForNodegroupsDeletion env allStacks)) \<longrightarrow> x = None"
      unfolding tr by auto
    ultimately show ?thesis using Inr by blast
  qed
qed

lemma deleteAndWaitForNodegroupsDeletion_actions:
  "(a, x) \<in> set (fst (deleteAndWaitForNodegroupsDeletion env allStacks)) \<Longrightarrow>
   a \<noteq> CallDeleteCluster"
  by (auto simp: deleteAndWaitForNodegroupsDeletion_def fst_andThen call_simps DoAllSync_def
      split: sum.splits if_splits prod.splits)

lemma checkForUndeletedStacks_actions:
  "(a, x) \<in> set (fst (checkForUndeletedStacks env)) \<Longrightarrow> a = CallDescribeStacks"
  by (auto simp: checkForUndeletedStacks_def call_simps Let_def split: sum.splits if_splits)

lemma andThen_reach:
  assumes "(A, r) \<in> set (fst (andThen a b))" and "\<forall>x. (A, x) \<notin> set (fst a)"
  shows "snd a = None" and "(A, r) \<in> set (fst b)" and "fst (andThen a b) = fst a @ fst b"
  using assms by (auto simp: fst_andThen split: if_splits)

text \<open>A run of \<^verbatim>\<open>Delete\<close> that calls \<^verbatim>\<open>DeleteCluster\<close>: the node group step has returned
  no error, its calls come before the call, and the call is the only one of its kind.\<close>

lemma Delete_reaches_cluster:
  assumes list: "listNodeGroupStacksResult env = Inr allStacks"
    and mem: "(CallDeleteCluster, r) \<in> set (fst (Delete env clusterName wait force))"
  shows "\<exists>Q R. fst (Delete env clusterName wait force) = Q @ (CallDeleteCluster, r) # R \<and>
      snd (deleteAndWaitForNodegroupsDeletion env allStacks) = None \<and>
      set (fst (deleteAndWaitForNodegroupsDeletion env allStacks)) \<subseteq> set Q \<and>
      (\<forall>x. (CallDeleteCluster, x) \<notin> set Q) \<and> (\<forall>x. (CallDeleteCluster, x) \<notin> set R) \<and>
      (\<forall>t x. (RunTask t, x) \<in> set Q \<longrightarrow>
         (RunTask t, x) \<in> set (fst (deleteAndWaitForNodegroupsDeletion env allStacks)) \<or>
         (\<exists>d. t = StackManagerTask d))"
proof -
  define op where "op = fst (canOperateResult env)"
  define S10 where "S10 = checkForUndeletedStacks env"
  define S9 where "S9 = deleteCluster env wait"
  define S8 where "S8 = unlessForce force (deleteIAMAndOIDC env wait op)"
  define S7 where "S7 = deleteAndWaitForNodegroupsDeletion env allStacks"
  define S6 where "S6 = deleteFargateRoleIfExists env"
  define S5 where "S5 = unlessForce force (deleteSharedResources env op)"
  define S4 where "S4 = (if op then andThen (call CallNewClientSet (newClientSetResult env))
      (unlessForce force (drainAllNodeGroups env allStacks)) else ([], None))"
  define S3 where "S3 = call CallListNodeGroupStacks None"
  define S2 where "S2 = ([(CallCanOperate, snd (canOperateResult env))], None :: error option)"
  define S1 where "S1 = checkClusterExists env clusterName"
  define T9 where "T9 = andThen S9 S10"
  define T8 where "T8 = andThen S8 T9"
  define T7 where "T7 = andThen S7 T8"
  define T6 where "T6 = andThen S6 T7"
  define T5 where "T5 = andThen S5 T6"
  define T4 where "T4 = andThen S4 T5"
  define T3 where "T3 = andThen S3 T4"
  define T2 where "T2 = andThen S2 T3"
  have D: "Delete env clusterName wait force = andThen S1 T2"
    by (simp add: Delete_def Let_def list S1_def T2_def S2_def T3_def S3_def T4_def S4_def
        T5_def S5_def T6_def S6_def T7_def S7_def T8_def S8_def T9_def S9_def S10_def op_def)
  have n1: "\<forall>x. (CallDeleteCluster, x) \<notin> set (fst S1)"
    by (auto simp: S1_def checkClusterExists_def split: option.splits)
  have n2: "\<forall>x. (CallDeleteCluster, x) \<notin> set (fst S2)"
    by (simp add: S2_def)
  have n3: "\<forall>x. (CallDeleteCluster, x) \<notin> set (fst S3)"
    by (simp add: S3_def call_simps)
  have a4: "\<And>a x. (a, x) \<in> set (fst S4) \<Longrightarrow> a \<noteq> CallDeleteCluster \<and> (\<forall>t. a \<noteq> RunTask t)"
    by (auto simp: S4_def fst_andThen call_simps split: if_splits
        dest!: unlessForce_actions drainAllNodeGroups_actions)
  have a5: "\<And>a x. (a, x) \<in> set (fst S5) \<Longrightarrow>
      a \<noteq> CallDeleteCluster \<and> (\<forall>t. a = RunTask t \<longrightarrow> (\<exists>d. t = StackManagerTask d))"
    unfolding S5_def using deleteSharedResources_actions unlessForce_actions by blast
  have a6: "\<And>a x. (a, x) \<in> set (fst S6) \<Longrightarrow> a \<noteq> CallDeleteCluster \<and> (\<forall>t. a \<noteq> RunTask t)"
    unfolding S6_def by (auto dest: deleteFargateRoleIfExists_actions)
  have a7: "\<And>a x. (a, x) \<in> set (fst S7) \<Longrightarrow> a \<noteq> CallDeleteCluster"
    unfolding S7_def by (rule deleteAndWaitForNodegroupsDeletion_actions)
  have a8: "\<And>a x. (a, x) \<in> set (fst S8) \<Longrightarrow>
      a \<noteq> CallDeleteCluster \<and> (\<forall>t. a = RunTask t \<longrightarrow> (\<exists>d. t = StackManagerTask d))"
    unfolding S8_def using deleteIAMAndOIDC_actions unlessForce_actions by blast
  have a10: "\<And>a x. (a, x) \<in> set (fst S10) \<Longrightarrow> a = CallDescribeStacks"
    unfolding S10_def by (rule checkForUndeletedStacks_actions)
  from mem have m1: "(CallDeleteCluster, r) \<in> set (fst (andThen S1 T2))"
    by (simp add: D)
  note r1 = andThen_reach [OF m1 n1]
  note r2 = andThen_reach [OF r1(2) [unfolded T2_def] n2]
  note r3 = andThen_reach [OF r2(2) [unfolded T3_def] n3]
  have n4: "\<forall>x. (CallDeleteCluster, x) \<notin> set (fst S4)" using a4 by blast
  note r4 = andThen_reach [OF r3(2) [unfolded T4_def] n4]
  have n5: "\<forall>x. (CallDeleteCluster, x) \<notin> set (fst S5)" using a5 by blast
  note r5 = andThen_reach [OF r4(2) [unfolded T5_def] n5]
  have n6: "\<forall>x. (CallDeleteCluster, x) \<notin> set (fst S6)" using a6 by blast
  note r6 = andThen_reach [OF r5(2) [unfolded T6_def] n6]
  have n7: "\<forall>x. (CallDeleteCluster, x) \<notin> set (fst S7)" using a7 by blast
  note r7 = andThen_reach [OF r6(2) [unfolded T7_def] n7]
  have n8: "\<forall>x. (CallDeleteCluster, x) \<notin> set (fst S8)" using a8 by blast
  note r8 = andThen_reach [OF r7(2) [unfolded T8_def] n8]
  define Q where "Q = fst S1 @ fst S2 @ fst S3 @ fst S4 @ fst S5 @ fst S6 @ fst S7 @ fst S8"
  have tr: "fst (Delete env clusterName wait force) = Q @ fst T9"
    unfolding D Q_def
    using r1(3) r2(3) r3(3) r4(3) r5(3) r6(3) r7(3) r8(3)
    by (simp add: T2_def T3_def T4_def T5_def T6_def T7_def T8_def)
  have t9: "fst T9 = (CallDeleteCluster, deleteClusterResult env) # tl (fst T9)"
    by (simp add: T9_def S9_def deleteCluster_def fst_andThen snd_andThen call_simps)
  have nt: "\<forall>x. (CallDeleteCluster, x) \<notin> set (tl (fst T9))"
    using a10 by (auto simp: T9_def S9_def deleteCluster_def fst_andThen snd_andThen call_simps
        split: if_splits)
  from r8(2) t9 nt have r: "r = deleteClusterResult env"
    by (metis prod.inject set_ConsD)
  have nQ: "\<forall>x. (CallDeleteCluster, x) \<notin> set Q"
    using n1 n2 n3 n4 n5 n6 n7 n8 by (simp add: Q_def)
  have b1: "\<And>t x. (RunTask t, x) \<notin> set (fst S1)"
    by (auto simp: S1_def checkClusterExists_def split: option.splits)
  have b4: "\<And>t x. (RunTask t, x) \<notin> set (fst S4)" using a4 by blast
  have b5: "\<And>t x. (RunTask t, x) \<in> set (fst S5) \<Longrightarrow> \<exists>d. t = StackManagerTask d"
    using a5 by blast
  have b6: "\<And>t x. (RunTask t, x) \<notin> set (fst S6)" using a6 by blast
  have b8: "\<And>t x. (RunTask t, x) \<in> set (fst S8) \<Longrightarrow> \<exists>d. t = StackManagerTask d"
    using a8 by blast
  have tasksQ: "\<forall>t x. (RunTask t, x) \<in> set Q \<longrightarrow>
      (RunTask t, x) \<in> set (fst S7) \<or> (\<exists>d. t = StackManagerTask d)"
    using b5 b8 by (auto simp: Q_def S2_def S3_def call_simps b1 b4 b6)
  have "fst (Delete env clusterName wait force) = Q @ (CallDeleteCluster, r) # tl (fst T9)"
    using tr t9 r by simp
  moreover have "snd S7 = None" by (rule r7(1))
  moreover have "set (fst S7) \<subseteq> set Q" by (auto simp: Q_def)
  ultimately show ?thesis
    using nQ nt tasksQ unfolding S7_def by blast
qed

text \<open>
  Claim C4. In a run of \<^verbatim>\<open>UnownedCluster.Delete\<close>, the cluster delete call comes after the
  node group deletions have reported complete. Whatever the collaborators answer and
  whatever \<^verbatim>\<open>wait\<close> and \<^verbatim>\<open>force\<close> are, if \<^verbatim>\<open>DeleteCluster\<close> is called then, before the
  call, the deletion task of every node group stack has run, built with \<^verbatim>\<open>wait = true\<close>,
  and has returned no error; so has the deletion task of every unowned node group; and no
  node group deletion task has failed before the call (a failure makes
  \<^verbatim>\<open>deleteAndWaitForNodegroupsDeletion\<close> return its error, and \<^verbatim>\<open>Delete\<close> returns it
  without calling \<^verbatim>\<open>DeleteCluster\<close>).
\<close>

theorem nodegroups_deleted_before_cluster:
  assumes "fst (Delete env clusterName wait force) = pre @ (CallDeleteCluster, r) # post"
  shows "\<exists>allStacks nodeGroups.
     listNodeGroupStacksResult env = Inr allStacks \<and>
     listNodegroupsResult env = Inr nodeGroups \<and>
     snd (deleteAndWaitForNodegroupsDeletion env allStacks) = None \<and>
     (\<forall>s \<in> set allStacks.
        (RunTask (DeleteNodeGroupStackTask (NodeGroupName s) True), None) \<in> set pre) \<and>
     (\<forall>n \<in> set nodeGroups. n \<notin> NodeGroupName ` set allStacks \<longrightarrow>
        (RunTask (DeleteUnownedNodeGroupTask n), None) \<in> set pre) \<and>
     (\<forall>n w e. (RunTask (DeleteNodeGroupStackTask n w), Some e) \<notin> set pre) \<and>
     (\<forall>n e. (RunTask (DeleteUnownedNodeGroupTask n), Some e) \<notin> set pre)"
proof -
  from assms have mem: "(CallDeleteCluster, r) \<in> set (fst (Delete env clusterName wait force))"
    by simp
  have "\<exists>allStacks. listNodeGroupStacksResult env = Inr allStacks"
  proof (cases "listNodeGroupStacksResult env")
    case (Inl e)
    with mem show ?thesis
      by (auto simp: Delete_def Let_def fst_andThen call_simps checkClusterExists_def
          split: if_splits option.splits)
  next
    case (Inr allStacks)
    then show ?thesis by blast
  qed
  then obtain allStacks where list: "listNodeGroupStacksResult env = Inr allStacks"
    by blast
  from Delete_reaches_cluster [OF list mem] obtain Q R where
    tr: "fst (Delete env clusterName wait force) = Q @ (CallDeleteCluster, r) # R"
    and ok: "snd (deleteAndWaitForNodegroupsDeletion env allStacks) = None"
    and sub: "set (fst (deleteAndWaitForNodegroupsDeletion env allStacks)) \<subseteq> set Q"
    and nQ: "\<forall>x. (CallDeleteCluster, x) \<notin> set Q" and nR: "\<forall>x. (CallDeleteCluster, x) \<notin> set R"
    and tasksQ: "\<forall>t x. (RunTask t, x) \<in> set Q \<longrightarrow>
         (RunTask t, x) \<in> set (fst (deleteAndWaitForNodegroupsDeletion env allStacks)) \<or>
         (\<exists>d. t = StackManagerTask d)"
    by blast
  from nQ nR have "(CallDeleteCluster, r) \<notin> set Q" and "(CallDeleteCluster, r) \<notin> set R"
    by blast+
  moreover have "Q @ (CallDeleteCluster, r) # R = pre @ (CallDeleteCluster, r) # post"
    using tr assms by simp
  ultimately have pre: "pre = Q"
    by (simp add: append_Cons_eq_iff)
  from deleteAndWaitForNodegroupsDeletion_ok [OF ok] obtain nodeGroups where
    ng: "listNodegroupsResult env = Inr nodeGroups"
    and ran: "\<forall>t \<in> set (Tasks (nodegroupDeletionTasks allStacks nodeGroups)).
        (RunTask t, None) \<in> set (fst (deleteAndWaitForNodegroupsDeletion env allStacks))"
    and good: "\<forall>t x. (RunTask t, x) \<in> set (fst (deleteAndWaitForNodegroupsDeletion env allStacks)) \<longrightarrow>
        x = None"
    by blast
  have 1: "\<forall>s \<in> set allStacks.
        (RunTask (DeleteNodeGroupStackTask (NodeGroupName s) True), None) \<in> set pre"
    using ran sub unfolding pre Tasks_nodegroupDeletionTasks by auto
  have 2: "\<forall>n \<in> set nodeGroups. n \<notin> NodeGroupName ` set allStacks \<longrightarrow>
        (RunTask (DeleteUnownedNodeGroupTask n), None) \<in> set pre"
    using ran sub unfolding pre Tasks_nodegroupDeletionTasks by auto
  have 3: "\<forall>n w e. (RunTask (DeleteNodeGroupStackTask n w), Some e) \<notin> set pre"
    using tasksQ good unfolding pre by fastforce
  have 4: "\<forall>n e. (RunTask (DeleteUnownedNodeGroupTask n), Some e) \<notin> set pre"
    using tasksQ good unfolding pre by fastforce
  from list ng ok 1 2 3 4 show ?thesis by blast
qed


text \<open>A cluster that is not operable, with two node group stacks and no other remote node
  group: the call of \<^verbatim>\<open>DeleteCluster\<close> comes after both stack deletions have completed.\<close>

theorem nodegroups_deleted_before_cluster_witness:
  "fst (Delete
     \<lparr>describeClusterResult = None, canOperateResult = (False, None),
      listNodeGroupStacksResult =
        Inr [\<lparr>NodeGroupName = ''ng1'', Type = NodeGroupTypeUnmanaged\<rparr>,
             \<lparr>NodeGroupName = ''ng2'', Type = NodeGroupTypeManaged\<rparr>],
      newClientSetResult = None, drainResult = None,
      deleteAddonResult = None, deleteDaemonSetResult = None, listProfilesResult = Inr [],
      isUnauthorizedError = (\<lambda>e. False), deleteProfileResult = (\<lambda>p. None),
      profilesFargateStackResult = Inr None, profilesDeleteStackResult = None,
      deprecatedStacksResult = Inr [], elbCleanupResult = None,
      roleFargateStackResult = Inr None, roleDeleteStackResult = None,
      listNodegroupsResult = Inr [], newTasksToDeleteNodeGroupsResult = None,
      runTaskResult = (\<lambda>t. None),
      newOpenIDConnectManagerResult = None, oidcTasksResult = Inr [],
      addonIAMTasksResult = Inr [], deleteClusterResult = None,
      waitClusterDeletedResult = None, describeStacksResult = Inr []\<rparr> ''c'' False False)
   = [(CallDescribeCluster, None), (CallCanOperate, None), (CallListNodeGroupStacks, None),
      (CallDeleteTasksForDeprecatedStacks, None), (CallDeleteKeys, None),
      (CallMaybeDeleteConfig, None), (CallGetFargateStack, None), (CallListNodegroups, None),
      (CallNewTasksToDeleteNodeGroups, None),
      (RunTask (DeleteNodeGroupStackTask ''ng1'' True), None),
      (RunTask (DeleteNodeGroupStackTask ''ng2'' True), None),
      (CallNewTaskToDeleteAddonIAM False, None)] @
     (CallDeleteCluster, None) # [(CallDescribeStacks, None)] \<and>
   (RunTask (DeleteNodeGroupStackTask ''ng1'' True), None) \<in> set
     [(CallDescribeCluster, None), (CallCanOperate, None), (CallListNodeGroupStacks, None),
      (CallDeleteTasksForDeprecatedStacks, None), (CallDeleteKeys, None),
      (CallMaybeDeleteConfig, None), (CallGetFargateStack, None), (CallListNodegroups, None),
      (CallNewTasksToDeleteNodeGroups, None),
      (RunTask (DeleteNodeGroupStackTask ''ng1'' True), None),
      (RunTask (DeleteNodeGroupStackTask ''ng2'' True), None),
      (CallNewTaskToDeleteAddonIAM False, None)]"
proof -
  let ?stacks = "[\<lparr>NodeGroupName = ''ng1'', Type = NodeGroupTypeUnmanaged\<rparr>,
             \<lparr>NodeGroupName = ''ng2'', Type = NodeGroupTypeManaged\<rparr>]"
  let ?env = "\<lparr>describeClusterResult = None, canOperateResult = (False, None),
      listNodeGroupStacksResult = Inr ?stacks,
      newClientSetResult = None, drainResult = None,
      deleteAddonResult = None, deleteDaemonSetResult = None, listProfilesResult = Inr [],
      isUnauthorizedError = (\<lambda>e. False), deleteProfileResult = (\<lambda>p. None),
      profilesFargateStackResult = Inr None, profilesDeleteStackResult = None,
      deprecatedStacksResult = Inr [], elbCleanupResult = None,
      roleFargateStackResult = Inr None, roleDeleteStackResult = None,
      listNodegroupsResult = Inr [], newTasksToDeleteNodeGroupsResult = None,
      runTaskResult = (\<lambda>t. None),
      newOpenIDConnectManagerResult = None, oidcTasksResult = Inr [],
      addonIAMTasksResult = Inr [], deleteClusterResult = None,
      waitClusterDeletedResult = None, describeStacksResult = Inr []\<rparr>"
  let ?pre = "[(CallDescribeCluster, None), (CallCanOperate, None), (CallListNodeGroupStacks, None),
      (CallDeleteTasksForDeprecatedStacks, None), (CallDeleteKeys, None),
      (CallMaybeDeleteConfig, None), (CallGetFargateStack, None), (CallListNodegroups, None),
      (CallNewTasksToDeleteNodeGroups, None),
      (RunTask (DeleteNodeGroupStackTask ''ng1'' True), None),
      (RunTask (DeleteNodeGroupStackTask ''ng2'' True), None),
      (CallNewTaskToDeleteAddonIAM False, None)]"
  have ng: "deleteAndWaitForNodegroupsDeletion ?env ?stacks =
      ([(CallListNodegroups, None), (CallNewTasksToDeleteNodeGroups, None),
        (RunTask (DeleteNodeGroupStackTask ''ng1'' True), None),
        (RunTask (DeleteNodeGroupStackTask ''ng2'' True), None)], None)"
    by (simp add: deleteAndWaitForNodegroupsDeletion_def andThen_def call_def DoAllSync_def
        PlanMode_nodegroupDeletionTasks Tasks_nodegroupDeletionTasks List.map_filter_simps)
  have sh: "deleteSharedResources ?env False =
      ([(CallDeleteTasksForDeprecatedStacks, None), (CallDeleteKeys, None),
        (CallMaybeDeleteConfig, None)], None)"
    by (simp add: deleteSharedResources_def deleteDeprecatedStacks_def stackManagerTasks_def
        Len_def andThen_def call_def)
  have iam: "deleteIAMAndOIDC ?env False False = ([(CallNewTaskToDeleteAddonIAM False, None)], None)"
    by (simp add: deleteIAMAndOIDC_def stackManagerTasks_def Len_def andThen_def call_def)
  have tr: "fst (Delete ?env ''c'' False False) =
      ?pre @ (CallDeleteCluster, None) # [(CallDescribeStacks, None)]"
    by (simp add: Delete_def ng sh iam unlessForce_def checkClusterExists_def
        deleteFargateRoleIfExists_def deleteCluster_def checkForUndeletedStacks_def
        andThen_def call_def)
  from nodegroups_deleted_before_cluster [OF tr]
  have "\<forall>s \<in> set ?stacks.
      (RunTask (DeleteNodeGroupStackTask (NodeGroupName s) True), None) \<in> set ?pre"
    by auto
  then have "(RunTask (DeleteNodeGroupStackTask ''ng1'' True), None) \<in> set ?pre"
    by simp
  with tr show ?thesis by blast
qed

section \<open>What the force flag downgrades\<close>

lemma andThen_assoc: "andThen (andThen a b) c = andThen a (andThen b c)"
  by (cases a; cases "snd a"; cases b; cases "snd b") (simp_all add: andThen_def)

lemma andThen_empty: "andThen ([], None) b = b" "andThen a ([], None) = a"
  by (cases a; cases "snd a"; simp add: andThen_def)+

lemma andThen_None: "andThen (tr, None) b = (tr @ fst b, snd b)"
  by (simp add: andThen_def)

lemma runSteps_Fatal: "runSteps force ((Fatal, s) # steps) = andThen s (runSteps force steps)"
  by (cases s; cases "snd s") (simp_all add: andThen_def)

lemma runSteps_Downgradable:
  "runSteps force ((Downgradable, s) # steps) =
     andThen (unlessForce force s) (runSteps force steps)"
  by (cases s; cases "snd s") (simp_all add: andThen_def unlessForce_def)

lemma runSteps_LoggedOnly:
  "runSteps force ((LoggedOnly, call a r) # steps) = andThen ([(a, r)], None) (runSteps force steps)"
  by (cases r) (simp_all add: andThen_def call_def)

text \<open>
  Claim C5, as the source has it. In \<^verbatim>\<open>UnownedCluster.Delete\<close> the \<^verbatim>\<open>force\<close> flag
  downgrades three steps from fatal to logged-and-continue: the draining of the node
  groups, the deletion of the shared resources and the deletion of the IAM and OIDC
  resources. An error of the operability check (\<^verbatim>\<open>CanOperate\<close>) is only logged and never
  aborts the sequence, whatever \<^verbatim>\<open>force\<close> is. Every other step is fatal whatever
  \<^verbatim>\<open>force\<close> is. With \<^verbatim>\<open>force = false\<close> a failing drain makes \<^verbatim>\<open>Delete\<close> return the
  drain's error with the failed drain as its last call; with \<^verbatim>\<open>force = true\<close> the same
  failure is followed by a warning and by the calls of the next phase, the deletion of the
  shared resources. After an error of \<^verbatim>\<open>CanOperate\<close> the run goes on to list the node
  group stacks.
\<close>

theorem force_downgrades_three_steps:
  "(listNodeGroupStacksResult env = Inl e0 \<longrightarrow>
      Delete env clusterName wait force =
        runSteps force
          [(Fatal, checkClusterExists env clusterName),
           (LoggedOnly, call CallCanOperate (snd (canOperateResult env))),
           (Fatal, call CallListNodeGroupStacks (Some e0))]) \<and>
   (listNodeGroupStacksResult env = Inr allStacks \<longrightarrow>
      Delete env clusterName wait force =
        runSteps force
          ([(Fatal, checkClusterExists env clusterName),
            (LoggedOnly, call CallCanOperate (snd (canOperateResult env))),
            (Fatal, call CallListNodeGroupStacks None)] @
           (if fst (canOperateResult env)
            then [(Fatal, call CallNewClientSet (newClientSetResult env)),
                  (Downgradable, drainAllNodeGroups env allStacks)]
            else []) @
           [(Downgradable, deleteSharedResources env (fst (canOperateResult env))),
            (Fatal, deleteFargateRoleIfExists env),
            (Fatal, deleteAndWaitForNodegroupsDeletion env allStacks),
            (Downgradable, deleteIAMAndOIDC env wait (fst (canOperateResult env))),
            (Fatal, deleteCluster env wait),
            (Fatal, checkForUndeletedStacks env)])) \<and>
   (describeClusterResult env = None \<and> listNodeGroupStacksResult env = Inr allStacks \<and>
    allStacks \<noteq> [] \<and> fst (canOperateResult env) \<and> newClientSetResult env = None \<and>
    drainResult env = Some e \<longrightarrow>
      Delete env clusterName wait False =
        ([(CallDescribeCluster, None), (CallCanOperate, snd (canOperateResult env)),
          (CallListNodeGroupStacks, None), (CallNewClientSet, None),
          (CallDrain (map NodeGroupName
             (filter (\<lambda>s. Type s = NodeGroupTypeUnmanaged) allStacks)), Some e)],
         Some e) \<and>
      prefix
        ([(CallDescribeCluster, None), (CallCanOperate, snd (canOperateResult env)),
          (CallListNodeGroupStacks, None), (CallNewClientSet, None),
          (CallDrain (map NodeGroupName
             (filter (\<lambda>s. Type s = NodeGroupTypeUnmanaged) allStacks)), Some e),
          (LogWarning, Some e)] @ fst (deleteSharedResources env True))
        (fst (Delete env clusterName wait True))) \<and>
   (describeClusterResult env = None \<and> snd (canOperateResult env) = Some e1 \<and>
    listNodeGroupStacksResult env = Inr allStacks \<longrightarrow>
      prefix
        [(CallDescribeCluster, None), (CallCanOperate, Some e1), (CallListNodeGroupStacks, None)]
        (fst (Delete env clusterName wait force)))"
proof (intro conjI impI)
  assume "listNodeGroupStacksResult env = Inl e0"
  then show "Delete env clusterName wait force =
        runSteps force
          [(Fatal, checkClusterExists env clusterName),
           (LoggedOnly, call CallCanOperate (snd (canOperateResult env))),
           (Fatal, call CallListNodeGroupStacks (Some e0))]"
    by (simp add: Delete_def Let_def runSteps_Fatal runSteps_LoggedOnly andThen_empty
        andThen_None)
next
  assume "listNodeGroupStacksResult env = Inr allStacks"
  then show "Delete env clusterName wait force =
        runSteps force
          ([(Fatal, checkClusterExists env clusterName),
            (LoggedOnly, call CallCanOperate (snd (canOperateResult env))),
            (Fatal, call CallListNodeGroupStacks None)] @
           (if fst (canOperateResult env)
            then [(Fatal, call CallNewClientSet (newClientSetResult env)),
                  (Downgradable, drainAllNodeGroups env allStacks)]
            else []) @
           [(Downgradable, deleteSharedResources env (fst (canOperateResult env))),
            (Fatal, deleteFargateRoleIfExists env),
            (Fatal, deleteAndWaitForNodegroupsDeletion env allStacks),
            (Downgradable, deleteIAMAndOIDC env wait (fst (canOperateResult env))),
            (Fatal, deleteCluster env wait),
            (Fatal, checkForUndeletedStacks env)])"
    by (simp add: Delete_def Let_def runSteps_Fatal runSteps_Downgradable runSteps_LoggedOnly
        andThen_empty andThen_assoc andThen_None)
next
  assume h: "describeClusterResult env = None \<and> listNodeGroupStacksResult env = Inr allStacks \<and>
    allStacks \<noteq> [] \<and> fst (canOperateResult env) \<and> newClientSetResult env = None \<and>
    drainResult env = Some e"
  let ?ngs = "map NodeGroupName (filter (\<lambda>s. Type s = NodeGroupTypeUnmanaged) allStacks)"
  from h have d: "drainAllNodeGroups env allStacks = ([(CallDrain ?ngs, Some e)], Some e)"
    by (simp add: drainAllNodeGroups_def)
  from h d show "Delete env clusterName wait False =
        ([(CallDescribeCluster, None), (CallCanOperate, snd (canOperateResult env)),
          (CallListNodeGroupStacks, None), (CallNewClientSet, None),
          (CallDrain ?ngs, Some e)], Some e)"
    by (simp add: Delete_def Let_def checkClusterExists_def unlessForce_def andThen_def call_def)
  obtain str sr where s: "deleteSharedResources env True = (str, sr)"
    by (cases "deleteSharedResources env True")
  from h d s show "prefix
        ([(CallDescribeCluster, None), (CallCanOperate, snd (canOperateResult env)),
          (CallListNodeGroupStacks, None), (CallNewClientSet, None),
          (CallDrain ?ngs, Some e), (LogWarning, Some e)] @ fst (deleteSharedResources env True))
        (fst (Delete env clusterName wait True))"
    by (cases sr)
       (simp_all add: Delete_def Let_def checkClusterExists_def unlessForce_def andThen_def
        call_def split: prod.splits)
next
  assume h: "describeClusterResult env = None \<and> snd (canOperateResult env) = Some e1 \<and>
    listNodeGroupStacksResult env = Inr allStacks"
  then show "prefix
        [(CallDescribeCluster, None), (CallCanOperate, Some e1), (CallListNodeGroupStacks, None)]
        (fst (Delete env clusterName wait force))"
    by (simp add: Delete_def Let_def checkClusterExists_def andThen_None call_def)
qed

text \<open>An operable cluster with one unmanaged node group whose drain fails. Without
  \<^verbatim>\<open>force\<close> the run ends there.\<close>

theorem force_downgrades_three_steps_witness:
  "Delete
     \<lparr>describeClusterResult = None, canOperateResult = (True, None),
      listNodeGroupStacksResult = Inr [\<lparr>NodeGroupName = ''ng1'', Type = NodeGroupTypeUnmanaged\<rparr>],
      newClientSetResult = None, drainResult = Some (External ''drain failed''),
      deleteAddonResult = None, deleteDaemonSetResult = None, listProfilesResult = Inr [],
      isUnauthorizedError = (\<lambda>e. False), deleteProfileResult = (\<lambda>p. None),
      profilesFargateStackResult = Inr None, profilesDeleteStackResult = None,
      deprecatedStacksResult = Inr [], elbCleanupResult = None,
      roleFargateStackResult = Inr None, roleDeleteStackResult = None,
      listNodegroupsResult = Inr [], newTasksToDeleteNodeGroupsResult = None,
      runTaskResult = (\<lambda>t. None),
      newOpenIDConnectManagerResult = None, oidcTasksResult = Inr [],
      addonIAMTasksResult = Inr [], deleteClusterResult = None,
      waitClusterDeletedResult = None, describeStacksResult = Inr []\<rparr> ''c'' False False
   = ([(CallDescribeCluster, None), (CallCanOperate, None), (CallListNodeGroupStacks, None),
       (CallNewClientSet, None), (CallDrain [''ng1''], Some (External ''drain failed''))],
      Some (External ''drain failed''))"
proof -
  let ?stacks = "[\<lparr>NodeGroupName = ''ng1'', Type = NodeGroupTypeUnmanaged\<rparr>]"
  let ?env = "\<lparr>describeClusterResult = None, canOperateResult = (True, None),
      listNodeGroupStacksResult = Inr ?stacks,
      newClientSetResult = None, drainResult = Some (External ''drain failed''),
      deleteAddonResult = None, deleteDaemonSetResult = None, listProfilesResult = Inr [],
      isUnauthorizedError = (\<lambda>e. False), deleteProfileResult = (\<lambda>p. None),
      profilesFargateStackResult = Inr None, profilesDeleteStackResult = None,
      deprecatedStacksResult = Inr [], elbCleanupResult = None,
      roleFargateStackResult = Inr None, roleDeleteStackResult = None,
      listNodegroupsResult = Inr [], newTasksToDeleteNodeGroupsResult = None,
      runTaskResult = (\<lambda>t. None),
      newOpenIDConnectManagerResult = None, oidcTasksResult = Inr [],
      addonIAMTasksResult = Inr [], deleteClusterResult = None,
      waitClusterDeletedResult = None, describeStacksResult = Inr []\<rparr>"
  have h: "describeClusterResult ?env = None \<and> listNodeGroupStacksResult ?env = Inr ?stacks \<and>
    ?stacks \<noteq> [] \<and> fst (canOperateResult ?env) \<and> newClientSetResult ?env = None \<and>
    drainResult ?env = Some (External ''drain failed'')"
    by simp
  note t = force_downgrades_three_steps
    [of ?env _ "''c''" False False ?stacks "External ''drain failed''" _]
  from t [THEN conjunct2, THEN conjunct2, THEN conjunct1, THEN mp, OF h, THEN conjunct1]
  show ?thesis by simp
qed

text \<open>
  The claim as the specification words it counts the deletion of the shared resources among
  the fatal steps. On a cluster that is not operable, let
  \<^verbatim>\<open>DeleteTasksForDeprecatedStacks\<close> fail, so that \<^verbatim>\<open>deleteSharedResources\<close> returns an
  error. With \<^verbatim>\<open>force = true\<close> the run logs a warning, goes on to delete the cluster and
  returns no error.
\<close>

theorem force_downgrades_shared_resources:
  "snd (deleteSharedResources
     \<lparr>describeClusterResult = None, canOperateResult = (False, None),
      listNodeGroupStacksResult = Inr [],
      newClientSetResult = None, drainResult = None,
      deleteAddonResult = None, deleteDaemonSetResult = None, listProfilesResult = Inr [],
      isUnauthorizedError = (\<lambda>e. False), deleteProfileResult = (\<lambda>p. None),
      profilesFargateStackResult = Inr None, profilesDeleteStackResult = None,
      deprecatedStacksResult = Inl (External ''listing failed''), elbCleanupResult = None,
      roleFargateStackResult = Inr None, roleDeleteStackResult = None,
      listNodegroupsResult = Inr [], newTasksToDeleteNodeGroupsResult = None,
      runTaskResult = (\<lambda>t. None),
      newOpenIDConnectManagerResult = None, oidcTasksResult = Inr [],
      addonIAMTasksResult = Inr [], deleteClusterResult = None,
      waitClusterDeletedResult = None, describeStacksResult = Inr []\<rparr> False)
     = Some (External ''listing failed'') \<and>
   Delete
     \<lparr>describeClusterResult = None, canOperateResult = (False, None),
      listNodeGroupStacksResult = Inr [],
      newClientSetResult = None, drainResult = None,
      deleteAddonResult = None, deleteDaemonSetResult = None, listProfilesResult = Inr [],
      isUnauthorizedError = (\<lambda>e. False), deleteProfileResult = (\<lambda>p. None),
      profilesFargateStackResult = Inr None, profilesDeleteStackResult = None,
      deprecatedStacksResult = Inl (External ''listing failed''), elbCleanupResult = None,
      roleFargateStackResult = Inr None, roleDeleteStackResult = None,
      listNodegroupsResult = Inr [], newTasksToDeleteNodeGroupsResult = None,
      runTaskResult = (\<lambda>t. None),
      newOpenIDConnectManagerResult = None, oidcTasksResult = Inr [],
      addonIAMTasksResult = Inr [], deleteClusterResult = None,
      waitClusterDeletedResult = None, describeStacksResult = Inr []\<rparr> ''c'' False True
     = ([(CallDescribeCluster, None), (CallCanOperate, None), (CallListNodeGroupStacks, None),
         (CallDeleteTasksForDeprecatedStacks, Some (External ''listing failed'')),
         (LogWarning, Some (External ''listing failed'')),
         (CallGetFargateStack, None), (CallListNodegroups, None),
         (CallNewTaskToDeleteAddonIAM False, None), (CallDeleteCluster, None),
         (CallDescribeStacks, None)],
        None)"
proof -
  let ?env = "\<lparr>describeClusterResult = None, canOperateResult = (False, None),
      listNodeGroupStacksResult = Inr [],
      newClientSetResult = None, drainResult = None,
      deleteAddonResult = None, deleteDaemonSetResult = None, listProfilesResult = Inr [],
      isUnauthorizedError = (\<lambda>e. False), deleteProfileResult = (\<lambda>p. None),
      profilesFargateStackResult = Inr None, profilesDeleteStackResult = None,
      deprecatedStacksResult = Inl (External ''listing failed''), elbCleanupResult = None,
      roleFargateStackResult = Inr None, roleDeleteStackResult = None,
      listNodegroupsResult = Inr [], newTasksToDeleteNodeGroupsResult = None,
      runTaskResult = (\<lambda>t. None),
      newOpenIDConnectManagerResult = None, oidcTasksResult = Inr [],
      addonIAMTasksResult = Inr [], deleteClusterResult = None,
      waitClusterDeletedResult = None, describeStacksResult = Inr []\<rparr>"
  have sh: "deleteSharedResources ?env False =
      ([(CallDeleteTasksForDeprecatedStacks, Some (External ''listing failed''))],
       Some (External ''listing failed''))"
    by (simp add: deleteSharedResources_def deleteDeprecatedStacks_def andThen_def)
  have ng: "deleteAndWaitForNodegroupsDeletion ?env [] = ([(CallListNodegroups, None)], None)"
    by (simp add: deleteAndWaitForNodegroupsDeletion_def andThen_def call_def)
  have iam: "deleteIAMAndOIDC ?env False False = ([(CallNewTaskToDeleteAddonIAM False, None)], None)"
    by (simp add: deleteIAMAndOIDC_def stackManagerTasks_def Len_def andThen_def call_def)
  have "Delete ?env ''c'' False True
     = ([(CallDescribeCluster, None), (CallCanOperate, None), (CallListNodeGroupStacks, None),
         (CallDeleteTasksForDeprecatedStacks, Some (External ''listing failed'')),
         (LogWarning, Some (External ''listing failed'')),
         (CallGetFargateStack, None), (CallListNodegroups, None),
         (CallNewTaskToDeleteAddonIAM False, None), (CallDeleteCluster, None),
         (CallDescribeStacks, None)],
        None)"
    by (simp add: Delete_def ng sh iam unlessForce_def checkClusterExists_def
        deleteFargateRoleIfExists_def deleteCluster_def checkForUndeletedStacks_def
        andThen_def call_def)
  with sh show ?thesis by simp
qed


end
